theory Spec2Isabelle
  imports Main "HOL-Library.AList"
begin

section \<open>Python values\<close>

text \<open>
  The scripts pass around plain Python dictionaries whose values are the values of a JSON
  document (the ledger file is written by \<^verbatim>\<open>json.dump\<close>, the upload result is a
  dictionary literal). A dictionary is an association list read with \<open>map_of\<close>; floats do
  not occur in the code paths modelled here.
\<close>

datatype json =
    JNull
  | JBool bool
  | JInt int
  | JStr string
  | JList "json list"
  | JDict "(string \<times> json) list"

type_synonym py_dict = "(string \<times> json) list"

text \<open>\<^verbatim>\<open>d.get(k)\<close>: the value, or \<^verbatim>\<open>None\<close> when the key is missing.\<close>

definition dict_get :: "py_dict \<Rightarrow> string \<Rightarrow> json" where
  "dict_get d k = (case map_of d k of None \<Rightarrow> JNull | Some v \<Rightarrow> v)"

text \<open>\<^verbatim>\<open>d.get(k, default)\<close>.\<close>

definition dict_get_default :: "py_dict \<Rightarrow> string \<Rightarrow> json \<Rightarrow> json" where
  "dict_get_default d k dflt = (case map_of d k of None \<Rightarrow> dflt | Some v \<Rightarrow> v)"

text \<open>Python truthiness, as used by \<^verbatim>\<open>if x:\<close> and \<^verbatim>\<open>x and y\<close>.\<close>

fun truthy :: "json \<Rightarrow> bool" where
  "truthy JNull = False"
| "truthy (JBool b) = b"
| "truthy (JInt i) = (i \<noteq> 0)"
| "truthy (JStr s) = (s \<noteq> [])"
| "truthy (JList xs) = (xs \<noteq> [])"
| "truthy (JDict d) = (d \<noteq> [])"

subsection \<open>Strings\<close>

text \<open>Decimal rendering of an integer, as \<^verbatim>\<open>str(n)\<close> and f-strings produce it.\<close>

definition digit_char :: "nat \<Rightarrow> char" where
  "digit_char d = char_of (48 + d)"

fun str_nat :: "nat \<Rightarrow> string" where
  "str_nat n = (if n < 10 then [digit_char n] else str_nat (n div 10) @ [digit_char (n mod 10)])"

definition str_int :: "int \<Rightarrow> string" where
  "str_int i = (if i < 0 then CHR ''-'' # str_nat (nat (- i)) else str_nat (nat i))"

text \<open>
  \<^verbatim>\<open>s.lower()\<close> on the ASCII letters. File names are taken to be ASCII; a byte outside
  \<open>A\<close>..\<open>Z\<close> is left as it is.
\<close>

definition lower_char :: "char \<Rightarrow> char" where
  "lower_char c =
     (if 65 \<le> (of_char c :: nat) \<and> (of_char c :: nat) \<le> 90
      then char_of ((of_char c :: nat) + 32) else c)"

definition lower :: "string \<Rightarrow> string" where
  "lower s = map lower_char s"

text \<open>\<^verbatim>\<open>s.startswith(p)\<close> and \<^verbatim>\<open>s.endswith(p)\<close>.\<close>

definition startswith :: "string \<Rightarrow> string \<Rightarrow> bool" where
  "startswith s p = (take (length p) s = p)"

definition endswith :: "string \<Rightarrow> string \<Rightarrow> bool" where
  "endswith s p = (length p \<le> length s \<and> drop (length s - length p) s = p)"

text \<open>\<^verbatim>\<open>s.endswith(t)\<close> for a tuple \<open>t\<close> of suffixes: some suffix of the tuple matches.\<close>

definition endswith_any :: "string \<Rightarrow> string list \<Rightarrow> bool" where
  "endswith_any s ps = list_ex (endswith s) ps"

text \<open>\<^verbatim>\<open>s.rstrip("/")\<close> and \<^verbatim>\<open>s.lstrip("/")\<close>.\<close>

definition rstrip_slash :: "string \<Rightarrow> string" where
  "rstrip_slash s = rev (dropWhile (\<lambda>c. c = CHR ''/'') (rev s))"

definition lstrip_slash :: "string \<Rightarrow> string" where
  "lstrip_slash s = dropWhile (\<lambda>c. c = CHR ''/'') s"

text \<open>\<^verbatim>\<open>u.split('?')[0]\<close>: the part before the first question mark.\<close>

definition before_query :: "string \<Rightarrow> string" where
  "before_query u = takeWhile (\<lambda>c. c \<noteq> CHR ''?'') u"

text \<open>
  \<^verbatim>\<open>os.path.basename\<close> and \<^verbatim>\<open>os.path.join\<close> of two components, in their POSIX
  form (\<^verbatim>\<open>posixpath\<close>).
\<close>

definition basename :: "string \<Rightarrow> string" where
  "basename p = rev (takeWhile (\<lambda>c. c \<noteq> CHR ''/'') (rev p))"

definition path_join :: "string \<Rightarrow> string \<Rightarrow> string" where
  "path_join a b =
     (if startswith b ''/'' then b
      else if a = [] \<or> endswith a ''/'' then a @ b
      else a @ ''/'' @ b)"

text \<open>
  How an f-string renders a value: a string as itself, \<^verbatim>\<open>None\<close>, a boolean or an
  integer by its name or digits, a list or dictionary by the text \<open>repr\<close> gives for it.
\<close>

definition py_format :: "(json \<Rightarrow> string) \<Rightarrow> json \<Rightarrow> string" where
  "py_format repr j =
     (case j of
        JStr s \<Rightarrow> s
      | JInt i \<Rightarrow> str_int i
      | JNull \<Rightarrow> ''None''
      | JBool b \<Rightarrow> (if b then ''True'' else ''False'')
      | _ \<Rightarrow> repr j)"

section \<open>The world outside the interpreter\<close>

text \<open>
  Everything a run can observe or change: the local disk, the wall clock, and the ordered
  record of what the run did to its collaborators. The clock counts whole seconds. A file
  is its bytes.
\<close>

datatype event =
    Sleep nat
  | Http_get string
  | Http_post string "string option"
  | File_open string
  | File_write string string
  | File_move string string

record world =
  fs :: "string \<rightharpoonup> string"
  now :: nat
  reqs :: nat
  trace :: "event list"

text \<open>
  What a call that may raise gives back: the text of the exception, or the value.
\<close>

datatype 'a outcome = Raises string | Returns 'a

text \<open>
  A \<^verbatim>\<open>requests\<close> response, seen through the accessors the scripts use:
  \<^verbatim>\<open>status_code\<close>, \<^verbatim>\<open>headers\<close>, \<^verbatim>\<open>text\<close>, \<^verbatim>\<open>json()\<close> (\<open>None\<close> when it raises),
  the hyperlink targets that the index regular expression finds in \<^verbatim>\<open>text\<close>, and
  \<^verbatim>\<open>iter_content\<close>: the chunks of the streamed body and whether the stream ends
  normally after them (\<open>False\<close>: it raises after the last chunk listed).
\<close>

record response =
  status_code :: int
  headers :: "(string \<times> string) list"
  body_text :: string
  body_json :: "json option"
  body_hrefs :: "string list"
  body_chunks :: "string list"
  stream_complete :: bool

text \<open>
  The collaborators, as oracles. The \<open>n\<close>-th HTTP request of a run (counted from 0 over all
  requests) to a URL has outcome \<open>http_get n url\<close> or \<open>http_post n url\<close> and takes
  \<open>latency n\<close> seconds. \<open>sha256_hex\<close> is the digest of a byte string, \<open>json_dumps\<close> the
  text \<^verbatim>\<open>json.dump\<close> writes for a ledger, \<open>py_repr\<close> the text Python prints for a parsed
  JSON container.
\<close>

record env =
  http_get :: "nat \<Rightarrow> string \<Rightarrow> response outcome"
  http_post :: "nat \<Rightarrow> string \<Rightarrow> response outcome"
  latency :: "nat \<Rightarrow> nat"
  sha256_hex :: "string \<Rightarrow> string"
  json_dumps :: "(string \<times> py_dict) list \<Rightarrow> string"
  py_repr :: "json \<Rightarrow> string"

definition emit :: "event \<Rightarrow> world \<Rightarrow> world" where
  "emit e w = w\<lparr>trace := trace w @ [e]\<rparr>"

text \<open>\<^verbatim>\<open>time.sleep(d)\<close>.\<close>

definition sleep :: "nat \<Rightarrow> world \<Rightarrow> world" where
  "sleep d w = emit (Sleep d) (w\<lparr>now := now w + d\<rparr>)"

text \<open>One HTTP request: it is recorded, numbered, and takes its time.\<close>

definition request_done :: "env \<Rightarrow> event \<Rightarrow> world \<Rightarrow> world" where
  "request_done E e w = emit e (w\<lparr>now := now w + latency E (reqs w), reqs := Suc (reqs w)\<rparr>)"

definition do_get :: "env \<Rightarrow> string \<Rightarrow> world \<Rightarrow> response outcome \<times> world" where
  "do_get E url w = (http_get E (reqs w) url, request_done E (Http_get url) w)"

text \<open>A POST; \<open>part\<close> is the file name of its multipart file part, when it has one.\<close>

definition do_post ::
  "env \<Rightarrow> string \<Rightarrow> string option \<Rightarrow> world \<Rightarrow> response outcome \<times> world" where
  "do_post E url part w = (http_post E (reqs w) url, request_done E (Http_post url part) w)"

text \<open>The three disk operations that change a file.\<close>

definition file_open_w :: "string \<Rightarrow> world \<Rightarrow> world" where
  "file_open_w p w = emit (File_open p) (w\<lparr>fs := (fs w)(p \<mapsto> [])\<rparr>)"

definition file_write :: "string \<Rightarrow> string \<Rightarrow> world \<Rightarrow> world" where
  "file_write p bytes w =
     emit (File_write p bytes)
       (w\<lparr>fs := (fs w)(p \<mapsto> (case fs w p of None \<Rightarrow> bytes | Some old \<Rightarrow> old @ bytes))\<rparr>)"

text \<open>\<^verbatim>\<open>shutil.move(src, dst)\<close> of a file within one directory: a rename.\<close>

definition file_move :: "string \<Rightarrow> string \<Rightarrow> world \<Rightarrow> world" where
  "file_move src dst w =
     emit (File_move src dst) (w\<lparr>fs := ((fs w)(dst := fs w src))(src := None)\<rparr>)"

text \<open>\<^verbatim>\<open>response.raise_for_status()\<close> raises for a 4xx or 5xx status.\<close>

definition raise_for_status :: "response \<Rightarrow> bool" where
  "raise_for_status r = (400 \<le> status_code r \<and> status_code r < 600)"

section \<open>The mirror ledger: class MirrorState\<close>

text \<open>
  The class is the same in \<^verbatim>\<open>jfrog_to_fabric_sync.py\<close> and
  \<^verbatim>\<open>azure_devops_to_fabric_sync.py\<close>. Its \<^verbatim>\<open>_data\<close> is typed
  \<^verbatim>\<open>Dict[str, Dict[str, Any]]\<close>.
\<close>

record MirrorState =
  state_path :: string
  state_data :: "(string \<times> py_dict) list"

text \<open>The key \<^verbatim>\<open>f"{pkg_name}:{filename}"\<close>.\<close>

definition ledger_key :: "string \<Rightarrow> string \<Rightarrow> string" where
  "ledger_key pkg_name filename = pkg_name @ '':'' @ filename"

definition save :: "env \<Rightarrow> MirrorState \<Rightarrow> world \<Rightarrow> world" where
  "save E st w =
     (let tmp = state_path st @ ''.tmp'';
          w1 = file_open_w tmp w;
          w2 = file_write tmp (json_dumps E (state_data st)) w1
      in file_move tmp (state_path st) w2)"

text \<open>
  \<^verbatim>\<open>bool(rec and rec.get("sha256") == sha256 and rec.get("uploaded") is True)\<close>:
  a missing key gives \<^verbatim>\<open>None\<close>, and so does an empty record, both falsy.
\<close>

definition is_uploaded :: "MirrorState \<Rightarrow> string \<Rightarrow> string \<Rightarrow> string \<Rightarrow> bool" where
  "is_uploaded st pkg_name filename sha256 =
     (case map_of (state_data st) (ledger_key pkg_name filename) of
        None \<Rightarrow> False
      | Some rec \<Rightarrow>
          rec \<noteq> [] \<and> dict_get rec ''sha256'' = JStr sha256
            \<and> dict_get rec ''uploaded'' = JBool True)"

definition mark_uploaded ::
  "env \<Rightarrow> MirrorState \<Rightarrow> string \<Rightarrow> string \<Rightarrow> string \<Rightarrow> py_dict \<Rightarrow> world \<Rightarrow> MirrorState \<times> world" where
  "mark_uploaded E st pkg_name filename sha256 upload_meta w =
     (let key = ledger_key pkg_name filename;
          rec = [(''sha256'', JStr sha256),
                 (''uploaded'', JBool True),
                 (''upload_meta'', JDict upload_meta),
                 (''ts'', JInt (int (now w)))];
          st' = st\<lparr>state_data := AList.update key rec (state_data st)\<rparr>
      in (st', save E st' w))"

section \<open>The staging uploader and publisher: class FabricEnvironmentManager\<close>

record FabricEnvironmentManager =
  workspace_id :: string
  environment_id :: string
  base_url :: string
  token :: string

definition staging_url :: "FabricEnvironmentManager \<Rightarrow> string \<Rightarrow> string" where
  "staging_url m leaf =
     base_url m @ ''/workspaces/'' @ workspace_id m @ ''/environments/'' @ environment_id m
       @ ''/staging/'' @ leaf"

text \<open>
  \<^verbatim>\<open>_attempt_upload\<close>: one multipart POST of the file. Opening the file and the POST may
  raise; any status but 200 gives a failure dictionary. The content type guessed from the
  file name goes into the request only. \<open>attempt_result\<close> is what the method makes of the
  outcome of its POST.
\<close>

definition attempt_result :: "env \<Rightarrow> string \<Rightarrow> response outcome \<Rightarrow> py_dict outcome" where
  "attempt_result E wheel_name out =
     (case out of
        Raises e \<Rightarrow> Raises e
      | Returns r \<Rightarrow>
          if status_code r = 200 then
            Returns [(''success'', JBool True),
                     (''message'', JStr (''Library '' @ wheel_name @ '' uploaded to staging'')),
                     (''status_code'', JInt (status_code r)),
                     (''wheel_name'', JStr wheel_name)]
          else
            (let error_msg =
                   ''Upload failed: HTTP '' @ str_int (status_code r) @ '' - '' @
                     (case body_json r of
                        Some error_detail \<Rightarrow> py_format (py_repr E) error_detail
                      | None \<Rightarrow> take 200 (body_text r))
             in Returns [(''success'', JBool False),
                         (''error'', JStr error_msg),
                         (''status_code'', JInt (status_code r)),
                         (''wheel_name'', JStr wheel_name)]))"

definition attempt_upload ::
  "env \<Rightarrow> FabricEnvironmentManager \<Rightarrow> string \<Rightarrow> string \<Rightarrow> world \<Rightarrow> py_dict outcome \<times> world" where
  "attempt_upload E m wheel_path wheel_name w =
     (case fs w wheel_path of
        None \<Rightarrow> (Raises (''No such file or directory: '' @ wheel_path), w)
      | Some bytes \<Rightarrow>
          (let (out, w1) = do_post E (staging_url m ''libraries'') (Some wheel_name) w
           in (attempt_result E wheel_name out, w1)))"

text \<open>
  The body of \<^verbatim>\<open>for attempt in range(max_retries)\<close> in \<^verbatim>\<open>upload_wheel\<close>, over the
  attempt numbers still to run; the empty list is the code after the loop.
\<close>

fun upload_attempts ::
  "env \<Rightarrow> FabricEnvironmentManager \<Rightarrow> string \<Rightarrow> string \<Rightarrow> int \<Rightarrow> nat list \<Rightarrow> world
     \<Rightarrow> py_dict \<times> world" where
  "upload_attempts E m wheel_path wheel_name max_retries [] w =
     ([(''success'', JBool False),
       (''error'', JStr (''Upload failed after '' @ str_int max_retries @ '' attempts'')),
       (''wheel_name'', JStr wheel_name)], w)"
| "upload_attempts E m wheel_path wheel_name max_retries (attempt # rest) w =
     (case attempt_upload E m wheel_path wheel_name w of
        (Returns result, w1) \<Rightarrow>
          if truthy (dict_get result ''success'') then (result, w1)
          else if int attempt = max_retries - 1 then (result, w1)
          else upload_attempts E m wheel_path wheel_name max_retries rest (sleep (2 ^ attempt) w1)
      | (Raises e, w1) \<Rightarrow>
          if int attempt = max_retries - 1 then
            ([(''success'', JBool False),
              (''error'', JStr (''Upload failed after '' @ str_int max_retries @ '' attempts: '' @ e)),
              (''wheel_name'', JStr wheel_name)], w1)
          else upload_attempts E m wheel_path wheel_name max_retries rest (sleep (2 ^ attempt) w1))"

definition upload_wheel ::
  "env \<Rightarrow> FabricEnvironmentManager \<Rightarrow> string \<Rightarrow> int \<Rightarrow> world \<Rightarrow> py_dict outcome \<times> world" where
  "upload_wheel E m wheel_path max_retries w =
     (if fs w wheel_path = None then (Raises (''Wheel file not found: '' @ wheel_path), w)
      else
        (let wheel_name = basename wheel_path;
             r = upload_attempts E m wheel_path wheel_name max_retries [0 ..< nat max_retries] w
         in (Returns (fst r), snd r)))"

text \<open>
  \<^verbatim>\<open>response.headers.get(name)\<close>: the headers of a response are looked up without
  regard to letter case.
\<close>

definition header_get :: "(string \<times> string) list \<Rightarrow> string \<Rightarrow> string option" where
  "header_get hs name = map_of (map (\<lambda>(k, v). (lower k, v)) hs) (lower name)"

definition timeout_result :: py_dict where
  "timeout_result =
     [(''success'', JBool False),
      (''error'', JStr ''Timeout waiting for publish completion''),
      (''message'', JStr ''Check Fabric UI for publish status'')]"

definition failed_result :: "env \<Rightarrow> py_dict \<Rightarrow> py_dict" where
  "failed_result E operation_status =
     (let error_msg = dict_get_default operation_status ''error'' (JStr ''Unknown error'')
      in [(''success'', JBool False),
          (''error'', JStr (''Publish operation failed: '' @ py_format (py_repr E) error_msg)),
          (''operation_status'', JDict operation_status)])"

definition succeeded_result :: "py_dict \<Rightarrow> py_dict" where
  "succeeded_result operation_status =
     [(''success'', JBool True),
      (''message'', JStr ''Environment published and active''),
      (''operation_status'', JDict operation_status)]"

text \<open>
  What one round of the polling loop in \<^verbatim>\<open>_wait_for_publish_completion\<close> makes of the
  outcome of its GET: a result to return, or another round. A request that raises, a status
  other than 200, a body that is not a JSON object (\<^verbatim>\<open>json()\<close> or \<^verbatim>\<open>.get\<close> raises
  inside the \<^verbatim>\<open>try\<close>) and every status word other than Succeeded and Failed all lead
  to \<^verbatim>\<open>time.sleep(10)\<close> and another round.
\<close>

datatype poll = Finished py_dict | Pending

definition poll_result :: "env \<Rightarrow> response outcome \<Rightarrow> poll" where
  "poll_result E out =
     (case out of
        Raises e \<Rightarrow> Pending
      | Returns r \<Rightarrow>
          if status_code r = 200 then
            (case body_json r of
               Some (JDict operation_status) \<Rightarrow>
                 (let status = dict_get_default operation_status ''status'' (JStr ''Unknown'')
                  in if status = JStr ''Succeeded'' then Finished (succeeded_result operation_status)
                     else if status = JStr ''Failed'' then Finished (failed_result E operation_status)
                     else Pending)
             | _ \<Rightarrow> Pending)
          else Pending)"

text \<open>The loop \<^verbatim>\<open>while time.time() - start_time < max_wait\<close>, and the code after it.\<close>

function wait_loop :: "env \<Rightarrow> string \<Rightarrow> nat \<Rightarrow> int \<Rightarrow> world \<Rightarrow> py_dict \<times> world" where
  "wait_loop E operation_url start_time max_wait w =
     (if int (now w) - int start_time < max_wait then
        (case poll_result E (fst (do_get E operation_url w)) of
           Finished result \<Rightarrow> (result, snd (do_get E operation_url w))
         | Pending \<Rightarrow>
             wait_loop E operation_url start_time max_wait
               (sleep 10 (snd (do_get E operation_url w))))
      else (timeout_result, w))"
  by pat_completeness auto
termination
  by (relation "measure (\<lambda>(E, u, s, m, w). nat (int s + m - int (now w)))")
     (auto simp: do_get_def request_done_def sleep_def emit_def)

declare wait_loop.simps [simp del]

definition wait_for_publish_completion ::
  "env \<Rightarrow> FabricEnvironmentManager \<Rightarrow> string \<Rightarrow> int \<Rightarrow> world \<Rightarrow> py_dict \<times> world" where
  "wait_for_publish_completion E m operation_id max_wait w =
     (if operation_id = [] then
        ([(''success'', JBool True), (''message'', JStr ''Publish completed (no operation ID)'')], w)
      else wait_loop E (base_url m @ ''/operations/'' @ operation_id) (now w) max_wait w)"

definition publish_environment ::
  "env \<Rightarrow> FabricEnvironmentManager \<Rightarrow> world \<Rightarrow> py_dict outcome \<times> world" where
  "publish_environment E m w =
     (case do_post E (staging_url m ''publish'') None w of
        (Raises e, w1) \<Rightarrow> (Raises e, w1)
      | (Returns r, w1) \<Rightarrow>
          if status_code r = 200 \<or> status_code r = 202 then
            (if status_code r = 202 then
               (case header_get (headers r) ''x-ms-operation-id'' of
                  Some (c # cs) \<Rightarrow>
                    (let res = wait_for_publish_completion E m (c # cs) 300 w1
                     in (Returns (fst res), snd res))
                | _ \<Rightarrow>
                    (Returns [(''success'', JBool True),
                              (''message'', JStr ''Environment published successfully (no operation ID)''),
                              (''status_code'', JInt (status_code r))], w1))
             else
               (Returns [(''success'', JBool True),
                         (''message'', JStr ''Environment published successfully''),
                         (''status_code'', JInt (status_code r))], w1))
          else
            (let error_msg =
                   ''Publish failed: HTTP '' @ str_int (status_code r) @ '' - '' @
                     (case body_json r of
                        Some error_detail \<Rightarrow> py_format (py_repr E) error_detail
                      | None \<Rightarrow> body_text r)
             in (Returns [(''success'', JBool False),
                          (''error'', JStr error_msg),
                          (''status_code'', JInt (status_code r))], w1)))"

section \<open>The local cache: download_url_to_path\<close>

text \<open>The function is the same in both mirror scripts.\<close>

text \<open>\<^verbatim>\<open>for chunk in r.iter_content(...): if chunk: f.write(chunk)\<close>.\<close>

fun write_chunks :: "string \<Rightarrow> string list \<Rightarrow> world \<Rightarrow> world" where
  "write_chunks p [] w = w"
| "write_chunks p (chunk # rest) w =
     write_chunks p rest (if chunk \<noteq> [] then file_write p chunk w else w)"

text \<open>
  The \<^verbatim>\<open>try\<close> block of one attempt: GET, \<^verbatim>\<open>raise_for_status\<close>, stream into
  \<^verbatim>\<open>dest_path + ".part"\<close>, and only when the stream has ended move it onto
  \<^verbatim>\<open>dest_path\<close>.
\<close>

definition download_attempt :: "env \<Rightarrow> string \<Rightarrow> string \<Rightarrow> world \<Rightarrow> unit outcome \<times> world" where
  "download_attempt E url dest_path w =
     (case do_get E url w of
        (Raises e, w1) \<Rightarrow> (Raises e, w1)
      | (Returns r, w1) \<Rightarrow>
          if raise_for_status r then (Raises (''HTTP error '' @ str_int (status_code r)), w1)
          else
            (let tmp = dest_path @ ''.part'';
                 w2 = file_open_w tmp w1;
                 w3 = write_chunks tmp (body_chunks r) w2
             in if stream_complete r then (Returns (), file_move tmp dest_path w3)
                else (Raises ''stream interrupted'', w3)))"

function download_loop ::
  "env \<Rightarrow> string \<Rightarrow> string \<Rightarrow> int \<Rightarrow> int \<Rightarrow> world \<Rightarrow> unit outcome \<times> world" where
  "download_loop E url dest_path max_retries attempts w =
     (if attempts < max_retries then
        (case download_attempt E url dest_path w of
           (Returns u, w1) \<Rightarrow> (Returns (), w1)
         | (Raises e, w1) \<Rightarrow>
             if attempts + 1 \<ge> max_retries then (Raises e, w1)
             else download_loop E url dest_path max_retries (attempts + 1)
                    (sleep (2 ^ nat (attempts + 1 - 1)) w1))
      else (Returns (), w))"
  by pat_completeness auto
termination
  by (relation "measure (\<lambda>(E, u, d, m, a, w). nat (m - a))") auto

declare download_loop.simps [simp del]

definition download_url_to_path ::
  "env \<Rightarrow> string \<Rightarrow> string \<Rightarrow> int \<Rightarrow> world \<Rightarrow> unit outcome \<times> world" where
  "download_url_to_path E url dest_path max_retries w =
     download_loop E url dest_path max_retries 0 w"

section \<open>The source index resolvers\<close>

record entry =
  entry_url :: string
  entry_filename :: string

definition VALID_DISTS :: "string list" where
  "VALID_DISTS = [''.whl'', ''.tar.gz'', ''.zip'']"

text \<open>
  The links of an index page, made absolute: the loop over \<^verbatim>\<open>hrefs\<close> that ends
  \<^verbatim>\<open>pypi_simple_list\<close> and \<^verbatim>\<open>azure_pypi_simple_index\<close>.
\<close>

definition absolute_links :: "string \<Rightarrow> string list \<Rightarrow> string list" where
  "absolute_links idx hrefs =
     map (\<lambda>u. if startswith u ''http'' then u else rstrip_slash idx @ ''/'' @ lstrip_slash u) hrefs"

text \<open>GET of an index page at \<open>idx\<close>, \<^verbatim>\<open>raise_for_status\<close>, and its links.\<close>

definition fetch_index :: "env \<Rightarrow> string \<Rightarrow> world \<Rightarrow> string list outcome \<times> world" where
  "fetch_index E idx w =
     (case do_get E idx w of
        (Raises e, w1) \<Rightarrow> (Raises e, w1)
      | (Returns r, w1) \<Rightarrow>
          if raise_for_status r then (Raises (''HTTP error '' @ str_int (status_code r)), w1)
          else (Returns (absolute_links idx (body_hrefs r)), w1))"

definition pypi_simple_list :: "env \<Rightarrow> string \<Rightarrow> string \<Rightarrow> world \<Rightarrow> string list outcome \<times> world" where
  "pypi_simple_list E base pkg_name w =
     fetch_index E (rstrip_slash base @ ''/simple/'' @ pkg_name @ ''/'') w"

text \<open>
  \<^verbatim>\<open>for x in v\<close> over a parsed JSON value: the elements of a list, the keys of an object,
  the characters of a string; anything else is not iterable.
\<close>

definition py_iter :: "json \<Rightarrow> json list outcome" where
  "py_iter v =
     (case v of
        JList xs \<Rightarrow> Returns xs
      | JDict d \<Rightarrow> Returns (map (\<lambda>(k, x). JStr k) d)
      | JStr s \<Rightarrow> Returns (map (\<lambda>c. JStr [c]) s)
      | _ \<Rightarrow> Raises ''TypeError: object is not iterable'')"

text \<open>
  GET of a JSON document with query parameters, \<^verbatim>\<open>raise_for_status\<close>, \<^verbatim>\<open>r.json()\<close>,
  and the elements of \<^verbatim>\<open>data.get(field, [])\<close>: the body shared by \<^verbatim>\<open>artifactory_list\<close>
  and \<^verbatim>\<open>azure_devops_list_packages_via_api\<close>.
\<close>

definition fetch_listing :: "env \<Rightarrow> string \<Rightarrow> string \<Rightarrow> world \<Rightarrow> json list outcome \<times> world" where
  "fetch_listing E url field w =
     (case do_get E url w of
        (Raises e, w1) \<Rightarrow> (Raises e, w1)
      | (Returns r, w1) \<Rightarrow>
          if raise_for_status r then (Raises (''HTTP error '' @ str_int (status_code r)), w1)
          else
            (case body_json r of
               None \<Rightarrow> (Raises ''JSONDecodeError'', w1)
             | Some (JDict data) \<Rightarrow> (py_iter (dict_get_default data field (JList [])), w1)
             | Some other \<Rightarrow> (Raises ''AttributeError: no attribute get'', w1)))"

definition artifactory_list :: "env \<Rightarrow> string \<Rightarrow> string \<Rightarrow> world \<Rightarrow> json list outcome \<times> world" where
  "artifactory_list E repo_base repo w =
     fetch_listing E
       (rstrip_slash repo_base @ ''/api/storage/'' @ repo @ ''?list=1&deep=1&listFolders=0'')
       ''files'' w"

definition determine_files_from_artifactory_entry ::
  "string \<Rightarrow> string \<Rightarrow> json \<Rightarrow> entry option outcome" where
  "determine_files_from_artifactory_entry art_base repo e =
     (case e of
        JDict d \<Rightarrow>
          (let uri = dict_get d ''uri''
           in if \<not> truthy uri then Returns None
              else
                (case uri of
                   JStr u \<Rightarrow>
                     Returns (Some \<lparr>entry_url = rstrip_slash art_base @ ''/'' @ repo @ u,
                                    entry_filename = basename u\<rparr>)
                 | _ \<Rightarrow> Raises ''TypeError: can only concatenate str''))
      | _ \<Rightarrow> Raises ''AttributeError: no attribute get'')"

text \<open>
  The fallback loop of \<^verbatim>\<open>mirror_package_from_jfrog\<close> over the listed files; the first
  entry that raises ends it.
\<close>

fun collect_entries :: "string \<Rightarrow> string \<Rightarrow> json list \<Rightarrow> entry list outcome" where
  "collect_entries art_base repo [] = Returns []"
| "collect_entries art_base repo (f # rest) =
     (case determine_files_from_artifactory_entry art_base repo f of
        Raises e \<Rightarrow> Raises e
      | Returns info \<Rightarrow>
          (case collect_entries art_base repo rest of
             Raises e \<Rightarrow> Raises e
           | Returns es \<Rightarrow> Returns (case info of None \<Rightarrow> es | Some i \<Rightarrow> i # es)))"

text \<open>The entries for a list of links: the file name is the base name, query stripped.\<close>

definition url_entries :: "string list \<Rightarrow> entry list" where
  "url_entries urls = map (\<lambda>u. \<lparr>entry_url = u, entry_filename = basename (before_query u)\<rparr>) urls"

text \<open>
  Lines 171 to 183 of \<^verbatim>\<open>jfrog_to_fabric_sync.py\<close>: the simple index first; when it raises,
  the storage listing, called in the \<^verbatim>\<open>except\<close> block and not itself guarded.
\<close>

definition resolve_jfrog ::
  "env \<Rightarrow> string \<Rightarrow> string \<Rightarrow> string \<Rightarrow> world \<Rightarrow> entry list outcome \<times> world" where
  "resolve_jfrog E pkg_name jfrog_base repo w =
     (case pypi_simple_list E (rstrip_slash jfrog_base @ ''/'' @ repo) pkg_name w of
        (Returns urls, w1) \<Rightarrow> (Returns (url_entries urls), w1)
      | (Raises e, w1) \<Rightarrow>
          (case artifactory_list E jfrog_base repo w1 of
             (Raises e', w2) \<Rightarrow> (Raises e', w2)
           | (Returns files, w2) \<Rightarrow> (collect_entries jfrog_base repo files, w2)))"

definition azure_pypi_simple_index ::
  "env \<Rightarrow> string \<Rightarrow> string \<Rightarrow> string option \<Rightarrow> string \<Rightarrow> string \<Rightarrow> world
     \<Rightarrow> string list outcome \<times> world" where
  "azure_pypi_simple_index E base org project feed pkg_name w =
     (let base' = (if base \<noteq> [] then rstrip_slash base else ''https://pkgs.dev.azure.com'');
          idx = (case project of
                   Some (c # cs) \<Rightarrow>
                     base' @ ''/'' @ org @ ''/'' @ (c # cs) @ ''/_packaging/'' @ feed
                       @ ''/pypi/simple/'' @ pkg_name @ ''/''
                 | _ \<Rightarrow>
                     base' @ ''/'' @ org @ ''/_packaging/'' @ feed
                       @ ''/pypi/simple/'' @ pkg_name @ ''/'')
      in fetch_index E idx w)"

text \<open>
  The loop of \<^verbatim>\<open>azure_devops_list_packages_via_api\<close> over the listed packages:
  \<^verbatim>\<open>name = pkg.get("name") or pkg.get("normalizedName")\<close>, kept when truthy.
\<close>

fun package_names :: "json list \<Rightarrow> json list outcome" where
  "package_names [] = Returns []"
| "package_names (JDict pkg # rest) =
     (let name = (if truthy (dict_get pkg ''name'') then dict_get pkg ''name''
                  else dict_get pkg ''normalizedName'')
      in case package_names rest of
           Raises e \<Rightarrow> Raises e
         | Returns names \<Rightarrow> Returns (if truthy name then name # names else names))"
| "package_names (other # rest) = Raises ''AttributeError: no attribute get''"

definition azure_devops_list_packages_via_api ::
  "env \<Rightarrow> string \<Rightarrow> string \<Rightarrow> string option \<Rightarrow> string \<Rightarrow> world \<Rightarrow> json list outcome \<times> world" where
  "azure_devops_list_packages_via_api E base org project feed w =
     (let base' = (if base \<noteq> [] then rstrip_slash base else ''https://feeds.dev.azure.com'');
          api = (case project of
                   Some (c # cs) \<Rightarrow>
                     base' @ ''/'' @ org @ ''/'' @ (c # cs) @ ''/_apis/packaging/feeds/'' @ feed
                       @ ''/packages''
                 | _ \<Rightarrow> base' @ ''/'' @ org @ ''/_apis/packaging/feeds/'' @ feed @ ''/packages'')
      in case fetch_listing E (api @ ''?api-version=6.0-preview.1&protocolType=pypi'') ''value'' w of
           (Raises e, w1) \<Rightarrow> (Raises e, w1)
         | (Returns pkgs, w1) \<Rightarrow> (package_names pkgs, w1))"

text \<open>
  Lines 196 to 217 of \<^verbatim>\<open>azure_devops_to_fabric_sync.py\<close>: the simple index first; when it
  raises, the feed listing and a second try of the index, all inside a \<^verbatim>\<open>try\<close> whose
  \<^verbatim>\<open>except\<close> returns from the function. \<open>None\<close> is that return (the package is
  skipped).
\<close>

definition resolve_azure ::
  "env \<Rightarrow> string \<Rightarrow> string \<Rightarrow> string \<Rightarrow> string option \<Rightarrow> string \<Rightarrow> world
     \<Rightarrow> entry list option \<times> world" where
  "resolve_azure E pkg_name base org project feed w =
     (case azure_pypi_simple_index E base org project feed pkg_name w of
        (Returns urls, w1) \<Rightarrow> (Some (url_entries urls), w1)
      | (Raises e, w1) \<Rightarrow>
          (case azure_devops_list_packages_via_api E base org project feed w1 of
             (Raises e', w2) \<Rightarrow> (None, w2)
           | (Returns names, w2) \<Rightarrow>
               if JStr pkg_name \<notin> set names then (None, w2)
               else
                 (case azure_pypi_simple_index E base org project feed pkg_name w2 of
                    (Raises e'', w3) \<Rightarrow> (None, w3)
                  | (Returns urls, w3) \<Rightarrow> (Some (url_entries urls), w3))))"

section \<open>The pipeline driver\<close>

text \<open>
  \<^verbatim>\<open>[e for e in entries if e["filename"].lower().endswith(VALID_DISTS)]\<close>.
\<close>

definition valid_entries :: "entry list \<Rightarrow> entry list" where
  "valid_entries entries =
     filter (\<lambda>e. endswith_any (lower (entry_filename e)) VALID_DISTS) entries"

text \<open>
  \<^verbatim>\<open>if not os.path.exists(local_path): download_url_to_path(session, url, local_path)\<close>:
  a file already in the cache is not fetched again.
\<close>

definition ensure_cached :: "env \<Rightarrow> string \<Rightarrow> string \<Rightarrow> world \<Rightarrow> unit outcome \<times> world" where
  "ensure_cached E url local_path w =
     (if fs w local_path = None then download_url_to_path E url local_path 3 w
      else (Returns (), w))"

text \<open>
  The body of \<^verbatim>\<open>for e in entries\<close>, the same in both mirror scripts. \<open>Returns\<close> is the
  end of the body or a \<^verbatim>\<open>continue\<close>; the one exception that leaves the body is that of
  \<^verbatim>\<open>sha256_of_file\<close>, which is not guarded.
\<close>

definition mirror_entry ::
  "env \<Rightarrow> FabricEnvironmentManager \<Rightarrow> string \<Rightarrow> string \<Rightarrow> bool \<Rightarrow> entry
     \<Rightarrow> MirrorState \<times> world \<Rightarrow> unit outcome \<times> MirrorState \<times> world" where
  "mirror_entry E m pkg_name cache_dir upload_wheels_only e sw =
     (let st = fst sw; w = snd sw;
          filename = entry_filename e;
          url = entry_url e;
          local_path = path_join cache_dir filename
      in case ensure_cached E url local_path w of
           (Raises ex, w1) \<Rightarrow> (Returns (), st, w1)
         | (Returns u, w1) \<Rightarrow>
             (case fs w1 local_path of
                None \<Rightarrow> (Raises (''No such file or directory: '' @ local_path), st, w1)
              | Some bytes \<Rightarrow>
                  (let sha256 = sha256_hex E bytes
                   in if is_uploaded st pkg_name filename sha256 then (Returns (), st, w1)
                      else if upload_wheels_only \<and> \<not> endswith (lower filename) ''.whl''
                      then (Returns (), st, w1)
                      else
                        (case upload_wheel E m local_path 3 w1 of
                           (Raises ex, w2) \<Rightarrow> (Returns (), st, w2)
                         | (Returns upload_result, w2) \<Rightarrow>
                             if truthy (dict_get upload_result ''success'') then
                               (Returns (),
                                mark_uploaded E st pkg_name filename sha256 upload_result w2)
                             else (Returns (), st, w2)))))"

fun mirror_entries ::
  "env \<Rightarrow> FabricEnvironmentManager \<Rightarrow> string \<Rightarrow> string \<Rightarrow> bool \<Rightarrow> entry list
     \<Rightarrow> MirrorState \<times> world \<Rightarrow> unit outcome \<times> MirrorState \<times> world" where
  "mirror_entries E m pkg_name cache_dir upload_wheels_only [] sw = (Returns (), sw)"
| "mirror_entries E m pkg_name cache_dir upload_wheels_only (e # rest) sw =
     (case mirror_entry E m pkg_name cache_dir upload_wheels_only e sw of
        (Raises ex, sw1) \<Rightarrow> (Raises ex, sw1)
      | (Returns u, sw1) \<Rightarrow> mirror_entries E m pkg_name cache_dir upload_wheels_only rest sw1)"

text \<open>
  From the filter to the end of \<^verbatim>\<open>mirror_package_from_jfrog\<close> and
  \<^verbatim>\<open>mirror_package_from_azure\<close>: nothing to do when no entry is left, else the loop and,
  when asked for, the publish, whose exceptions are caught and whose result is only logged.
\<close>

definition mirror_resolved ::
  "env \<Rightarrow> FabricEnvironmentManager \<Rightarrow> string \<Rightarrow> string \<Rightarrow> bool \<Rightarrow> bool \<Rightarrow> entry list
     \<Rightarrow> MirrorState \<times> world \<Rightarrow> unit outcome \<times> MirrorState \<times> world" where
  "mirror_resolved E m pkg_name cache_dir upload_wheels_only publish_after entries sw =
     (if valid_entries entries = [] then (Returns (), sw)
      else
        (case mirror_entries E m pkg_name cache_dir upload_wheels_only (valid_entries entries) sw of
           (Raises ex, sw1) \<Rightarrow> (Raises ex, sw1)
         | (Returns u, st1, w1) \<Rightarrow>
             if publish_after then (Returns (), st1, snd (publish_environment E m w1))
             else (Returns (), st1, w1)))"

text \<open>
  \<^verbatim>\<open>os.makedirs(path, exist_ok=True)\<close>, the first statement of both package functions, as
  far as a disk of files decides it: the empty path names no directory
  (\<^verbatim>\<open>FileNotFoundError\<close>), and a path at which a file lies cannot become one
  (\<^verbatim>\<open>FileExistsError\<close>). Directories themselves are not part of the disk of the model, so
  a successful call leaves the world as it is.
\<close>

definition makedirs :: "string \<Rightarrow> world \<Rightarrow> unit outcome" where
  "makedirs path w =
     (if path = [] then Raises ''FileNotFoundError: No such file or directory''
      else if fs w path \<noteq> None then Raises (''FileExistsError: File exists: '' @ path)
      else Returns ())"

definition mirror_package_from_jfrog ::
  "env \<Rightarrow> FabricEnvironmentManager \<Rightarrow> string \<Rightarrow> string \<Rightarrow> string \<Rightarrow> string \<Rightarrow> bool \<Rightarrow> bool
     \<Rightarrow> MirrorState \<times> world \<Rightarrow> unit outcome \<times> MirrorState \<times> world" where
  "mirror_package_from_jfrog E m pkg_name jfrog_base repo cache_dir upload_wheels_only
       publish_after sw =
     (case makedirs cache_dir (snd sw) of
        Raises ex \<Rightarrow> (Raises ex, sw)
      | Returns u \<Rightarrow>
          (case resolve_jfrog E pkg_name jfrog_base repo (snd sw) of
             (Raises ex, w1) \<Rightarrow> (Raises ex, fst sw, w1)
           | (Returns entries, w1) \<Rightarrow>
               mirror_resolved E m pkg_name cache_dir upload_wheels_only publish_after entries
                 (fst sw, w1)))"

definition mirror_package_from_azure ::
  "env \<Rightarrow> FabricEnvironmentManager \<Rightarrow> string \<Rightarrow> string \<Rightarrow> string \<Rightarrow> string option \<Rightarrow> string
     \<Rightarrow> string \<Rightarrow> bool \<Rightarrow> bool
     \<Rightarrow> MirrorState \<times> world \<Rightarrow> unit outcome \<times> MirrorState \<times> world" where
  "mirror_package_from_azure E m pkg_name base org project feed cache_dir upload_wheels_only
       publish_after sw =
     (case makedirs cache_dir (snd sw) of
        Raises ex \<Rightarrow> (Raises ex, sw)
      | Returns u \<Rightarrow>
          (case resolve_azure E pkg_name base org project feed (snd sw) of
             (None, w1) \<Rightarrow> (Returns (), fst sw, w1)
           | (Some entries, w1) \<Rightarrow>
               mirror_resolved E m pkg_name cache_dir upload_wheels_only publish_after entries
                 (fst sw, w1)))"

text \<open>
  The loop \<^verbatim>\<open>for pkg in pkg_iter\<close> of each script's \<^verbatim>\<open>main\<close>: an exception that leaves
  a package ends the run.
\<close>

fun main_loop_jfrog ::
  "env \<Rightarrow> FabricEnvironmentManager \<Rightarrow> string \<Rightarrow> string \<Rightarrow> string \<Rightarrow> bool \<Rightarrow> bool
     \<Rightarrow> string list \<Rightarrow> MirrorState \<times> world \<Rightarrow> unit outcome \<times> MirrorState \<times> world" where
  "main_loop_jfrog E m jfrog_base repo cache_dir wheels_only publish [] sw = (Returns (), sw)"
| "main_loop_jfrog E m jfrog_base repo cache_dir wheels_only publish (pkg # rest) sw =
     (case mirror_package_from_jfrog E m pkg jfrog_base repo cache_dir wheels_only publish sw of
        (Raises ex, sw1) \<Rightarrow> (Raises ex, sw1)
      | (Returns u, sw1) \<Rightarrow>
          main_loop_jfrog E m jfrog_base repo cache_dir wheels_only publish rest sw1)"

fun main_loop_azure ::
  "env \<Rightarrow> FabricEnvironmentManager \<Rightarrow> string \<Rightarrow> string \<Rightarrow> string option \<Rightarrow> string \<Rightarrow> string
     \<Rightarrow> bool \<Rightarrow> bool
     \<Rightarrow> string list \<Rightarrow> MirrorState \<times> world \<Rightarrow> unit outcome \<times> MirrorState \<times> world" where
  "main_loop_azure E m base org project feed cache_dir wheels_only publish [] sw = (Returns (), sw)"
| "main_loop_azure E m base org project feed cache_dir wheels_only publish (pkg # rest) sw =
     (case mirror_package_from_azure E m pkg base org project feed cache_dir wheels_only publish sw of
        (Raises ex, sw1) \<Rightarrow> (Raises ex, sw1)
      | (Returns u, sw1) \<Rightarrow>
          main_loop_azure E m base org project feed cache_dir wheels_only publish rest sw1)"


section \<open>Reading a trace\<close>

text \<open>The sleeps of a trace, in order, and its upload POSTs (those with a file part).\<close>

fun sleeps :: "event list \<Rightarrow> nat list" where
  "sleeps [] = []"
| "sleeps (Sleep d # es) = d # sleeps es"
| "sleeps (e # es) = sleeps es"

fun uploads :: "event list \<Rightarrow> string list" where
  "uploads [] = []"
| "uploads (Http_post u (Some name) # es) = name # uploads es"
| "uploads (e # es) = uploads es"

text \<open>An upload POST that does not answer 200: the attempt has failed.\<close>

definition post_fails :: "response outcome \<Rightarrow> bool" where
  "post_fails out = (case out of Raises e \<Rightarrow> True | Returns r \<Rightarrow> status_code r \<noteq> 200)"

text \<open>
  The failure \<^verbatim>\<open>upload_wheel\<close> returns when its last attempt has failed: the failure
  dictionary of that attempt, or, when the attempt raised, the dictionary built in the
  \<^verbatim>\<open>except\<close> branch.
\<close>

definition last_failure :: "env \<Rightarrow> string \<Rightarrow> int \<Rightarrow> response outcome \<Rightarrow> py_dict" where
  "last_failure E wheel_name max_retries out =
     (case attempt_result E wheel_name out of
        Returns result \<Rightarrow> result
      | Raises e \<Rightarrow>
          [(''success'', JBool False),
           (''error'', JStr (''Upload failed after '' @ str_int max_retries @ '' attempts: '' @ e)),
           (''wheel_name'', JStr wheel_name)])"

section \<open>The history of the disk\<close>

text \<open>
  What one event does to the disk, and the disk after a list of events. Every state the
  disk goes through during a run is \<open>replay\<close> of a prefix of the run's events.
\<close>

fun apply_event :: "event \<Rightarrow> (string \<rightharpoonup> string) \<Rightarrow> (string \<rightharpoonup> string)" where
  "apply_event (File_open p) f = f(p \<mapsto> [])"
| "apply_event (File_write p bytes) f = f(p \<mapsto> (case f p of None \<Rightarrow> bytes | Some old \<Rightarrow> old @ bytes))"
| "apply_event (File_move src dst) f = (f(dst := f src))(src := None)"
| "apply_event e f = f"

fun replay :: "event list \<Rightarrow> (string \<rightharpoonup> string) \<Rightarrow> (string \<rightharpoonup> string)" where
  "replay [] f = f"
| "replay (e # es) f = replay es (apply_event e f)"

text \<open>An event that can change the file at a path.\<close>

fun touches :: "string \<Rightarrow> event \<Rightarrow> bool" where
  "touches p (File_open q) = (p = q)"
| "touches p (File_write q bytes) = (p = q)"
| "touches p (File_move src dst) = (p = src \<or> p = dst)"
| "touches p e = False"

text \<open>
  The discipline of a download to \<open>d\<close>: a file is opened or written only at
  \<open>d + ".part"\<close>, and the only move is of that file onto \<open>d\<close>.
\<close>

fun part_only :: "string \<Rightarrow> event \<Rightarrow> bool" where
  "part_only d (File_open p) = (p = d @ ''.part'')"
| "part_only d (File_write p bytes) = (p = d @ ''.part'')"
| "part_only d (File_move src dst) = (src = d @ ''.part'' \<and> dst = d)"
| "part_only d e = True"

text \<open>The file at \<open>p\<close> is the same before each event of the list as at the start.\<close>

definition stable :: "string \<Rightarrow> (string \<rightharpoonup> string) \<Rightarrow> event list \<Rightarrow> bool" where
  "stable p f es = (\<forall>i < length es. replay (take i es) f p = f p)"

text \<open>The events of one download attempt that is the \<open>n\<close>-th request of the run.\<close>

definition chunk_writes :: "string \<Rightarrow> string list \<Rightarrow> event list" where
  "chunk_writes p cs = map (File_write p) (filter (\<lambda>c. c \<noteq> []) cs)"

definition attempt_events :: "env \<Rightarrow> string \<Rightarrow> string \<Rightarrow> nat \<Rightarrow> event list" where
  "attempt_events E url dest_path n =
     Http_get url #
       (case http_get E n url of
          Raises e \<Rightarrow> []
        | Returns r \<Rightarrow>
            if raise_for_status r then []
            else File_open (dest_path @ ''.part'') # chunk_writes (dest_path @ ''.part'') (body_chunks r)
                 @ (if stream_complete r then [File_move (dest_path @ ''.part'') dest_path] else []))"

definition attempt_ok :: "env \<Rightarrow> string \<Rightarrow> nat \<Rightarrow> bool" where
  "attempt_ok E url n =
     (case http_get E n url of Raises e \<Rightarrow> False
      | Returns r \<Rightarrow> \<not> raise_for_status r \<and> stream_complete r)"

text \<open>
  What holds of the result \<open>rw\<close> of the retry loop of \<^verbatim>\<open>download_url_to_path\<close> entered
  with \<open>a\<close> attempts made: the invariant carried through the induction below.
\<close>

definition loop_post ::
  "env \<Rightarrow> string \<Rightarrow> string \<Rightarrow> int \<Rightarrow> int \<Rightarrow> world \<Rightarrow> unit outcome \<times> world \<Rightarrow> bool" where
  "loop_post E url dest_path k a w rw =
     (\<exists>es. trace (snd rw) = trace w @ es \<and> fs (snd rw) = replay es (fs w)
        \<and> reqs w \<le> reqs (snd rw)
        \<and> sleeps es = map (\<lambda>i. 2 ^ i) [nat a ..< nat a + length (sleeps es)]
        \<and> stable dest_path (fs w) es
        \<and> (\<forall>e\<in>set es. part_only dest_path e)
        \<and> (case fst rw of
              Raises e \<Rightarrow> fs (snd rw) dest_path = fs w dest_path
                 \<and> sleeps es = map (\<lambda>i. 2 ^ i) [nat a ..< nat k - 1]
            | Returns u \<Rightarrow> a < k \<longrightarrow>
                (\<exists>r. 0 < reqs (snd rw) \<and> http_get E (reqs (snd rw) - 1) url = Returns r
                    \<and> \<not> raise_for_status r \<and> stream_complete r
                    \<and> fs (snd rw) dest_path = Some (concat (body_chunks r)))))"


text \<open>
  An operation-status endpoint reports the status word \<open>s\<close>: it answers 200 with a JSON
  object whose \<^verbatim>\<open>status\<close> is \<open>s\<close>. \<open>operation_status_of\<close> is the JSON object of such an
  answer.
\<close>

definition reports :: "response outcome \<Rightarrow> string \<Rightarrow> bool" where
  "reports out s =
     (case out of
        Raises e \<Rightarrow> False
      | Returns r \<Rightarrow>
          status_code r = 200 \<and>
          (case body_json r of
             Some (JDict d) \<Rightarrow> map_of d ''status'' = Some (JStr s)
           | _ \<Rightarrow> False))"

definition operation_status_of :: "response outcome \<Rightarrow> py_dict" where
  "operation_status_of out =
     (case out of
        Returns r \<Rightarrow> (case body_json r of Some (JDict d) \<Rightarrow> d | _ \<Rightarrow> [])
      | Raises e \<Rightarrow> [])"


section \<open>Reading a pipeline run\<close>

text \<open>
  Between two worlds, every file handed to the uploader is a wheel: the later trace
  extends the uploads of the earlier one by names that end in \<^verbatim>\<open>.whl\<close>.
\<close>

definition only_wheels :: "world \<Rightarrow> world \<Rightarrow> bool" where
  "only_wheels w w' =
     (\<exists>new. uploads (trace w') = uploads (trace w) @ new
        \<and> (\<forall>n\<in>set new. endswith (lower n) ''.whl''))"

text \<open>
  The two addresses that \<^verbatim>\<open>mirror_package_from_jfrog\<close> asks for a package: the simple
  index of \<^verbatim>\<open>pypi_simple_list\<close> and the storage listing of \<^verbatim>\<open>artifactory_list\<close>.
\<close>

definition jfrog_index_url :: "string \<Rightarrow> string \<Rightarrow> string \<Rightarrow> string" where
  "jfrog_index_url jfrog_base repo pkg_name =
     rstrip_slash (rstrip_slash jfrog_base @ ''/'' @ repo) @ ''/simple/'' @ pkg_name @ ''/''"

definition jfrog_storage_url :: "string \<Rightarrow> string \<Rightarrow> string" where
  "jfrog_storage_url jfrog_base repo =
     rstrip_slash jfrog_base @ ''/api/storage/'' @ repo @ ''?list=1&deep=1&listFolders=0''"


text \<open>
  The cache directory can be made and the ledger file is not at its path: what a package
  run needs of the disk, and leaves as it found it.
\<close>

definition cache_ready :: "string \<Rightarrow> MirrorState \<times> world \<Rightarrow> bool" where
  "cache_ready cache_dir sw =
     (makedirs cache_dir (snd sw) = Returns ()
      \<and> state_path (fst sw) \<noteq> cache_dir \<and> state_path (fst sw) @ ''.tmp'' \<noteq> cache_dir)"

section \<open>Example inputs\<close>

text \<open>Concrete ledgers, worlds and collaborators on which the theorems below are run.\<close>

definition ex_ledger :: MirrorState where
  "ex_ledger =
     \<lparr>state_path = ''cache/state.json'',
      state_data =
        [(''pkg:pkg-1.0-py3.whl'', [(''sha256'', JStr ''0a1b''), (''uploaded'', JBool True)])]\<rparr>"

definition empty_ledger :: MirrorState where
  "empty_ledger = \<lparr>state_path = ''cache/state.json'', state_data = []\<rparr>"

definition ex_response :: response where
  "ex_response =
     \<lparr>status_code = 200, headers = [], body_text = [], body_json = None, body_hrefs = [],
      body_chunks = [], stream_complete = True\<rparr>"

text \<open>A network on which every request is refused.\<close>

definition env_refusing :: env where
  "env_refusing =
     \<lparr>http_get = (\<lambda>n u. Raises ''connection refused''),
      http_post = (\<lambda>n u. Raises ''connection refused''),
      latency = (\<lambda>n. 0),
      sha256_hex = (\<lambda>bytes. ''sha256:'' @ bytes),
      json_dumps = (\<lambda>d. ''{}''),
      py_repr = (\<lambda>j. ''{...}'')\<rparr>"

text \<open>A network on which every POST is answered 503.\<close>

definition env_unavailable :: env where
  "env_unavailable =
     env_refusing\<lparr>http_post := (\<lambda>n u. Returns (ex_response\<lparr>status_code := 503\<rparr>))\<rparr>"

definition ex_mgr :: FabricEnvironmentManager where
  "ex_mgr =
     \<lparr>workspace_id = ''ws'', environment_id = ''env'',
      base_url = ''https://api.fabric.microsoft.com/v1'', token = ''t''\<rparr>"

definition world0 :: world where
  "world0 = \<lparr>fs = Map.empty, now = 0, reqs = 0, trace = []\<rparr>"

text \<open>A disk that holds one wheel in the cache directory.\<close>

definition world_wheel :: world where
  "world_wheel = world0\<lparr>fs := [''cache/pkg-1.0-py3.whl'' \<mapsto> ''wheel bytes'']\<rparr>"

text \<open>
  A registry whose first answer breaks off after two chunks, whose second is a 503, whose
  third is a reset connection, and which serves the whole file from the fourth on.
\<close>

definition env_flaky :: env where
  "env_flaky =
     env_refusing\<lparr>http_get := (\<lambda>n u.
        if n = 0 then Returns (ex_response\<lparr>body_chunks := [''ab'', ''cd''], stream_complete := False\<rparr>)
        else if n = 1 then Returns (ex_response\<lparr>status_code := 503\<rparr>)
        else if n = 2 then Raises ''connection reset''
        else Returns (ex_response\<lparr>body_chunks := [''ab'', [], ''cd'', ''ef''], stream_complete := True\<rparr>))\<rparr>"


text \<open>
  Operation endpoints: one reports Running twice and then Succeeded, one reports Running for
  ever, one also accepts the publish request with a 202 that carries no operation id.
\<close>

definition status_response :: "string \<Rightarrow> response" where
  "status_response s = ex_response\<lparr>body_json := Some (JDict [(''status'', JStr s)])\<rparr>"

definition env_succeeds_third :: env where
  "env_succeeds_third =
     env_refusing\<lparr>http_get := (\<lambda>n u.
        if n < 2 then Returns (status_response ''Running'')
        else Returns (status_response ''Succeeded''))\<rparr>"

definition env_always_running :: env where
  "env_always_running =
     env_refusing\<lparr>http_get := (\<lambda>n u. Returns (status_response ''Running''))\<rparr>"

definition env_accepted :: env where
  "env_accepted =
     env_always_running\<lparr>http_post := (\<lambda>n u. Returns (ex_response\<lparr>status_code := 202\<rparr>))\<rparr>"


text \<open>
  Three resolved entries, one of each kind, and the source distribution among them.
\<close>

definition ex_entries :: "entry list" where
  "ex_entries =
     url_entries [''https://r/simple/pkg/pkg-1.0-py3.whl'',
                  ''https://r/simple/pkg/pkg-1.0.tar.gz?x=1'',
                  ''https://r/simple/pkg/pkg-1.0.exe'']"

definition ex_wheel :: entry where
  "ex_wheel = \<lparr>entry_url = ''https://r/simple/pkg/pkg-1.0-py3.whl'',
               entry_filename = ''pkg-1.0-py3.whl''\<rparr>"

definition ex_sdist :: entry where
  "ex_sdist = \<lparr>entry_url = ''https://r/simple/pkg/pkg-1.0.tar.gz?x=1'',
               entry_filename = ''pkg-1.0.tar.gz''\<rparr>"

text \<open>
  An Artifactory that serves the simple index of \<^verbatim>\<open>alpha\<close> and \<^verbatim>\<open>gamma\<close>, while both the
  simple index of \<^verbatim>\<open>beta\<close> and the storage listing of the repository are unavailable.
\<close>

definition env_batch :: env where
  "env_batch =
     env_refusing\<lparr>
       http_get := (\<lambda>n u.
         if u = ''https://jf/art/pypi/simple/alpha/''
           then Returns (ex_response\<lparr>body_hrefs :=
                  [''alpha-1.0-py3.whl'', ''alpha-1.0.tar.gz'', ''alpha-1.0.exe'']\<rparr>)
         else if u = ''https://jf/art/pypi/simple/beta/''
           then Raises ''index unavailable''
         else if u = ''https://jf/art/api/storage/pypi?list=1&deep=1&listFolders=0''
           then Raises ''storage unavailable''
         else if u = ''https://jf/art/pypi/simple/gamma/''
           then Returns (ex_response\<lparr>body_hrefs := [''gamma-2.0-py3.whl'']\<rparr>)
         else Returns (ex_response\<lparr>body_chunks := [''wheel''], stream_complete := True\<rparr>)),
       http_post := (\<lambda>n u. Returns ex_response)\<rparr>"


text \<open>
  An index, at Artifactory and at Azure DevOps, whose page for \<^verbatim>\<open>pkg\<close> links the three
  files above; every other address serves a one-chunk file, and every upload is accepted.
\<close>

definition env_index :: env where
  "env_index =
     env_refusing\<lparr>
       http_get := (\<lambda>n u.
         if u = ''https://jf/art/pypi/simple/pkg/''
              \<or> u = ''https://pkgs.dev.azure.com/org/_packaging/feed/pypi/simple/pkg/''
           then Returns (ex_response\<lparr>body_hrefs :=
                  [''https://r/simple/pkg/pkg-1.0-py3.whl'',
                   ''https://r/simple/pkg/pkg-1.0.tar.gz?x=1'',
                   ''https://r/simple/pkg/pkg-1.0.exe'']\<rparr>)
         else Returns (ex_response\<lparr>body_chunks := [''wheel''], stream_complete := True\<rparr>)),
       http_post := (\<lambda>n u. Returns ex_response)\<rparr>"

chapter \<open>Properties\<close>

section \<open>Ledger\<close>

lemma dict_get_Nil: "dict_get [] k = JNull"
  by (simp add: dict_get_def)

lemma map_of_update_same: "map_of (AList.update k v al) k = Some v"
  by (simp add: update_conv')

lemma tmp_suffix_neq: "p @ c # cs \<noteq> p"
proof
  assume "p @ c # cs = p"
  then have "length (p @ c # cs) = length p" by simp
  then show False by simp
qed

text \<open>
  Claim C3. \<^verbatim>\<open>is_uploaded(pkg, filename, digest)\<close> is true exactly when the ledger holds a
  record under the key of \<open>(pkg, filename)\<close> whose \<^verbatim>\<open>sha256\<close> field is the digest and
  whose \<^verbatim>\<open>uploaded\<close> field is \<^verbatim>\<open>True\<close>. So a stale record, one that holds another
  digest for the same package and file name, answers false and does not suppress the upload.
\<close>

theorem is_uploaded_iff_record:
  "(is_uploaded st pkg_name filename sha256 \<longleftrightarrow>
      (\<exists>rec. map_of (state_data st) (ledger_key pkg_name filename) = Some rec
         \<and> dict_get rec ''sha256'' = JStr sha256 \<and> dict_get rec ''uploaded'' = JBool True))
   \<and> (\<forall>rec old. map_of (state_data st) (ledger_key pkg_name filename) = Some rec
         \<and> dict_get rec ''sha256'' = JStr old \<and> old \<noteq> sha256
         \<longrightarrow> \<not> is_uploaded st pkg_name filename sha256)"
  by (auto simp: is_uploaded_def dict_get_Nil split: option.splits)

theorem is_uploaded_iff_record_witness:
  "is_uploaded ex_ledger ''pkg'' ''pkg-1.0-py3.whl'' ''0a1b''
   \<and> \<not> is_uploaded ex_ledger ''pkg'' ''pkg-1.0-py3.whl'' ''ffff''
   \<and> \<not> is_uploaded ex_ledger ''pkg'' ''other.whl'' ''0a1b''"
  using is_uploaded_iff_record [of ex_ledger "''pkg''" "''pkg-1.0-py3.whl''" "''0a1b''"]
        is_uploaded_iff_record [of ex_ledger "''pkg''" "''pkg-1.0-py3.whl''" "''ffff''"]
        is_uploaded_iff_record [of ex_ledger "''pkg''" "''other.whl''" "''0a1b''"]
  by (simp add: ex_ledger_def ledger_key_def dict_get_def)

text \<open>
  Claim C5. After \<^verbatim>\<open>mark_uploaded(pkg, filename, digest, metadata)\<close>, the lookup
  \<^verbatim>\<open>is_uploaded(pkg, filename, digest)\<close> on the ledger is true, whatever the ledger held
  before and whatever the metadata; and the ledger file then holds the serialisation of the
  whole updated ledger.
\<close>

theorem mark_then_is_uploaded:
  "is_uploaded (fst (mark_uploaded E st pkg_name filename sha256 upload_meta w))
       pkg_name filename sha256
   \<and> fs (snd (mark_uploaded E st pkg_name filename sha256 upload_meta w)) (state_path st)
       = Some (json_dumps E
                (state_data (fst (mark_uploaded E st pkg_name filename sha256 upload_meta w))))"
  by (simp add: mark_uploaded_def is_uploaded_def Let_def map_of_update_same dict_get_def
        save_def file_move_def file_write_def file_open_w_def emit_def tmp_suffix_neq)

text \<open>
  Claim C9. A record is addressed by the one string \<^verbatim>\<open>pkg + ":" + filename\<close>. Two distinct
  pairs whose strings coincide share a record: marking \<open>(p1, f1)\<close> with a digest makes the
  lookup of \<open>(p2, f2)\<close> with that digest true, although \<open>(p2, f2)\<close> was never marked.
\<close>

theorem key_aliasing:
  assumes "(p1, f1) \<noteq> (p2, f2)" and "p1 @ '':'' @ f1 = p2 @ '':'' @ f2"
  shows "is_uploaded (fst (mark_uploaded E st p1 f1 d m w)) p2 f2 d"
  using assms(2)
  by (simp add: mark_uploaded_def is_uploaded_def Let_def map_of_update_same dict_get_def
        ledger_key_def)

theorem key_aliasing_witness:
  "(''a:b'', ''c.whl'') \<noteq> (''a'', ''b:c.whl'')
   \<and> \<not> is_uploaded empty_ledger ''a'' ''b:c.whl'' ''0a1b''
   \<and> is_uploaded
         (fst (mark_uploaded env_refusing empty_ledger ''a:b'' ''c.whl'' ''0a1b'' [] world0))
         ''a'' ''b:c.whl'' ''0a1b''"
proof -
  have distinct: "(''a:b'', ''c.whl'') \<noteq> (''a'', ''b:c.whl'')" by simp
  have same: "''a:b'' @ '':'' @ ''c.whl'' = ''a'' @ '':'' @ ''b:c.whl''" by simp
  have "\<not> is_uploaded empty_ledger ''a'' ''b:c.whl'' ''0a1b''"
    by (simp add: is_uploaded_def empty_ledger_def)
  with distinct key_aliasing [OF distinct same, of env_refusing empty_ledger "''0a1b''" "[]" world0]
  show ?thesis by simp
qed

section \<open>Uploader\<close>

lemma sleeps_append: "sleeps (xs @ ys) = sleeps xs @ sleeps ys"
  by (induction xs rule: sleeps.induct) auto

lemma uploads_append: "uploads (xs @ ys) = uploads xs @ uploads ys"
  by (induction xs rule: uploads.induct) auto

lemma attempt_upload_existing:
  "fs w wheel_path = Some bytes \<Longrightarrow>
   attempt_upload E m wheel_path wheel_name w =
     (attempt_result E wheel_name (http_post E (reqs w) (staging_url m ''libraries'')),
      request_done E (Http_post (staging_url m ''libraries'') (Some wheel_name)) w)"
  by (simp add: attempt_upload_def do_post_def)

lemma request_done_simps:
  "fs (request_done E e w) = fs w"
  "reqs (request_done E e w) = Suc (reqs w)"
  "trace (request_done E e w) = trace w @ [e]"
  "now (request_done E e w) = now w + latency E (reqs w)"
  by (simp_all add: request_done_def emit_def)

lemma sleep_simps:
  "fs (sleep d w) = fs w"
  "reqs (sleep d w) = reqs w"
  "trace (sleep d w) = trace w @ [Sleep d]"
  "now (sleep d w) = now w + d"
  by (simp_all add: sleep_def emit_def)

lemma post_fails_result:
  "post_fails out \<Longrightarrow>
   (case attempt_result E name out of
      Returns result \<Rightarrow> \<not> truthy (dict_get result ''success'')
    | Raises e \<Rightarrow> True)"
  by (auto simp: post_fails_def attempt_result_def dict_get_def Let_def split: outcome.splits)

lemma upload_attempts_sleeps:
  "fs w wheel_path = Some bytes \<Longrightarrow>
   \<exists>j. sleeps (trace (snd (upload_attempts E m wheel_path name k xs w)))
        = sleeps (trace w) @ map (\<lambda>a. 2 ^ a) (take j xs)"
proof (induction xs arbitrary: w)
  case Nil
  then show ?case by simp
next
  case (Cons a xs)
  let ?w1 = "request_done E (Http_post (staging_url m ''libraries'') (Some name)) w"
  have f1: "fs (sleep (2 ^ a) ?w1) wheel_path = Some bytes"
    using Cons.prems by (simp add: sleep_simps request_done_simps)
  from Cons.IH [OF f1] obtain j where
    j: "sleeps (trace (snd (upload_attempts E m wheel_path name k xs (sleep (2 ^ a) ?w1))))
        = sleeps (trace (sleep (2 ^ a) ?w1)) @ map (\<lambda>a. 2 ^ a) (take j xs)" by blast
  have stop: "sleeps (trace ?w1) = sleeps (trace w) @ map (\<lambda>a. 2 ^ a) (take 0 (a # xs))"
    by (simp add: request_done_simps sleeps_append)
  have go: "sleeps (trace (snd (upload_attempts E m wheel_path name k xs (sleep (2 ^ a) ?w1))))
        = sleeps (trace w) @ map (\<lambda>a. 2 ^ a) (take (Suc j) (a # xs))"
    using j by (simp add: request_done_simps sleep_simps sleeps_append)
  show ?case
    using stop go
    by (simp only: upload_attempts.simps attempt_upload_existing [OF Cons.prems])
       (auto split: outcome.splits simp del: take_Suc_Cons take_0)
qed

lemma all_fail_attempts:
  assumes fail: "\<forall>n. post_fails (http_post E n (staging_url m ''libraries''))"
  shows "fs w wheel_path = Some bytes \<Longrightarrow> i < n \<Longrightarrow> d = n - i \<Longrightarrow>
     (case upload_attempts E m wheel_path name (int n) [i ..< n] w of (res, w') \<Rightarrow>
        res = last_failure E name (int n) (http_post E (reqs w + (n - i - 1)) (staging_url m ''libraries''))
        \<and> reqs w' = reqs w + (n - i)
        \<and> fs w' = fs w
        \<and> uploads (trace w') = uploads (trace w) @ replicate (n - i) name
        \<and> sleeps (trace w') = sleeps (trace w) @ map (\<lambda>a. 2 ^ a) [i ..< n - 1])"
proof (induction d arbitrary: i w)
  case 0
  then show ?case by simp
next
  case (Suc d)
  let ?url = "staging_url m ''libraries''"
  let ?w1 = "request_done E (Http_post ?url (Some name)) w"
  have pf: "post_fails (http_post E (reqs w) ?url)" using fail by blast
  have unf: "[i ..< n] = i # [Suc i ..< n]" using Suc.prems by (simp add: upt_conv_Cons)
  show ?case
  proof (cases "Suc i = n")
    case True
    then have last: "int i = int n - 1" by simp
    show ?thesis
      using post_fails_result [OF pf, of E name] True
      by (simp only: unf upload_attempts.simps attempt_upload_existing [OF Suc.prems(1)] last)
         (auto simp: last_failure_def request_done_simps uploads_append sleeps_append split: outcome.splits)
  next
    case False
    then have notlast: "int i \<noteq> int n - 1" by linarith
    have lt: "Suc i < n" using False Suc.prems by simp
    have f1: "fs (sleep (2 ^ i) ?w1) wheel_path = Some bytes"
      using Suc.prems by (simp add: sleep_simps request_done_simps)
    have d: "d = n - Suc i" using Suc.prems by simp
    have upt2: "map (\<lambda>a. 2 ^ a) [i ..< n - Suc 0] = (2::nat) ^ i # map (\<lambda>a. 2 ^ a) [Suc i ..< n - Suc 0]"
      using lt by (simp add: upt_conv_Cons)
    have idx: "Suc (reqs w + (n - Suc i - 1)) = reqs w + (n - i - 1)" using lt by simp
    have cnt: "replicate (n - i) name = name # replicate (n - Suc i) name"
      using lt by (metis Suc_diff_Suc Suc.prems(2) replicate_Suc)
    have idx2: "Suc (reqs w + (n - Suc (Suc i))) = reqs w + (n - Suc i)" using lt by simp
    have cnt2: "Suc (reqs w + (n - Suc i)) = reqs w + (n - i)" using lt by simp
    from Suc.IH [OF f1 lt d]
    show ?thesis
      using post_fails_result [OF pf, of E name]
      by (simp only: unf upload_attempts.simps attempt_upload_existing [OF Suc.prems(1)])
         (auto simp: notlast request_done_simps sleep_simps uploads_append sleeps_append upt2 idx idx2 cnt cnt2
               split: outcome.splits prod.splits)
  qed
qed

section \<open>Download\<close>

lemma replay_append: "replay (es @ es') f = replay es' (replay es f)"
  by (induction es arbitrary: f) auto

lemma apply_event_untouched: "\<not> touches p e \<Longrightarrow> apply_event e f p = f p"
  by (cases e) auto

lemma replay_untouched: "\<forall>e\<in>set es. \<not> touches p e \<Longrightarrow> replay es f p = f p"
  by (induction es arbitrary: f) (auto simp: apply_event_untouched)

lemma replay_take_untouched:
  "\<forall>e\<in>set es. \<not> touches p e \<Longrightarrow> replay (take i es) f p = f p"
  by (rule replay_untouched) (auto dest: in_set_takeD)

lemma emit_replay:
  "fs (file_open_w p w) = apply_event (File_open p) (fs w)"
  "fs (file_write p b w) = apply_event (File_write p b) (fs w)"
  "fs (file_move s d w) = apply_event (File_move s d) (fs w)"
  by (simp_all add: file_open_w_def file_write_def file_move_def emit_def)

lemma file_op_simps:
  "trace (file_open_w p w) = trace w @ [File_open p]"
  "trace (file_write p b w) = trace w @ [File_write p b]"
  "trace (file_move s d w) = trace w @ [File_move s d]"
  "reqs (file_open_w p w) = reqs w" "reqs (file_write p b w) = reqs w" "reqs (file_move s d w) = reqs w"
  "now (file_open_w p w) = now w" "now (file_write p b w) = now w" "now (file_move s d w) = now w"
  by (simp_all add: file_open_w_def file_write_def file_move_def emit_def)

lemma write_chunks_effect:
  "trace (write_chunks p cs w) = trace w @ chunk_writes p cs
   \<and> fs (write_chunks p cs w) = replay (chunk_writes p cs) (fs w)
   \<and> reqs (write_chunks p cs w) = reqs w \<and> now (write_chunks p cs w) = now w"
  by (induction cs arbitrary: w) (auto simp: chunk_writes_def emit_replay file_op_simps)

lemma replay_chunk_writes:
  "f p = Some old \<Longrightarrow> replay (chunk_writes p cs) f = f(p \<mapsto> old @ concat cs)"
  by (induction cs arbitrary: f old) (auto simp: chunk_writes_def)

lemma sleeps_chunk_writes: "sleeps (chunk_writes p cs) = []"
  by (induction cs) (auto simp: chunk_writes_def)

lemma download_attempt_effect:
  "trace (snd (download_attempt E url dest_path w)) = trace w @ attempt_events E url dest_path (reqs w)
   \<and> fs (snd (download_attempt E url dest_path w)) = replay (attempt_events E url dest_path (reqs w)) (fs w)
   \<and> reqs (snd (download_attempt E url dest_path w)) = Suc (reqs w)
   \<and> ((\<exists>u. fst (download_attempt E url dest_path w) = Returns u) \<longleftrightarrow> attempt_ok E url (reqs w))"
  by (auto simp: download_attempt_def do_get_def attempt_events_def attempt_ok_def Let_def
        request_done_simps write_chunks_effect emit_replay file_op_simps replay_append
        split: outcome.splits)

lemma stable_quiet: "\<forall>e\<in>set es. \<not> touches p e \<Longrightarrow> stable p f es"
  by (simp add: stable_def replay_take_untouched)

lemma stable_append:
  assumes q: "\<forall>e\<in>set es1. \<not> touches p e" and s: "stable p (replay es1 f) es2"
  shows "stable p f (es1 @ es2)"
  unfolding stable_def
proof (intro allI impI)
  fix i assume i: "i < length (es1 @ es2)"
  show "replay (take i (es1 @ es2)) f p = f p"
  proof (cases "i \<le> length es1")
    case True
    then show ?thesis using q by (simp add: replay_take_untouched)
  next
    case False
    then have "i - length es1 < length es2" using i by simp
    with s have "replay (take (i - length es1) es2) (replay es1 f) p = replay es1 f p"
      by (simp add: stable_def)
    then show ?thesis using False q by (simp add: replay_append replay_untouched)
  qed
qed

lemma stable_snoc:
  "\<forall>e\<in>set es. \<not> touches p e \<Longrightarrow> stable p f (es @ [e'])"
  by (rule stable_append) (auto simp: stable_def)

lemma part_neq: "dest_path @ ''.part'' \<noteq> dest_path"
  by (rule tmp_suffix_neq)

lemma chunk_writes_quiet: "p \<noteq> q \<Longrightarrow> \<forall>e\<in>set (chunk_writes q cs). \<not> touches p e"
  by (auto simp: chunk_writes_def)

lemma sleeps_attempt_events: "sleeps (attempt_events E url dest_path n) = []"
  by (auto simp: attempt_events_def sleeps_append sleeps_chunk_writes split: outcome.splits)

lemma failed_attempt_quiet:
  "\<not> attempt_ok E url n \<Longrightarrow> \<forall>e\<in>set (attempt_events E url dest_path n). \<not> touches dest_path e"
  using part_neq [of dest_path]
  by (auto simp: attempt_ok_def attempt_events_def chunk_writes_def split: outcome.splits if_splits)

lemma attempt_events_part_only:
  "\<forall>e\<in>set (attempt_events E url dest_path n). part_only dest_path e"
  by (auto simp: attempt_events_def chunk_writes_def split: outcome.splits)

lemma ok_attempt_events:
  assumes "attempt_ok E url n"
  shows "\<exists>r pre. http_get E n url = Returns r \<and> \<not> raise_for_status r \<and> stream_complete r
     \<and> attempt_events E url dest_path n = pre @ [File_move (dest_path @ ''.part'') dest_path]
     \<and> (\<forall>e\<in>set pre. \<not> touches dest_path e)
     \<and> replay (attempt_events E url dest_path n) f dest_path = Some (concat (body_chunks r))"
proof -
  from assms obtain r where r: "http_get E n url = Returns r" "\<not> raise_for_status r" "stream_complete r"
    by (auto simp: attempt_ok_def split: outcome.splits)
  let ?tmp = "dest_path @ ''.part''"
  let ?pre = "Http_get url # File_open ?tmp # chunk_writes ?tmp (body_chunks r)"
  have ev: "attempt_events E url dest_path n = ?pre @ [File_move ?tmp dest_path]"
    using r by (simp add: attempt_events_def)
  have quiet: "\<forall>e\<in>set ?pre. \<not> touches dest_path e"
    using part_neq [of dest_path] by (auto simp: chunk_writes_def)
  have "replay ?pre f ?tmp = Some (concat (body_chunks r))"
    by (simp add: replay_chunk_writes [where old = "[]"])
  then have "replay (?pre @ [File_move ?tmp dest_path]) f dest_path = Some (concat (body_chunks r))"
    using part_neq [of dest_path] by (simp only: replay_append) auto
  with r ev quiet show ?thesis by metis
qed

lemma download_loop_post:
  "0 \<le> a \<Longrightarrow> loop_post E url dest_path k a w (download_loop E url dest_path k a w)"
proof (induction E url dest_path k a w rule: download_loop.induct)
  case (1 E url dest_path k a w)
  let ?at = "download_attempt E url dest_path w"
  let ?ae = "attempt_events E url dest_path (reqs w)"
  note eff = download_attempt_effect [of E url dest_path w]
  show ?case
  proof (cases "a < k")
    case False
    then have "download_loop E url dest_path k a w = (Returns (), w)"
      by (subst download_loop.simps) simp
    then show ?thesis
      using False unfolding loop_post_def
      by (intro exI [of _ "[]"]) (simp add: stable_def)
  next
    case True
    show ?thesis
    proof (cases "attempt_ok E url (reqs w)")
      case ok: True
      then obtain u where u: "fst ?at = Returns u" using eff by blast
      then have res: "download_loop E url dest_path k a w = (Returns (), snd ?at)"
        using True by (subst download_loop.simps) (simp add: case_prod_beta split: outcome.splits)
      from ok_attempt_events [OF ok, of dest_path "fs w"] obtain r pre where
        r: "http_get E (reqs w) url = Returns r" "\<not> raise_for_status r" "stream_complete r"
           "?ae = pre @ [File_move (dest_path @ ''.part'') dest_path]"
           "\<forall>e\<in>set pre. \<not> touches dest_path e"
           "replay ?ae (fs w) dest_path = Some (concat (body_chunks r))" by blast
      have st: "stable dest_path (fs w) ?ae" using r(4,5) by (simp add: stable_snoc)
      have sl: "sleeps ?ae = []" by (simp add: sleeps_attempt_events)
      show ?thesis
        unfolding loop_post_def res
        apply (rule exI [of _ ?ae])
        using eff st r sl attempt_events_part_only [of E url dest_path "reqs w"] by auto
    next
      case bad: False
      then obtain e where e: "fst ?at = Raises e" using eff by (cases "fst ?at") auto
      have quiet: "\<forall>e\<in>set ?ae. \<not> touches dest_path e" by (rule failed_attempt_quiet [OF bad])
      show ?thesis
      proof (cases "a + 1 \<ge> k")
        case last: True
        then have res: "download_loop E url dest_path k a w = (Raises e, snd ?at)"
          using True e by (subst download_loop.simps) (simp add: case_prod_beta split: outcome.splits)
        have "nat k - 1 \<le> nat a" using last by linarith
        then have sl: "sleeps ?ae = map (\<lambda>i. 2 ^ i) [nat a ..< nat k - 1]"
          by (simp add: sleeps_attempt_events)
        have sl0: "sleeps ?ae = []" by (simp add: sleeps_attempt_events)
        show ?thesis
          unfolding loop_post_def res
          apply (rule exI [of _ ?ae])
          using eff quiet sl sl0 attempt_events_part_only [of E url dest_path "reqs w"]
          by (auto simp: stable_quiet replay_untouched simp del: upt_eq_Nil_conv)
      next
        case more: False
        let ?w2 = "sleep (2 ^ nat (a + 1 - 1)) (snd ?at)"
        have res: "download_loop E url dest_path k a w = download_loop E url dest_path k (a + 1) ?w2"
          using True e more by (subst download_loop.simps) (simp add: case_prod_beta split: outcome.splits)
        have "loop_post E url dest_path k (a + 1) ?w2 (download_loop E url dest_path k (a + 1) ?w2)"
          using "1.IH" [of "fst ?at" "snd ?at" e] True e more "1.prems"
          by (simp add: prod_eq_iff)
        then obtain es where es:
          "trace (snd (download_loop E url dest_path k (a + 1) ?w2)) = trace ?w2 @ es"
          "fs (snd (download_loop E url dest_path k (a + 1) ?w2)) = replay es (fs ?w2)"
          "reqs ?w2 \<le> reqs (snd (download_loop E url dest_path k (a + 1) ?w2))"
          "sleeps es = map (\<lambda>i. 2 ^ i) [nat (a + 1) ..< nat (a + 1) + length (sleeps es)]"
          "stable dest_path (fs ?w2) es"
          "\<forall>e\<in>set es. part_only dest_path e"
          "(case fst (download_loop E url dest_path k (a + 1) ?w2) of
              Raises e \<Rightarrow> fs (snd (download_loop E url dest_path k (a + 1) ?w2)) dest_path = fs ?w2 dest_path
                 \<and> sleeps es = map (\<lambda>i. 2 ^ i) [nat (a + 1) ..< nat k - 1]
            | Returns u \<Rightarrow> a + 1 < k \<longrightarrow>
                (\<exists>r. 0 < reqs (snd (download_loop E url dest_path k (a + 1) ?w2))
                    \<and> http_get E (reqs (snd (download_loop E url dest_path k (a + 1) ?w2)) - 1) url = Returns r
                    \<and> \<not> raise_for_status r \<and> stream_complete r
                    \<and> fs (snd (download_loop E url dest_path k (a + 1) ?w2)) dest_path = Some (concat (body_chunks r))))"
          unfolding loop_post_def by blast
        let ?pre = "?ae @ [Sleep (2 ^ nat a)]"
        have quiet': "\<forall>e\<in>set ?pre. \<not> touches dest_path e" using quiet by simp
        have fs2: "fs ?w2 = replay ?pre (fs w)"
          using eff by (simp add: sleep_simps replay_append)
        have tr2: "trace ?w2 = trace w @ ?pre"
          using eff by (simp add: sleep_simps)
        have same: "fs ?w2 dest_path = fs w dest_path"
          unfolding fs2 by (rule replay_untouched [OF quiet'])
        have st: "stable dest_path (fs w) (?pre @ es)"
          using es(5) unfolding fs2 by (rule stable_append [OF quiet'])
        have nn: "nat (a + 1) = Suc (nat a)" using "1.prems" by simp
        have sl: "sleeps (?pre @ es)
             = map (\<lambda>i. 2 ^ i) [nat a ..< nat a + length (sleeps (?pre @ es))]"
        proof -
          have "sleeps (?pre @ es) = 2 ^ nat a # sleeps es"
            by (simp add: sleeps_append sleeps_attempt_events)
          moreover have "[nat a ..< nat a + Suc (length (sleeps es))]
              = nat a # [Suc (nat a) ..< Suc (nat a) + length (sleeps es)]"
            by (simp add: upt_conv_Cons del: upt_Suc)
          ultimately show ?thesis using es(4) unfolding nn by (simp del: upt_Suc)
        qed
        have slr: "sleeps es = map (\<lambda>i. 2 ^ i) [nat (a + 1) ..< nat k - 1]
            \<Longrightarrow> sleeps (?pre @ es) = map (\<lambda>i. 2 ^ i) [nat a ..< nat k - 1]"
          using more "1.prems" by (simp add: sleeps_append sleeps_attempt_events nn upt_conv_Cons del: upt_Suc)
        have rq: "reqs w \<le> reqs (snd (download_loop E url dest_path k (a + 1) ?w2))"
          using es(3) eff by (simp add: sleep_simps)
        have lt: "a + 1 < k" using more by simp
        show ?thesis
          unfolding loop_post_def res
          apply (rule exI [of _ "?pre @ es"])
          using es(1,2,6,7) tr2 fs2 same st sl slr rq lt attempt_events_part_only [of E url dest_path "reqs w"]
          by (auto simp: replay_append split: outcome.splits simp del: upt_Suc upt_eq_Nil_conv)
      qed
    qed
  qed
qed

lemma upload_wheel_missing:
  "fs w wheel_path = None \<Longrightarrow>
   upload_wheel E m wheel_path k w = (Raises (''Wheel file not found: '' @ wheel_path), w)"
  by (simp add: upload_wheel_def)

lemma upload_wheel_existing:
  "fs w wheel_path = Some bytes \<Longrightarrow>
   upload_wheel E m wheel_path k w =
     (Returns (fst (upload_attempts E m wheel_path (basename wheel_path) k [0 ..< nat k] w)),
      snd (upload_attempts E m wheel_path (basename wheel_path) k [0 ..< nat k] w))"
  by (simp add: upload_wheel_def Let_def)

lemma last_failure_fails:
  "post_fails out \<Longrightarrow> dict_get (last_failure E name k out) ''success'' = JBool False"
  by (auto simp: post_fails_def last_failure_def attempt_result_def dict_get_def Let_def
      split: outcome.splits)

text \<open>
  Claim C1, as amended. For a path at which a file exists, \<^verbatim>\<open>upload_wheel\<close> returns a
  result dictionary for every retry bound and every behaviour of the endpoint; and with
  \<^verbatim>\<open>max_retries = 3\<close> against an endpoint on which every POST fails it makes exactly three
  POSTs of the file and returns the failure of the last one, a dictionary whose
  \<^verbatim>\<open>success\<close> is \<^verbatim>\<open>False\<close>. (For a path at which no file exists the method raises
  \<^verbatim>\<open>FileNotFoundError\<close>: see the counterexample below.)
\<close>

theorem upload_wheel_existing_file:
  assumes wfile: "fs w wheel_path = Some bytes"
  shows "(\<exists>res. fst (upload_wheel E m wheel_path max_retries w) = Returns res)
    \<and> ((\<forall>n. post_fails (http_post E n (staging_url m ''libraries''))) \<longrightarrow>
          fst (upload_wheel E m wheel_path 3 w)
            = Returns (last_failure E (basename wheel_path) 3
                         (http_post E (reqs w + 2) (staging_url m ''libraries'')))
          \<and> dict_get (last_failure E (basename wheel_path) 3
                         (http_post E (reqs w + 2) (staging_url m ''libraries''))) ''success''
              = JBool False
          \<and> reqs (snd (upload_wheel E m wheel_path 3 w)) = reqs w + 3
          \<and> uploads (trace (snd (upload_wheel E m wheel_path 3 w)))
              = uploads (trace w) @ replicate 3 (basename wheel_path))"
proof (intro conjI impI)
  show "\<exists>res. fst (upload_wheel E m wheel_path max_retries w) = Returns res"
    by (simp add: upload_wheel_existing [OF wfile])
next
  assume fail: "\<forall>n. post_fails (http_post E n (staging_url m ''libraries''))"
  have three: "nat 3 = (3::nat)" "int (3::nat) = 3" by simp_all
  from all_fail_attempts [OF fail wfile, of 0 3 3 "basename wheel_path"]
  have *: "case upload_attempts E m wheel_path (basename wheel_path) 3 [0 ..< 3] w of
      (res, w') \<Rightarrow>
        res = last_failure E (basename wheel_path) 3
                (http_post E (reqs w + 2) (staging_url m ''libraries''))
        \<and> reqs w' = reqs w + 3 \<and> fs w' = fs w
        \<and> uploads (trace w') = uploads (trace w) @ replicate 3 (basename wheel_path)
        \<and> sleeps (trace w') = sleeps (trace w) @ map (\<lambda>a. 2 ^ a) [0 ..< 2]"
    by (simp add: numeral_2_eq_2 numeral_3_eq_3)
  show "fst (upload_wheel E m wheel_path 3 w)
      = Returns (last_failure E (basename wheel_path) 3
                   (http_post E (reqs w + 2) (staging_url m ''libraries'')))"
    using * by (simp add: upload_wheel_existing [OF wfile] three split: prod.splits)
  show "dict_get (last_failure E (basename wheel_path) 3
                   (http_post E (reqs w + 2) (staging_url m ''libraries''))) ''success''
        = JBool False"
    using fail by (simp add: last_failure_fails)
  show "reqs (snd (upload_wheel E m wheel_path 3 w)) = reqs w + 3"
    using * by (simp add: upload_wheel_existing [OF wfile] three split: prod.splits)
  show "uploads (trace (snd (upload_wheel E m wheel_path 3 w)))
      = uploads (trace w) @ replicate 3 (basename wheel_path)"
    using * by (simp add: upload_wheel_existing [OF wfile] three split: prod.splits)
qed

lemma ex_basename: "basename ''cache/pkg-1.0-py3.whl'' = ''pkg-1.0-py3.whl''"
  by (simp add: basename_def)

lemma str_int_503: "str_int 503 = ''503''"
  by code_simp

theorem upload_wheel_existing_file_witness:
  "fs world_wheel ''cache/pkg-1.0-py3.whl'' = Some ''wheel bytes''
   \<and> (\<forall>n. post_fails (http_post env_unavailable n (staging_url ex_mgr ''libraries'')))
   \<and> fst (upload_wheel env_unavailable ex_mgr ''cache/pkg-1.0-py3.whl'' 3 world_wheel)
       = Returns [(''success'', JBool False),
                  (''error'', JStr ''Upload failed: HTTP 503 - ''),
                  (''status_code'', JInt 503),
                  (''wheel_name'', JStr ''pkg-1.0-py3.whl'')]
   \<and> reqs (snd (upload_wheel env_unavailable ex_mgr ''cache/pkg-1.0-py3.whl'' 3 world_wheel)) = 3
   \<and> uploads (trace (snd (upload_wheel env_unavailable ex_mgr ''cache/pkg-1.0-py3.whl'' 3 world_wheel)))
       = [''pkg-1.0-py3.whl'', ''pkg-1.0-py3.whl'', ''pkg-1.0-py3.whl'']"
proof -
  have wfile: "fs world_wheel ''cache/pkg-1.0-py3.whl'' = Some ''wheel bytes''"
    by (simp add: world_wheel_def world0_def)
  have fail: "\<forall>n. post_fails (http_post env_unavailable n (staging_url ex_mgr ''libraries''))"
    by (simp add: env_unavailable_def env_refusing_def post_fails_def ex_response_def)
  have lf: "last_failure env_unavailable ''pkg-1.0-py3.whl'' 3
              (http_post env_unavailable (reqs world_wheel + 2) (staging_url ex_mgr ''libraries''))
        = [(''success'', JBool False),
                  (''error'', JStr ''Upload failed: HTTP 503 - ''),
                  (''status_code'', JInt 503),
                  (''wheel_name'', JStr ''pkg-1.0-py3.whl'')]"
    by (simp add: last_failure_def attempt_result_def env_unavailable_def env_refusing_def
          ex_response_def str_int_503)
  have r0: "reqs world_wheel = 0" "uploads (trace world_wheel) = []"
    by (simp_all add: world_wheel_def world0_def)
  show ?thesis
    using upload_wheel_existing_file [OF wfile, of env_unavailable ex_mgr 3] wfile fail lf r0
    by (simp add: ex_basename numeral_3_eq_3)
qed

text \<open>
  The claim as stated, for every input path, fails: on a path with no file the explicit
  guard at the head of \<^verbatim>\<open>upload_wheel\<close> raises, and no POST is made.
\<close>

theorem upload_wheel_missing_file_raises:
  "fst (upload_wheel env_unavailable ex_mgr ''cache/missing.whl'' 3 world_wheel)
     = Raises ''Wheel file not found: cache/missing.whl''"
  by (simp add: upload_wheel_def world_wheel_def world0_def)

lemmas run_defs = download_url_to_path_def download_loop.simps download_attempt_def do_get_def
     request_done_def emit_def sleep_def env_refusing_def ex_response_def world0_def
     raise_for_status_def file_open_w_def file_write_def file_move_def Let_def

text \<open>
  Claim C6. Every disk event of \<^verbatim>\<open>download_url_to_path\<close> opens or writes
  \<^verbatim>\<open>dest_path + ".part"\<close> or moves that file onto \<^verbatim>\<open>dest_path\<close>. Before each event of
  the run the file at \<^verbatim>\<open>dest_path\<close> is what it was at the start; when the download
  fails it still is at the end; and when the download returns, the file holds all the bytes
  of a response whose stream ended normally. So whatever attempt fails, and wherever its
  stream breaks off, \<^verbatim>\<open>dest_path\<close> never holds part of a file.
\<close>

theorem download_never_partial:
  "\<exists>es. trace (snd (download_url_to_path E url dest_path k w)) = trace w @ es
      \<and> fs (snd (download_url_to_path E url dest_path k w)) = replay es (fs w)
      \<and> (\<forall>e\<in>set es. part_only dest_path e)
      \<and> (\<forall>i<length es. replay (take i es) (fs w) dest_path = fs w dest_path)
      \<and> (case fst (download_url_to_path E url dest_path k w) of
            Raises e \<Rightarrow>
              fs (snd (download_url_to_path E url dest_path k w)) dest_path = fs w dest_path
          | Returns u \<Rightarrow> 0 < k \<longrightarrow>
              (\<exists>r. 0 < reqs (snd (download_url_to_path E url dest_path k w))
                 \<and> http_get E (reqs (snd (download_url_to_path E url dest_path k w)) - 1) url
                     = Returns r
                 \<and> \<not> raise_for_status r \<and> stream_complete r
                 \<and> fs (snd (download_url_to_path E url dest_path k w)) dest_path
                     = Some (concat (body_chunks r))))"
proof -
  have "loop_post E url dest_path k 0 w (download_loop E url dest_path k 0 w)"
    by (rule download_loop_post) simp
  then show ?thesis
    unfolding loop_post_def download_url_to_path_def stable_def
    by (elim exE conjE, intro exI conjI) (auto split: outcome.splits)
qed

theorem download_never_partial_witness:
  "fst (download_url_to_path env_flaky ''https://r/a.whl'' ''cache/a.whl'' 3 world0)
     = Raises ''connection reset''
   \<and> fs (snd (download_url_to_path env_flaky ''https://r/a.whl'' ''cache/a.whl'' 3 world0))
       ''cache/a.whl.part'' = Some ''abcd''
   \<and> fs (snd (download_url_to_path env_flaky ''https://r/a.whl'' ''cache/a.whl'' 3 world0))
       ''cache/a.whl'' = None
   \<and> fst (download_url_to_path env_flaky ''https://r/a.whl'' ''cache/a.whl'' 4 world0)
     = Returns ()
   \<and> fs (snd (download_url_to_path env_flaky ''https://r/a.whl'' ''cache/a.whl'' 4 world0))
       ''cache/a.whl'' = Some ''abcdef''"
proof -
  have r3: "fst (download_url_to_path env_flaky ''https://r/a.whl'' ''cache/a.whl'' 3 world0)
     = Raises ''connection reset''"
    and p3: "fs (snd (download_url_to_path env_flaky ''https://r/a.whl'' ''cache/a.whl'' 3 world0))
       ''cache/a.whl.part'' = Some ''abcd''"
    by (simp_all add: run_defs env_flaky_def)
  have r4: "fst (download_url_to_path env_flaky ''https://r/a.whl'' ''cache/a.whl'' 4 world0)
     = Returns ()"
    and q4: "reqs (snd (download_url_to_path env_flaky ''https://r/a.whl'' ''cache/a.whl'' 4 world0)) = 4"
    by (simp_all add: run_defs env_flaky_def)
  have g3: "http_get env_flaky 3 ''https://r/a.whl''
      = Returns (ex_response\<lparr>body_chunks := [''ab'', [], ''cd'', ''ef''], stream_complete := True\<rparr>)"
    by (simp add: env_flaky_def env_refusing_def)
  have e0: "fs world0 ''cache/a.whl'' = None" by (simp add: world0_def)
  from download_never_partial [of env_flaky "''https://r/a.whl''" "''cache/a.whl''" 3 world0]
  have d3: "fs (snd (download_url_to_path env_flaky ''https://r/a.whl'' ''cache/a.whl'' 3 world0))
       ''cache/a.whl'' = None"
    using r3 e0 by auto
  from download_never_partial [of env_flaky "''https://r/a.whl''" "''cache/a.whl''" 4 world0]
  have d4: "fs (snd (download_url_to_path env_flaky ''https://r/a.whl'' ''cache/a.whl'' 4 world0))
       ''cache/a.whl'' = Some ''abcdef''"
    using r4 q4 g3 by auto
  show ?thesis using r3 p3 d3 r4 d4 by simp
qed

lemma sorted_doubling: "sorted (map (\<lambda>i. (2::nat) ^ i) [0 ..< n])"
  by (induction n) (auto simp: sorted_append)

lemma upload_wheel_sleeps_prefix:
  "\<exists>n. sleeps (trace (snd (upload_wheel E m wheel_path k w)))
        = sleeps (trace w) @ map (\<lambda>i. 2 ^ i) [0 ..< n]"
proof (cases "fs w wheel_path")
  case None
  then have "sleeps (trace (snd (upload_wheel E m wheel_path k w)))
        = sleeps (trace w) @ map (\<lambda>i. 2 ^ i) [0 ..< 0]"
    by (simp add: upload_wheel_missing)
  then show ?thesis by blast
next
  case (Some bytes)
  from upload_attempts_sleeps [OF Some, of E m "basename wheel_path" k "[0 ..< nat k]"]
  obtain j where
    "sleeps (trace (snd (upload_attempts E m wheel_path (basename wheel_path) k [0 ..< nat k] w)))
        = sleeps (trace w) @ map (\<lambda>a. 2 ^ a) (take j [0 ..< nat k])" by blast
  then have "sleeps (trace (snd (upload_wheel E m wheel_path k w)))
        = sleeps (trace w) @ map (\<lambda>i. 2 ^ i) [0 ..< min j (nat k)]"
    by (simp add: upload_wheel_existing [OF Some] take_upt min_def)
  then show ?thesis by blast
qed

text \<open>
  Claim C8. In \<^verbatim>\<open>upload_wheel\<close> and in \<^verbatim>\<open>download_url_to_path\<close> the sleeps of a run
  are, in order, 1, 2, 4, ...: the \<open>i\<close>-th sleep (from 0), taken after the \<open>(i+1)\<close>-th failed
  attempt, lasts \<open>2 ^ i\<close> seconds. When every attempt fails there are \<open>max_retries - 1\<close> of
  them. Such a list is non-decreasing.
\<close>

theorem retry_sleeps_double:
  "(\<exists>n. sleeps (trace (snd (upload_wheel E m wheel_path k w)))
          = sleeps (trace w) @ map (\<lambda>i. 2 ^ i) [0 ..< n])
   \<and> (fs w wheel_path \<noteq> None \<and> 0 < k
        \<and> (\<forall>n. post_fails (http_post E n (staging_url m ''libraries'')))
       \<longrightarrow> sleeps (trace (snd (upload_wheel E m wheel_path k w)))
             = sleeps (trace w) @ map (\<lambda>i. 2 ^ i) [0 ..< nat k - 1])
   \<and> (\<exists>n. sleeps (trace (snd (download_url_to_path E' url dest_path k' w')))
          = sleeps (trace w') @ map (\<lambda>i. 2 ^ i) [0 ..< n])
   \<and> (\<forall>e. fst (download_url_to_path E' url dest_path k' w') = Raises e
       \<longrightarrow> sleeps (trace (snd (download_url_to_path E' url dest_path k' w')))
             = sleeps (trace w') @ map (\<lambda>i. 2 ^ i) [0 ..< nat k' - 1])
   \<and> (\<forall>n. sorted (map (\<lambda>i. (2::nat) ^ i) [0 ..< n]))"
proof (intro conjI allI impI)
  show "\<exists>n. sleeps (trace (snd (upload_wheel E m wheel_path k w)))
          = sleeps (trace w) @ map (\<lambda>i. 2 ^ i) [0 ..< n]"
    by (rule upload_wheel_sleeps_prefix)
next
  assume a: "fs w wheel_path \<noteq> None \<and> 0 < k
        \<and> (\<forall>n. post_fails (http_post E n (staging_url m ''libraries'')))"
  then obtain bytes where wfile: "fs w wheel_path = Some bytes" by auto
  from a have fail: "\<forall>n. post_fails (http_post E n (staging_url m ''libraries''))" by simp
  from a have k: "0 < nat k" "int (nat k) = k" by simp_all
  have "sleeps (trace (snd (upload_attempts E m wheel_path (basename wheel_path) k [0 ..< nat k] w)))
             = sleeps (trace w) @ map (\<lambda>i. 2 ^ i) [0 ..< nat k - 1]"
    using all_fail_attempts [OF fail wfile k(1) refl, of "basename wheel_path", unfolded k(2)]
    by (auto split: prod.splits)
  then show "sleeps (trace (snd (upload_wheel E m wheel_path k w)))
             = sleeps (trace w) @ map (\<lambda>i. 2 ^ i) [0 ..< nat k - 1]"
    by (simp only: upload_wheel_existing [OF wfile] snd_conv)
next
  have post: "loop_post E' url dest_path k' 0 w' (download_loop E' url dest_path k' 0 w')"
    by (rule download_loop_post) simp
  then obtain es where es:
    "trace (snd (download_loop E' url dest_path k' 0 w')) = trace w' @ es"
    "sleeps es = map (\<lambda>i. 2 ^ i) [nat 0 ..< nat 0 + length (sleeps es)]"
    and cs: "(case fst (download_loop E' url dest_path k' 0 w') of
        Raises e \<Rightarrow> fs (snd (download_loop E' url dest_path k' 0 w')) dest_path = fs w' dest_path
                 \<and> sleeps es = map (\<lambda>i. 2 ^ i) [nat 0 ..< nat k' - 1]
      | Returns u \<Rightarrow> True)"
    unfolding loop_post_def
    by (cases "fst (download_loop E' url dest_path k' 0 w')") auto
  have es3: "\<And>e. fst (download_loop E' url dest_path k' 0 w') = Raises e
        \<Longrightarrow> sleeps es = map (\<lambda>i. 2 ^ i) [nat 0 ..< nat k' - 1]"
    using cs by simp
  from es(1,2) have "sleeps (trace (snd (download_url_to_path E' url dest_path k' w')))
          = sleeps (trace w') @ map (\<lambda>i. 2 ^ i) [0 ..< length (sleeps es)]"
    by (simp add: download_url_to_path_def sleeps_append)
  then show "\<exists>n. sleeps (trace (snd (download_url_to_path E' url dest_path k' w')))
          = sleeps (trace w') @ map (\<lambda>i. 2 ^ i) [0 ..< n]" by blast
  fix e assume "fst (download_url_to_path E' url dest_path k' w') = Raises e"
  then have "sleeps es = map (\<lambda>i. 2 ^ i) [nat 0 ..< nat k' - 1]"
    using es3 by (simp add: download_url_to_path_def)
  with es(1) show "sleeps (trace (snd (download_url_to_path E' url dest_path k' w')))
             = sleeps (trace w') @ map (\<lambda>i. 2 ^ i) [0 ..< nat k' - 1]"
    by (simp add: download_url_to_path_def sleeps_append)
next
  fix n show "sorted (map (\<lambda>i. (2::nat) ^ i) [0 ..< n])" by (rule sorted_doubling)
qed

theorem retry_sleeps_double_witness:
  "fs world_wheel ''cache/pkg-1.0-py3.whl'' \<noteq> None \<and> (0::int) < 3
   \<and> (\<forall>n. post_fails (http_post env_unavailable n (staging_url ex_mgr ''libraries'')))
   \<and> sleeps (trace (snd (upload_wheel env_unavailable ex_mgr ''cache/pkg-1.0-py3.whl'' 3 world_wheel)))
       = [1, 2]
   \<and> fst (download_url_to_path env_flaky ''https://r/a.whl'' ''cache/a.whl'' 3 world0)
       = Raises ''connection reset''
   \<and> sleeps (trace (snd (download_url_to_path env_flaky ''https://r/a.whl'' ''cache/a.whl'' 3 world0)))
       = [1, 2]"
proof -
  have h1: "fs world_wheel ''cache/pkg-1.0-py3.whl'' \<noteq> None \<and> (0::int) < 3
     \<and> (\<forall>n. post_fails (http_post env_unavailable n (staging_url ex_mgr ''libraries'')))"
    by (simp add: world_wheel_def world0_def env_unavailable_def env_refusing_def post_fails_def
          ex_response_def)
  have h2: "fst (download_url_to_path env_flaky ''https://r/a.whl'' ''cache/a.whl'' 3 world0)
       = Raises ''connection reset''"
    by (simp add: run_defs env_flaky_def)
  have t0: "sleeps (trace world_wheel) = []" "sleeps (trace world0) = []"
    by (simp_all add: world_wheel_def world0_def)
  have l: "map (\<lambda>i. (2::nat) ^ i) [0 ..< nat 3 - 1] = [1, 2]"
    by (simp add: numeral_3_eq_3 upt_rec)
  from retry_sleeps_double [of env_unavailable ex_mgr "''cache/pkg-1.0-py3.whl''" 3 world_wheel
      env_flaky "''https://r/a.whl''" "''cache/a.whl''" 3 world0]
  show ?thesis using h1 h2 t0 l by simp
qed


section \<open>Publisher\<close>

lemma reports_running: "reports out ''Running'' \<Longrightarrow> poll_result E out = Pending"
  by (auto simp: reports_def poll_result_def dict_get_default_def Let_def
      split: outcome.splits option.splits json.splits)

lemma reports_succeeded:
  "reports out ''Succeeded'' \<Longrightarrow>
   poll_result E out = Finished (succeeded_result (operation_status_of out))"
  by (auto simp: reports_def poll_result_def dict_get_default_def Let_def operation_status_of_def
      split: outcome.splits option.splits json.splits)

lemma reports_failed:
  "reports out ''Failed'' \<Longrightarrow>
   poll_result E out = Finished (failed_result E (operation_status_of out))"
  by (auto simp: reports_def poll_result_def dict_get_default_def Let_def operation_status_of_def
      split: outcome.splits option.splits json.splits)

lemma do_get_simps:
  "fst (do_get E url w) = http_get E (reqs w) url"
  "snd (do_get E url w) = request_done E (Http_get url) w"
  by (simp_all add: do_get_def)

lemma wait_loop_finished:
  "int (now w) - int start < max_wait \<Longrightarrow>
   poll_result E (http_get E (reqs w) url) = Finished result \<Longrightarrow>
   wait_loop E url start max_wait w = (result, request_done E (Http_get url) w)"
  by (subst wait_loop.simps) (simp add: do_get_simps)

lemma wait_loop_pending:
  "int (now w) - int start < max_wait \<Longrightarrow>
   poll_result E (http_get E (reqs w) url) = Pending \<Longrightarrow>
   wait_loop E url start max_wait w
     = wait_loop E url start max_wait (sleep 10 (request_done E (Http_get url) w))"
  by (subst wait_loop.simps) (simp add: do_get_simps)

lemma wait_loop_timeout:
  "\<not> int (now w) - int start < max_wait \<Longrightarrow>
   wait_loop E url start max_wait w = (timeout_result, w)"
  by (subst wait_loop.simps) simp

lemma always_pending:
  "(\<forall>n\<ge>reqs w. poll_result E (http_get E n url) = Pending) \<Longrightarrow>
   fst (wait_loop E url start max_wait w) = timeout_result
   \<and> max_wait \<le> int (now (snd (wait_loop E url start max_wait w))) - int start
   \<and> reqs w \<le> reqs (snd (wait_loop E url start max_wait w))
   \<and> now w \<le> now (snd (wait_loop E url start max_wait w))
   \<and> 10 * int (reqs (snd (wait_loop E url start max_wait w)) - reqs w)
        < max (max_wait - (int (now w) - int start)) 0 + 10"
proof (induction E url start max_wait w rule: wait_loop.induct)
  case (1 E url start max_wait w)
  show ?case
  proof (cases "int (now w) - int start < max_wait")
    case False
    then show ?thesis by (simp add: wait_loop_timeout)
  next
    case True
    let ?w2 = "sleep 10 (request_done E (Http_get url) w)"
    have p: "poll_result E (http_get E (reqs w) url) = Pending" using "1.prems" by simp
    have unf: "wait_loop E url start max_wait w = wait_loop E url start max_wait ?w2"
      by (rule wait_loop_pending [OF True p])
    have r2: "reqs ?w2 = Suc (reqs w)" "now ?w2 = now w + latency E (reqs w) + 10"
      by (simp_all add: sleep_simps request_done_simps)
    have pend: "\<forall>n\<ge>reqs ?w2. poll_result E (http_get E n url) = Pending"
      using "1.prems" r2 by simp
    from "1.IH" [unfolded do_get_simps, OF True p pend]
    have ih: "fst (wait_loop E url start max_wait ?w2) = timeout_result
       \<and> max_wait \<le> int (now (snd (wait_loop E url start max_wait ?w2))) - int start
       \<and> reqs ?w2 \<le> reqs (snd (wait_loop E url start max_wait ?w2))
       \<and> now ?w2 \<le> now (snd (wait_loop E url start max_wait ?w2))
       \<and> 10 * int (reqs (snd (wait_loop E url start max_wait ?w2)) - reqs ?w2)
            < max (max_wait - (int (now ?w2) - int start)) 0 + 10" .
    show ?thesis
      unfolding unf using ih True unfolding r2 by (auto simp: max_def split: if_splits)
  qed
qed

lemma polls_step:
  "(0::int) < r \<Longrightarrow> nat ((max r 0 + 9) div 10) = Suc (nat ((max (r - 10) 0 + 9) div 10))"
  by (auto simp: max_def)

lemma always_pending_exact:
  "(\<forall>n\<ge>reqs w. poll_result E (http_get E n url) = Pending) \<Longrightarrow> (\<forall>n. latency E n = 0) \<Longrightarrow>
   reqs (snd (wait_loop E url start max_wait w))
     = reqs w + nat ((max (max_wait - (int (now w) - int start)) 0 + 9) div 10)
   \<and> now (snd (wait_loop E url start max_wait w))
     = now w + 10 * nat ((max (max_wait - (int (now w) - int start)) 0 + 9) div 10)"
proof (induction E url start max_wait w rule: wait_loop.induct)
  case (1 E url start max_wait w)
  show ?case
  proof (cases "int (now w) - int start < max_wait")
    case False
    then show ?thesis by (simp add: wait_loop_timeout max_def)
  next
    case True
    let ?w2 = "sleep 10 (request_done E (Http_get url) w)"
    let ?r = "max_wait - (int (now w) - int start)"
    have p: "poll_result E (http_get E (reqs w) url) = Pending" using "1.prems" by simp
    have unf: "wait_loop E url start max_wait w = wait_loop E url start max_wait ?w2"
      by (rule wait_loop_pending [OF True p])
    have r2: "reqs ?w2 = Suc (reqs w)" "now ?w2 = now w + 10"
      using "1.prems"(2) by (simp_all add: sleep_simps request_done_simps)
    have pend: "\<forall>n\<ge>reqs ?w2. poll_result E (http_get E n url) = Pending"
      using "1.prems" r2 by simp
    have rem: "max_wait - (int (now ?w2) - int start) = ?r - 10" unfolding r2 by simp
    have pos: "0 < ?r" using True by simp
    from "1.IH" [unfolded do_get_simps, OF True p pend "1.prems"(2)]
    show ?thesis
      unfolding unf rem polls_step [OF pos] r2 by simp
  qed
qed

lemma timeout_not_failed: "timeout_result \<noteq> failed_result E d"
  by (simp add: timeout_result_def failed_result_def Let_def)

lemma wait_loop_three:
  assumes a1: "reports (http_get E (reqs w) url) ''Running''"
      and a2: "reports (http_get E (reqs w + 1) url) ''Running''"
      and a3: "reports (http_get E (reqs w + 2) url) ''Succeeded''"
      and lat: "latency E (reqs w) + latency E (reqs w + 1) + 20 < 300"
  shows "wait_loop E url (now w) 300 w
     = (succeeded_result (operation_status_of (http_get E (reqs w + 2) url)),
        request_done E (Http_get url)
          (sleep 10 (request_done E (Http_get url) (sleep 10 (request_done E (Http_get url) w)))))"
proof -
  let ?w1 = "sleep 10 (request_done E (Http_get url) w)"
  let ?w2 = "sleep 10 (request_done E (Http_get url) ?w1)"
  have q: "reqs ?w1 = reqs w + 1" "reqs ?w2 = reqs w + 2"
    "now ?w1 = now w + latency E (reqs w) + 10"
    "now ?w2 = now w + latency E (reqs w) + 10 + latency E (reqs w + 1) + 10"
    by (simp_all add: sleep_simps request_done_simps)
  have p0: "poll_result E (http_get E (reqs w) url) = Pending"
    by (rule reports_running [OF a1])
  have p1: "poll_result E (http_get E (reqs ?w1) url) = Pending"
    unfolding q by (rule reports_running [OF a2])
  have p2: "poll_result E (http_get E (reqs ?w2) url)
      = Finished (succeeded_result (operation_status_of (http_get E (reqs w + 2) url)))"
    unfolding q by (rule reports_succeeded [OF a3])
  have t0: "int (now w) - int (now w) < 300" by simp
  have t1: "int (now ?w1) - int (now w) < 300" unfolding q using lat by simp
  have t2: "int (now ?w2) - int (now w) < 300" unfolding q using lat by simp
  show ?thesis
    unfolding wait_loop_pending [OF t0 p0] wait_loop_pending [OF t1 p1]
    by (rule wait_loop_finished [OF t2 p2])
qed

lemma wait_for_publish_completion_loop:
  "operation_id \<noteq> [] \<Longrightarrow>
   wait_for_publish_completion E m operation_id max_wait w
     = wait_loop E (base_url m @ ''/operations/'' @ operation_id) (now w) max_wait w"
  by (simp add: wait_for_publish_completion_def)

text \<open>
  Claim C4. The clock is the modelled one: a poll takes the latency of its request and each
  round sleeps 10 seconds. When the operation endpoint reports Running, Running, Succeeded
  (and the first two polls with their sleeps end before the 300 seconds are over), the loop
  issues exactly three GETs, sleeping 10 seconds after the first two, and returns the success
  result. When the endpoint reports Running on every poll, the loop returns the timeout
  result once 300 seconds have passed and not earlier, after at most 30 polls (exactly 30,
  at 300 seconds, when requests take no time); that result is a failure and differs from
  the result returned for a reported Failed status, whatever the server's payload.
\<close>

theorem publish_polling:
  assumes "operation_id \<noteq> []"
  shows
  "(reports (http_get E (reqs w) (base_url m @ ''/operations/'' @ operation_id)) ''Running''
      \<and> reports (http_get E (reqs w + 1) (base_url m @ ''/operations/'' @ operation_id)) ''Running''
      \<and> reports (http_get E (reqs w + 2) (base_url m @ ''/operations/'' @ operation_id)) ''Succeeded''
      \<and> latency E (reqs w) + latency E (reqs w + 1) + 20 < 300
    \<longrightarrow> fst (wait_for_publish_completion E m operation_id 300 w)
          = succeeded_result (operation_status_of
              (http_get E (reqs w + 2) (base_url m @ ''/operations/'' @ operation_id)))
        \<and> dict_get (fst (wait_for_publish_completion E m operation_id 300 w)) ''success''
          = JBool True
        \<and> reqs (snd (wait_for_publish_completion E m operation_id 300 w)) = reqs w + 3
        \<and> trace (snd (wait_for_publish_completion E m operation_id 300 w))
          = trace w @ [Http_get (base_url m @ ''/operations/'' @ operation_id), Sleep 10,
                       Http_get (base_url m @ ''/operations/'' @ operation_id), Sleep 10,
                       Http_get (base_url m @ ''/operations/'' @ operation_id)])
   \<and> ((\<forall>n. reports (http_get E n (base_url m @ ''/operations/'' @ operation_id)) ''Running'')
    \<longrightarrow> fst (wait_for_publish_completion E m operation_id 300 w) = timeout_result
        \<and> dict_get timeout_result ''success'' = JBool False
        \<and> (\<forall>d. timeout_result \<noteq> failed_result E d)
        \<and> now w + 300 \<le> now (snd (wait_for_publish_completion E m operation_id 300 w))
        \<and> reqs (snd (wait_for_publish_completion E m operation_id 300 w)) \<le> reqs w + 30
        \<and> ((\<forall>n. latency E n = 0)
            \<longrightarrow> now (snd (wait_for_publish_completion E m operation_id 300 w)) = now w + 300
              \<and> reqs (snd (wait_for_publish_completion E m operation_id 300 w)) = reqs w + 30))
   \<and> (reports (http_get E (reqs w) (base_url m @ ''/operations/'' @ operation_id)) ''Failed''
    \<longrightarrow> fst (wait_for_publish_completion E m operation_id 300 w)
          = failed_result E (operation_status_of
              (http_get E (reqs w) (base_url m @ ''/operations/'' @ operation_id))))"
proof -
  define url where "url = base_url m @ ''/operations/'' @ operation_id"
  have wf: "wait_for_publish_completion E m operation_id 300 w = wait_loop E url (now w) 300 w"
    unfolding url_def by (rule wait_for_publish_completion_loop [OF assms])
  have three: "reports (http_get E (reqs w) url) ''Running''
      \<and> reports (http_get E (reqs w + 1) url) ''Running''
      \<and> reports (http_get E (reqs w + 2) url) ''Succeeded''
      \<and> latency E (reqs w) + latency E (reqs w + 1) + 20 < 300
    \<longrightarrow> fst (wait_loop E url (now w) 300 w)
          = succeeded_result (operation_status_of (http_get E (reqs w + 2) url))
        \<and> dict_get (fst (wait_loop E url (now w) 300 w)) ''success'' = JBool True
        \<and> reqs (snd (wait_loop E url (now w) 300 w)) = reqs w + 3
        \<and> trace (snd (wait_loop E url (now w) 300 w))
          = trace w @ [Http_get url, Sleep 10, Http_get url, Sleep 10, Http_get url]"
  proof
    assume a: "reports (http_get E (reqs w) url) ''Running''
      \<and> reports (http_get E (reqs w + 1) url) ''Running''
      \<and> reports (http_get E (reqs w + 2) url) ''Succeeded''
      \<and> latency E (reqs w) + latency E (reqs w + 1) + 20 < 300"
    then have run: "wait_loop E url (now w) 300 w
     = (succeeded_result (operation_status_of (http_get E (reqs w + 2) url)),
        request_done E (Http_get url)
          (sleep 10 (request_done E (Http_get url) (sleep 10 (request_done E (Http_get url) w)))))"
      by (intro wait_loop_three) blast+
    show "fst (wait_loop E url (now w) 300 w)
          = succeeded_result (operation_status_of (http_get E (reqs w + 2) url))
        \<and> dict_get (fst (wait_loop E url (now w) 300 w)) ''success'' = JBool True
        \<and> reqs (snd (wait_loop E url (now w) 300 w)) = reqs w + 3
        \<and> trace (snd (wait_loop E url (now w) 300 w))
          = trace w @ [Http_get url, Sleep 10, Http_get url, Sleep 10, Http_get url]"
      unfolding run
      by (simp add: succeeded_result_def dict_get_def sleep_simps request_done_simps)
  qed
  have running: "(\<forall>n. reports (http_get E n url) ''Running'')
    \<longrightarrow> fst (wait_loop E url (now w) 300 w) = timeout_result
        \<and> dict_get timeout_result ''success'' = JBool False
        \<and> (\<forall>d. timeout_result \<noteq> failed_result E d)
        \<and> now w + 300 \<le> now (snd (wait_loop E url (now w) 300 w))
        \<and> reqs (snd (wait_loop E url (now w) 300 w)) \<le> reqs w + 30
        \<and> ((\<forall>n. latency E n = 0)
            \<longrightarrow> now (snd (wait_loop E url (now w) 300 w)) = now w + 300
              \<and> reqs (snd (wait_loop E url (now w) 300 w)) = reqs w + 30)"
  proof
    assume a: "\<forall>n. reports (http_get E n url) ''Running''"
    then have pend: "\<forall>n\<ge>reqs w. poll_result E (http_get E n url) = Pending"
      by (simp add: reports_running)
    note ap = always_pending [OF pend, of "now w" 300]
    have ex: "(\<forall>n. latency E n = 0)
            \<longrightarrow> now (snd (wait_loop E url (now w) 300 w)) = now w + 300
              \<and> reqs (snd (wait_loop E url (now w) 300 w)) = reqs w + 30"
      using always_pending_exact [OF pend, of "now w" 300] by simp
    show "fst (wait_loop E url (now w) 300 w) = timeout_result
        \<and> dict_get timeout_result ''success'' = JBool False
        \<and> (\<forall>d. timeout_result \<noteq> failed_result E d)
        \<and> now w + 300 \<le> now (snd (wait_loop E url (now w) 300 w))
        \<and> reqs (snd (wait_loop E url (now w) 300 w)) \<le> reqs w + 30
        \<and> ((\<forall>n. latency E n = 0)
            \<longrightarrow> now (snd (wait_loop E url (now w) 300 w)) = now w + 300
              \<and> reqs (snd (wait_loop E url (now w) 300 w)) = reqs w + 30)"
      using ap ex by (auto simp: timeout_result_def dict_get_def timeout_not_failed [unfolded timeout_result_def])
  qed
  have failed: "reports (http_get E (reqs w) url) ''Failed''
    \<longrightarrow> fst (wait_loop E url (now w) 300 w)
          = failed_result E (operation_status_of (http_get E (reqs w) url))"
  proof
    assume a: "reports (http_get E (reqs w) url) ''Failed''"
    have t0: "int (now w) - int (now w) < 300" by simp
    show "fst (wait_loop E url (now w) 300 w)
          = failed_result E (operation_status_of (http_get E (reqs w) url))"
      by (simp add: wait_loop_finished [OF t0 reports_failed [OF a]])
  qed
  show ?thesis
    unfolding wf url_def [symmetric] using three running failed by blast
qed

theorem publish_polling_witness:
  "''op-1'' \<noteq> []
   \<and> fst (wait_for_publish_completion env_succeeds_third ex_mgr ''op-1'' 300 world0)
       = [(''success'', JBool True),
          (''message'', JStr ''Environment published and active''),
          (''operation_status'', JDict [(''status'', JStr ''Succeeded'')])]
   \<and> reqs (snd (wait_for_publish_completion env_succeeds_third ex_mgr ''op-1'' 300 world0)) = 3
   \<and> fst (wait_for_publish_completion env_always_running ex_mgr ''op-1'' 300 world0)
       = [(''success'', JBool False),
          (''error'', JStr ''Timeout waiting for publish completion''),
          (''message'', JStr ''Check Fabric UI for publish status'')]
   \<and> now (snd (wait_for_publish_completion env_always_running ex_mgr ''op-1'' 300 world0)) = 300
   \<and> reqs (snd (wait_for_publish_completion env_always_running ex_mgr ''op-1'' 300 world0)) = 30"
proof -
  have id: "''op-1'' \<noteq> []" by simp
  let ?url = "base_url ex_mgr @ ''/operations/'' @ ''op-1''"
  have h1: "reports (http_get env_succeeds_third (reqs world0) ?url) ''Running''
      \<and> reports (http_get env_succeeds_third (reqs world0 + 1) ?url) ''Running''
      \<and> reports (http_get env_succeeds_third (reqs world0 + 2) ?url) ''Succeeded''
      \<and> latency env_succeeds_third (reqs world0) + latency env_succeeds_third (reqs world0 + 1) + 20 < 300"
    by (simp add: env_succeeds_third_def env_refusing_def world0_def reports_def
          status_response_def ex_response_def)
  have o: "succeeded_result (operation_status_of (http_get env_succeeds_third (reqs world0 + 2) ?url))
       = [(''success'', JBool True),
          (''message'', JStr ''Environment published and active''),
          (''operation_status'', JDict [(''status'', JStr ''Succeeded'')])]"
    by (simp add: env_succeeds_third_def env_refusing_def world0_def operation_status_of_def
          status_response_def ex_response_def succeeded_result_def)
  have h2: "\<forall>n. reports (http_get env_always_running n ?url) ''Running''"
    by (simp add: env_always_running_def env_refusing_def reports_def status_response_def
          ex_response_def)
  have h3: "\<forall>n. latency env_always_running n = 0"
    by (simp add: env_always_running_def env_refusing_def)
  have z: "reqs world0 = 0" "now world0 = 0" by (simp_all add: world0_def)
  show ?thesis
    using publish_polling [OF id, of env_succeeds_third world0 ex_mgr]
          publish_polling [OF id, of env_always_running world0 ex_mgr]
          h1 h2 h3 o
    by (simp add: z timeout_result_def)
qed

text \<open>
  Claim C10. When the publish POST is answered 202 and the response has no
  \<^verbatim>\<open>x-ms-operation-id\<close> header (or an empty one), \<^verbatim>\<open>publish_environment\<close> returns a
  success result at once: the POST is the only request it makes, no operation status is
  polled.
\<close>

theorem publish_accepted_without_operation_id:
  assumes "http_post E (reqs w) (staging_url m ''publish'') = Returns r"
      and "status_code r = 202"
      and "header_get (headers r) ''x-ms-operation-id'' = None
           \<or> header_get (headers r) ''x-ms-operation-id'' = Some []"
  shows "fst (publish_environment E m w)
           = Returns [(''success'', JBool True),
                      (''message'', JStr ''Environment published successfully (no operation ID)''),
                      (''status_code'', JInt 202)]
       \<and> trace (snd (publish_environment E m w))
           = trace w @ [Http_post (staging_url m ''publish'') None]
       \<and> reqs (snd (publish_environment E m w)) = reqs w + 1"
  using assms
  by (auto simp: publish_environment_def do_post_def request_done_simps)

theorem publish_accepted_without_operation_id_witness:
  "http_post env_accepted (reqs world0) (staging_url ex_mgr ''publish'')
     = Returns (ex_response\<lparr>status_code := 202\<rparr>)
   \<and> status_code (ex_response\<lparr>status_code := 202\<rparr>) = 202
   \<and> header_get (headers (ex_response\<lparr>status_code := 202\<rparr>)) ''x-ms-operation-id'' = None
   \<and> fst (publish_environment env_accepted ex_mgr world0)
       = Returns [(''success'', JBool True),
                  (''message'', JStr ''Environment published successfully (no operation ID)''),
                  (''status_code'', JInt 202)]
   \<and> trace (snd (publish_environment env_accepted ex_mgr world0))
       = [Http_post ''https://api.fabric.microsoft.com/v1/workspaces/ws/environments/env/staging/publish'' None]"
proof -
  have h1: "http_post env_accepted (reqs world0) (staging_url ex_mgr ''publish'')
     = Returns (ex_response\<lparr>status_code := 202\<rparr>)"
    by (simp add: env_accepted_def env_always_running_def env_refusing_def)
  have h2: "status_code (ex_response\<lparr>status_code := 202\<rparr>) = 202" by simp
  have h3: "header_get (headers (ex_response\<lparr>status_code := 202\<rparr>)) ''x-ms-operation-id'' = None
     \<or> header_get (headers (ex_response\<lparr>status_code := 202\<rparr>)) ''x-ms-operation-id'' = Some []"
    by (simp add: header_get_def ex_response_def)
  have u: "staging_url ex_mgr ''publish''
    = ''https://api.fabric.microsoft.com/v1/workspaces/ws/environments/env/staging/publish''"
    by (simp add: staging_url_def ex_mgr_def)
  from publish_accepted_without_operation_id [OF h1 h2 h3] h1
  show ?thesis
    by (simp add: u world0_def header_get_def ex_response_def)
qed


section \<open>Pipeline\<close>

text \<open>
  File names: a name ends in an extension exactly when it is a stem followed by it, and
  lower-casing and joining with the cache directory keep the end of a name.
\<close>

lemma endswith_iff: "endswith s p \<longleftrightarrow> (\<exists>stem. s = stem @ p)"
proof
  assume "endswith s p"
  then have "s = take (length s - length p) s @ p"
    by (simp add: endswith_def) (metis append_take_drop_id)
  then show "\<exists>stem. s = stem @ p" by blast
next
  assume "\<exists>stem. s = stem @ p"
  then show "endswith s p" by (auto simp: endswith_def)
qed

lemma endswith_any_iff:
  "endswith_any s ps \<longleftrightarrow> (\<exists>p\<in>set ps. \<exists>stem. s = stem @ p)"
  by (simp add: endswith_any_def list_ex_iff endswith_iff)

lemma lower_append: "lower (a @ b) = lower a @ lower b"
  by (simp add: lower_def)

lemma lower_char_slash: "lower_char c = CHR ''/'' \<Longrightarrow> c = CHR ''/''"
proof (rule ccontr)
  assume l: "lower_char c = CHR ''/''" and n: "c \<noteq> CHR ''/''"
  then have up: "65 \<le> (of_char c :: nat)" "(of_char c :: nat) \<le> 90"
    and eq: "char_of ((of_char c :: nat) + 32) = CHR ''/''"
    by (auto simp: lower_char_def split: if_splits)
  from eq have "(of_char (char_of ((of_char c :: nat) + 32) :: char) :: nat) = of_char (CHR ''/'')"
    by simp
  then have "((of_char c :: nat) + 32) mod 256 = 47" by (simp add: of_char_of)
  with up show False by simp
qed

lemma path_join_suffix: "\<exists>pre. path_join a b = pre @ b"
proof -
  have "path_join a b = [] @ b \<or> path_join a b = a @ b \<or> path_join a b = (a @ ''/'') @ b"
    by (simp add: path_join_def)
  then show ?thesis by blast
qed

lemma basename_keeps_whl:
  assumes "endswith (lower f) ''.whl''"
  shows "endswith (lower (basename (pre @ f))) ''.whl''"
proof -
  from assms obtain S where "map lower_char f = S @ ''.whl''"
    by (auto simp: endswith_iff lower_def)
  then obtain stem ext where f: "f = stem @ ext" and ext: "map lower_char ext = ''.whl''"
    by (auto simp: map_eq_append_conv)
  have noslash: "\<forall>c\<in>set (rev ext). c \<noteq> CHR ''/''"
  proof
    fix c assume "c \<in> set (rev ext)"
    then have "lower_char c \<in> set (map lower_char ext)" by simp
    then have "lower_char c \<noteq> CHR ''/''" unfolding ext by auto
    then show "c \<noteq> CHR ''/''" by (auto simp: lower_char_def)
  qed
  have "basename (pre @ f) = rev (takeWhile (\<lambda>c. c \<noteq> CHR ''/'') (rev ext @ rev (pre @ stem)))"
    by (simp add: basename_def f)
  also have "takeWhile (\<lambda>c. c \<noteq> CHR ''/'') (rev ext @ rev (pre @ stem))
      = rev ext @ takeWhile (\<lambda>c. c \<noteq> CHR ''/'') (rev (pre @ stem))"
    by (rule takeWhile_append2) (use noslash in blast)
  also have "rev (rev ext @ takeWhile (\<lambda>c. c \<noteq> CHR ''/'') (rev (pre @ stem)))
      = rev (takeWhile (\<lambda>c. c \<noteq> CHR ''/'') (rev (pre @ stem))) @ ext"
    by simp
  finally have "lower (basename (pre @ f))
      = lower (rev (takeWhile (\<lambda>c. c \<noteq> CHR ''/'') (rev (pre @ stem)))) @ ''.whl''"
    using ext by (simp add: lower_append) (simp add: lower_def)
  then show ?thesis unfolding endswith_iff by blast
qed

lemma wheel_name_keeps_whl:
  "endswith (lower f) ''.whl'' \<Longrightarrow> endswith (lower (basename (path_join c f))) ''.whl''"
  using path_join_suffix [of c f] basename_keeps_whl by metis


text \<open>
  What reaches the uploader: downloads, resolutions, polls and ledger writes upload nothing,
  so the only uploads of a package run are those of \<^verbatim>\<open>mirror_entry\<close>, which it makes for
  wheels only under the default policy.
\<close>

lemma only_wheels_refl: "only_wheels w w"
  by (simp add: only_wheels_def)

lemma only_wheels_trans: "only_wheels w w1 \<Longrightarrow> only_wheels w1 w2 \<Longrightarrow> only_wheels w w2"
  unfolding only_wheels_def by (elim exE conjE) (rule_tac x = "new @ newa" in exI, auto)

lemma only_wheels_same: "uploads (trace w') = uploads (trace w) \<Longrightarrow> only_wheels w w'"
  by (simp add: only_wheels_def)

lemma uploads_chunk_writes: "uploads (chunk_writes p cs) = []"
  by (induction cs) (auto simp: chunk_writes_def)

lemma uploads_attempt_events: "uploads (attempt_events E url dest_path n) = []"
  by (auto simp: attempt_events_def uploads_append uploads_chunk_writes split: outcome.splits)

lemma uploads_download_loop:
  "uploads (trace (snd (download_loop E url dest_path k a w))) = uploads (trace w)"
proof (induction E url dest_path k a w rule: download_loop.induct)
  case (1 E url dest_path k a w)
  let ?at = "download_attempt E url dest_path w"
  have at: "uploads (trace (snd ?at)) = uploads (trace w)"
    using download_attempt_effect [of E url dest_path w]
    by (simp add: uploads_append uploads_attempt_events)
  show ?case
  proof (cases "a < k \<and> (\<exists>e. fst ?at = Raises e) \<and> \<not> k \<le> a + 1")
    case True
    then obtain e where e: "fst ?at = Raises e" by blast
    have "uploads (trace (snd (download_loop E url dest_path k (a + 1)
             (sleep (2 ^ nat (a + 1 - 1)) (snd ?at)))))
          = uploads (trace (sleep (2 ^ nat (a + 1 - 1)) (snd ?at)))"
      using "1.IH" [of "fst ?at" "snd ?at" e] True e by (simp add: prod_eq_iff)
    then show ?thesis
      using True e at
      by (subst download_loop.simps)
         (simp add: case_prod_beta sleep_simps uploads_append split: outcome.splits)
  next
    case False
    then show ?thesis
      using at
      by (subst download_loop.simps) (auto simp: case_prod_beta split: outcome.splits)
  qed
qed

lemma uploads_download:
  "uploads (trace (snd (download_url_to_path E url dest_path k w))) = uploads (trace w)"
  by (simp add: download_url_to_path_def uploads_download_loop)

lemma download_returns_file:
  assumes "fst (download_url_to_path E url dest_path 3 w) = Returns u"
  shows "fs (snd (download_url_to_path E url dest_path 3 w)) dest_path \<noteq> None"
proof -
  have "loop_post E url dest_path 3 0 w (download_loop E url dest_path 3 0 w)"
    by (rule download_loop_post) simp
  then show ?thesis
    using assms unfolding loop_post_def download_url_to_path_def by auto
qed

lemma uploads_upload_attempts:
  "\<exists>k. uploads (trace (snd (upload_attempts E m wheel_path name r xs w)))
        = uploads (trace w) @ replicate k name"
proof (induction xs arbitrary: w)
  case Nil
  have "uploads (trace w) = uploads (trace w) @ replicate 0 name" by simp
  then show ?case by (simp only: upload_attempts.simps snd_conv) blast
next
  case (Cons a xs)
  obtain out w1 where at: "attempt_upload E m wheel_path name w = (out, w1)"
    by (cases "attempt_upload E m wheel_path name w")
  have "\<exists>j. uploads (trace w1) = uploads (trace w) @ replicate j name"
  proof (cases "fs w wheel_path")
    case None
    then have "uploads (trace w1) = uploads (trace w) @ replicate 0 name"
      using at by (simp add: attempt_upload_def)
    then show ?thesis by blast
  next
    case (Some bytes)
    have "uploads (trace w1) = uploads (trace w) @ replicate 1 name"
      using at attempt_upload_existing [OF Some, of E m name]
      by (auto simp: request_done_simps uploads_append)
    then show ?thesis by blast
  qed
  then obtain j where j: "uploads (trace w1) = uploads (trace w) @ replicate j name" by blast
  from Cons.IH [of "sleep (2 ^ a) w1"] obtain k where
    k: "uploads (trace (snd (upload_attempts E m wheel_path name r xs (sleep (2 ^ a) w1))))
        = uploads (trace (sleep (2 ^ a) w1)) @ replicate k name" by blast
  have stop: "uploads (trace w1) = uploads (trace w) @ replicate j name" by (rule j)
  have go: "uploads (trace (snd (upload_attempts E m wheel_path name r xs (sleep (2 ^ a) w1))))
        = uploads (trace w) @ replicate (j + k) name"
    using j k by (simp add: sleep_simps uploads_append replicate_add)
  show ?case
    using stop go
    by (simp only: upload_attempts.simps at) (auto split: outcome.splits)
qed

lemma uploads_upload_wheel:
  "\<exists>k. uploads (trace (snd (upload_wheel E m wheel_path r w)))
        = uploads (trace w) @ replicate k (basename wheel_path)"
proof (cases "fs w wheel_path")
  case None
  then have "uploads (trace (snd (upload_wheel E m wheel_path r w)))
        = uploads (trace w) @ replicate 0 (basename wheel_path)"
    by (simp add: upload_wheel_missing)
  then show ?thesis by blast
next
  case (Some bytes)
  then show ?thesis
    using uploads_upload_attempts [of E m wheel_path "basename wheel_path" r "[0 ..< nat r]" w]
    by (simp add: upload_wheel_existing [OF Some])
qed

lemma uploads_mark_uploaded:
  "uploads (trace (snd (mark_uploaded E st p f d meta w))) = uploads (trace w)"
  by (simp add: mark_uploaded_def save_def Let_def file_op_simps uploads_append)

lemma uploads_wait_loop:
  "uploads (trace (snd (wait_loop E url start max_wait w))) = uploads (trace w)"
proof (induction E url start max_wait w rule: wait_loop.induct)
  case (1 E url start max_wait w)
  show ?case
  proof (cases "int (now w) - int start < max_wait")
    case False
    then show ?thesis by (simp add: wait_loop_timeout)
  next
    case True
    show ?thesis
    proof (cases "poll_result E (http_get E (reqs w) url)")
      case (Finished result)
      then show ?thesis
        by (simp add: wait_loop_finished [OF True Finished] request_done_simps uploads_append)
    next
      case Pending
      from "1.IH" [unfolded do_get_simps, OF True Pending]
      show ?thesis
        by (simp add: wait_loop_pending [OF True Pending] sleep_simps request_done_simps
              uploads_append)
    qed
  qed
qed

lemma uploads_publish:
  "uploads (trace (snd (publish_environment E m w))) = uploads (trace w)"
  by (auto simp: publish_environment_def do_post_def request_done_simps uploads_append
        wait_for_publish_completion_def uploads_wait_loop Let_def
      split: outcome.splits option.splits list.splits)

lemma uploads_fetch_index:
  "uploads (trace (snd (fetch_index E idx w))) = uploads (trace w)"
  by (auto simp: fetch_index_def do_get_def request_done_simps uploads_append
      split: outcome.splits)

lemma uploads_fetch_listing:
  "uploads (trace (snd (fetch_listing E url field w))) = uploads (trace w)"
  by (auto simp: fetch_listing_def do_get_def request_done_simps uploads_append
      split: outcome.splits option.splits json.splits)

lemma uploads_resolve_jfrog:
  "uploads (trace (snd (resolve_jfrog E pkg_name jfrog_base repo w))) = uploads (trace w)"
proof -
  let ?p = "pypi_simple_list E (rstrip_slash jfrog_base @ ''/'' @ repo) pkg_name w"
  have p: "uploads (trace (snd ?p)) = uploads (trace w)"
    by (simp add: pypi_simple_list_def uploads_fetch_index)
  have a: "uploads (trace (snd (artifactory_list E jfrog_base repo (snd ?p))))
      = uploads (trace (snd ?p))"
    by (simp add: artifactory_list_def uploads_fetch_listing)
  show ?thesis
    using p a
    by (auto simp: resolve_jfrog_def case_prod_beta split: outcome.splits)
qed

lemma uploads_resolve_azure:
  "uploads (trace (snd (resolve_azure E pkg_name base org project feed w))) = uploads (trace w)"
proof -
  have i: "\<And>w. uploads (trace (snd (azure_pypi_simple_index E base org project feed pkg_name w)))
      = uploads (trace w)"
    by (simp add: azure_pypi_simple_index_def Let_def uploads_fetch_index)
  have l: "\<And>w. uploads (trace (snd (azure_devops_list_packages_via_api E base org project feed w)))
      = uploads (trace w)"
    using uploads_fetch_listing
    by (auto simp: azure_devops_list_packages_via_api_def Let_def case_prod_beta
        split: outcome.splits)
  show ?thesis
    using i l
    by (auto simp: resolve_azure_def case_prod_beta split: outcome.splits)
qed

lemma uploads_ensure_cached:
  "uploads (trace (snd (ensure_cached E url local_path w))) = uploads (trace w)"
  by (simp add: ensure_cached_def uploads_download)

lemma ensure_cached_file:
  "fst (ensure_cached E url local_path w) = Returns u \<Longrightarrow>
   \<exists>bytes. fs (snd (ensure_cached E url local_path w)) local_path = Some bytes"
  using download_returns_file [of E url local_path w u]
  by (auto simp: ensure_cached_def split: if_splits)

lemma mirror_entry_skips_other_kinds:
  assumes "\<not> endswith (lower (entry_filename e)) ''.whl''"
  shows "mirror_entry E m pkg_name cache_dir True e (st, w)
     = (Returns (), st,
        snd (ensure_cached E (entry_url e) (path_join cache_dir (entry_filename e)) w))"
proof -
  let ?p = "path_join cache_dir (entry_filename e)"
  obtain r w1 where dl: "ensure_cached E (entry_url e) ?p w = (r, w1)"
    by (cases "ensure_cached E (entry_url e) ?p w")
  show ?thesis
  proof (cases r)
    case (Raises ex)
    then show ?thesis using dl by (simp add: mirror_entry_def Let_def)
  next
    case (Returns u)
    with ensure_cached_file [of E "entry_url e" ?p w u] dl
    obtain bytes where "fs w1 ?p = Some bytes" by auto
    then show ?thesis using dl Returns assms by (simp add: mirror_entry_def Let_def)
  qed
qed

lemma mirror_entry_never_raises:
  "fst (mirror_entry E m pkg_name cache_dir wheels_only e sw) = Returns ()"
proof -
  let ?p = "path_join cache_dir (entry_filename e)"
  obtain r w1 where dl: "ensure_cached E (entry_url e) ?p (snd sw) = (r, w1)"
    by (cases "ensure_cached E (entry_url e) ?p (snd sw)")
  show ?thesis
  proof (cases r)
    case (Raises x)
    then show ?thesis using dl by (simp add: mirror_entry_def Let_def)
  next
    case (Returns u)
    with ensure_cached_file [of E "entry_url e" ?p "snd sw" u] dl
    obtain bytes where "fs w1 ?p = Some bytes" by auto
    then show ?thesis
      using Returns dl
      by (simp add: mirror_entry_def Let_def case_prod_beta split: outcome.splits)
  qed
qed

lemma mirror_entry_only_wheels:
  "only_wheels (snd sw) (snd (snd (mirror_entry E m pkg_name cache_dir True e sw)))"
proof -
  let ?p = "path_join cache_dir (entry_filename e)"
  obtain r w1 where dl: "ensure_cached E (entry_url e) ?p (snd sw) = (r, w1)"
    by (cases "ensure_cached E (entry_url e) ?p (snd sw)")
  have d: "uploads (trace w1) = uploads (trace (snd sw))"
    using uploads_ensure_cached [of E "entry_url e" ?p "snd sw"] dl by simp
  have d': "only_wheels (snd sw) w1" by (rule only_wheels_same [OF d])
  show ?thesis
  proof (cases "endswith (lower (entry_filename e)) ''.whl''")
    case False
    from mirror_entry_skips_other_kinds [OF False, of E m pkg_name cache_dir "fst sw" "snd sw"]
    show ?thesis using d' dl by simp
  next
    case True
    then have name: "endswith (lower (basename ?p)) ''.whl''" by (rule wheel_name_keeps_whl)
    obtain k where k: "uploads (trace (snd (upload_wheel E m ?p 3 w1)))
        = uploads (trace w1) @ replicate k (basename ?p)"
      using uploads_upload_wheel by blast
    have up: "only_wheels (snd sw) (snd (upload_wheel E m ?p 3 w1))"
      unfolding only_wheels_def
      by (rule exI [of _ "replicate k (basename ?p)"]) (use k d name in auto)
    have mk: "\<And>st d meta. only_wheels (snd sw)
        (snd (mark_uploaded E st pkg_name (entry_filename e) d meta (snd (upload_wheel E m ?p 3 w1))))"
      by (rule only_wheels_trans [OF up]) (simp add: only_wheels_same uploads_mark_uploaded)
    show ?thesis
      using d' up mk dl
      by (simp add: mirror_entry_def Let_def case_prod_beta split: outcome.splits option.splits)
  qed
qed

lemma mirror_entries_only_wheels:
  "only_wheels (snd sw) (snd (snd (mirror_entries E m pkg_name cache_dir True es sw)))"
proof (induction es arbitrary: sw)
  case Nil
  then show ?case by (simp add: only_wheels_refl)
next
  case (Cons e es)
  let ?r = "mirror_entry E m pkg_name cache_dir True e sw"
  have one: "only_wheels (snd sw) (snd (snd ?r))" by (rule mirror_entry_only_wheels)
  have rest: "only_wheels (snd sw) (snd (snd (mirror_entries E m pkg_name cache_dir True es (snd ?r))))"
    by (rule only_wheels_trans [OF one Cons.IH])
  show ?case
    using one rest by (simp add: case_prod_beta split: outcome.splits)
qed

lemma mirror_entries_never_raises:
  "fst (mirror_entries E m pkg_name cache_dir wheels_only es sw) = Returns ()"
proof (induction es arbitrary: sw)
  case Nil
  then show ?case by simp
next
  case (Cons e es)
  show ?case
    using mirror_entry_never_raises [of E m pkg_name cache_dir wheels_only e sw] Cons.IH
    by (simp add: case_prod_beta)
qed

lemma mirror_resolved_only_wheels:
  "only_wheels (snd sw)
     (snd (snd (mirror_resolved E m pkg_name cache_dir True publish_after entries sw)))"
proof -
  let ?r = "mirror_entries E m pkg_name cache_dir True (valid_entries entries) sw"
  have a: "only_wheels (snd sw) (snd (snd ?r))" by (rule mirror_entries_only_wheels)
  have b: "only_wheels (snd sw) (snd (publish_environment E m (snd (snd ?r))))"
    by (rule only_wheels_trans [OF a]) (simp add: only_wheels_same uploads_publish)
  show ?thesis
    using a b
    by (auto simp: mirror_resolved_def only_wheels_refl case_prod_beta split: outcome.splits)
qed

lemma mirror_resolved_never_raises:
  "fst (mirror_resolved E m pkg_name cache_dir wheels_only publish_after entries sw) = Returns ()"
  using mirror_entries_never_raises
    [of E m pkg_name cache_dir wheels_only "valid_entries entries" sw]
  by (simp add: mirror_resolved_def case_prod_beta)

lemma mirror_package_from_jfrog_only_wheels:
  "only_wheels (snd sw)
     (snd (snd (mirror_package_from_jfrog E m pkg_name jfrog_base repo cache_dir True
                  publish_after sw)))"
proof -
  let ?r = "resolve_jfrog E pkg_name jfrog_base repo (snd sw)"
  have a: "only_wheels (snd sw) (snd ?r)"
    by (simp add: only_wheels_same uploads_resolve_jfrog)
  have b: "\<And>entries. only_wheels (snd sw)
      (snd (snd (mirror_resolved E m pkg_name cache_dir True publish_after entries (fst sw, snd ?r))))"
  proof -
    fix entries
    have "only_wheels (snd ?r)
      (snd (snd (mirror_resolved E m pkg_name cache_dir True publish_after entries (fst sw, snd ?r))))"
      using mirror_resolved_only_wheels [of "(fst sw, snd ?r)" E m pkg_name cache_dir publish_after entries]
      by simp
    then show "only_wheels (snd sw)
      (snd (snd (mirror_resolved E m pkg_name cache_dir True publish_after entries (fst sw, snd ?r))))"
      by (rule only_wheels_trans [OF a])
  qed
  show ?thesis
    using a b
    by (auto simp: mirror_package_from_jfrog_def only_wheels_refl case_prod_beta
          split: outcome.splits)
qed

lemma mirror_package_from_azure_only_wheels:
  "only_wheels (snd sw)
     (snd (snd (mirror_package_from_azure E m pkg_name base org project feed cache_dir True
                  publish_after sw)))"
proof -
  let ?r = "resolve_azure E pkg_name base org project feed (snd sw)"
  have a: "only_wheels (snd sw) (snd ?r)"
    by (simp add: only_wheels_same uploads_resolve_azure)
  have b: "\<And>entries. only_wheels (snd sw)
      (snd (snd (mirror_resolved E m pkg_name cache_dir True publish_after entries (fst sw, snd ?r))))"
  proof -
    fix entries
    have "only_wheels (snd ?r)
      (snd (snd (mirror_resolved E m pkg_name cache_dir True publish_after entries (fst sw, snd ?r))))"
      using mirror_resolved_only_wheels [of "(fst sw, snd ?r)" E m pkg_name cache_dir publish_after entries]
      by simp
    then show "only_wheels (snd sw)
      (snd (snd (mirror_resolved E m pkg_name cache_dir True publish_after entries (fst sw, snd ?r))))"
      by (rule only_wheels_trans [OF a])
  qed
  show ?thesis
    using a b
    by (auto simp: mirror_package_from_azure_def only_wheels_refl case_prod_beta
          split: outcome.splits option.splits)
qed

text \<open>
  What a package run does to the disk: requests, sleeps, uploads and polls leave it alone, a
  download writes only its destination and the \<^verbatim>\<open>.part\<close> file beside it, and the ledger
  only its own file and the \<^verbatim>\<open>.tmp\<close> file beside it. The cached files lie below the cache
  directory, so \<^verbatim>\<open>os.makedirs\<close> succeeds for the next package when it did for this one.
\<close>

lemma basename_no_slash: "CHR ''/'' \<notin> set (basename p)"
  by (auto simp: basename_def dest: set_takeWhileD)

lemma path_join_longer:
  assumes "f \<noteq> []" and "CHR ''/'' \<notin> set f"
  shows "length cache_dir < length (path_join cache_dir f)"
proof -
  from assms obtain c cs where f: "f = c # cs" and c: "c \<noteq> CHR ''/''"
    by (cases f) auto
  then show ?thesis by (simp add: path_join_def startswith_def)
qed

lemma part_only_untouched:
  "part_only d e \<Longrightarrow> p \<noteq> d \<Longrightarrow> p \<noteq> d @ ''.part'' \<Longrightarrow> \<not> touches p e"
  by (cases e) auto

lemma fs_download:
  assumes "p \<noteq> dest_path" and "p \<noteq> dest_path @ ''.part''"
  shows "fs (snd (download_url_to_path E url dest_path k w)) p = fs w p"
proof -
  have "loop_post E url dest_path k 0 w (download_loop E url dest_path k 0 w)"
    by (rule download_loop_post) simp
  then obtain es where es: "fs (snd (download_loop E url dest_path k 0 w)) = replay es (fs w)"
      and po: "\<forall>e\<in>set es. part_only dest_path e"
    unfolding loop_post_def by blast
  from po assms have "\<forall>e\<in>set es. \<not> touches p e"
    using part_only_untouched [of dest_path _ p] by blast
  then show ?thesis
    by (simp add: download_url_to_path_def es replay_untouched)
qed

lemma fs_ensure_cached:
  assumes "p \<noteq> local_path" and "p \<noteq> local_path @ ''.part''"
  shows "fs (snd (ensure_cached E url local_path w)) p = fs w p"
  using assms by (simp add: ensure_cached_def fs_download)

lemma fs_upload_attempts:
  "fs (snd (upload_attempts E m wheel_path name r xs w)) = fs w"
proof (induction xs arbitrary: w)
  case Nil
  show ?case by simp
next
  case (Cons a xs)
  obtain out w1 where at: "attempt_upload E m wheel_path name w = (out, w1)"
    by (cases "attempt_upload E m wheel_path name w")
  have w1: "fs w1 = fs w"
    using at
    by (auto simp: attempt_upload_def do_post_def request_done_simps split: option.splits)
  have go: "fs (snd (upload_attempts E m wheel_path name r xs (sleep (2 ^ a) w1))) = fs w"
    using Cons.IH [of "sleep (2 ^ a) w1"] w1 by (simp add: sleep_simps)
  show ?case
    using w1 go
    by (simp only: upload_attempts.simps at) (auto split: outcome.splits)
qed

lemma fs_upload_wheel: "fs (snd (upload_wheel E m wheel_path r w)) = fs w"
  by (simp add: upload_wheel_def Let_def fs_upload_attempts)

lemma fs_mark_uploaded:
  assumes "p \<noteq> state_path st" and "p \<noteq> state_path st @ ''.tmp''"
  shows "fs (snd (mark_uploaded E st pk f d meta w)) p = fs w p"
  using assms
  by (simp add: mark_uploaded_def save_def Let_def file_open_w_def file_write_def file_move_def
        emit_def)

lemma state_path_mark_uploaded:
  "state_path (fst (mark_uploaded E st pk f d meta w)) = state_path st"
  by (simp add: mark_uploaded_def Let_def)

lemma fs_wait_loop: "fs (snd (wait_loop E url start max_wait w)) = fs w"
proof (induction E url start max_wait w rule: wait_loop.induct)
  case (1 E url start max_wait w)
  show ?case
  proof (cases "int (now w) - int start < max_wait")
    case False
    then show ?thesis by (simp add: wait_loop_timeout)
  next
    case True
    show ?thesis
    proof (cases "poll_result E (http_get E (reqs w) url)")
      case (Finished result)
      then show ?thesis
        by (simp add: wait_loop_finished [OF True Finished] request_done_simps)
    next
      case Pending
      from "1.IH" [unfolded do_get_simps, OF True Pending]
      show ?thesis
        by (simp add: wait_loop_pending [OF True Pending] sleep_simps request_done_simps)
    qed
  qed
qed

lemma fs_publish: "fs (snd (publish_environment E m w)) = fs w"
  by (auto simp: publish_environment_def do_post_def request_done_simps
        wait_for_publish_completion_def fs_wait_loop Let_def
      split: outcome.splits option.splits list.splits)

lemma fs_fetch_index: "fs (snd (fetch_index E idx w)) = fs w"
  by (auto simp: fetch_index_def do_get_def request_done_simps split: outcome.splits)

lemma fs_fetch_listing: "fs (snd (fetch_listing E url field w)) = fs w"
  by (auto simp: fetch_listing_def do_get_def request_done_simps
      split: outcome.splits option.splits json.splits)

lemma fs_resolve_jfrog: "fs (snd (resolve_jfrog E pkg_name jfrog_base repo w)) = fs w"
proof -
  let ?p = "pypi_simple_list E (rstrip_slash jfrog_base @ ''/'' @ repo) pkg_name w"
  have p: "fs (snd ?p) = fs w"
    by (simp add: pypi_simple_list_def fs_fetch_index)
  have a: "fs (snd (artifactory_list E jfrog_base repo (snd ?p))) = fs (snd ?p)"
    by (simp add: artifactory_list_def fs_fetch_listing)
  show ?thesis
    using p a
    by (auto simp: resolve_jfrog_def case_prod_beta split: outcome.splits)
qed

lemma fs_resolve_azure:
  "fs (snd (resolve_azure E pkg_name base org project feed w)) = fs w"
proof -
  have i: "\<And>w. fs (snd (azure_pypi_simple_index E base org project feed pkg_name w)) = fs w"
    by (simp add: azure_pypi_simple_index_def Let_def fs_fetch_index)
  have l: "\<And>w. fs (snd (azure_devops_list_packages_via_api E base org project feed w)) = fs w"
    using fs_fetch_listing
    by (auto simp: azure_devops_list_packages_via_api_def Let_def case_prod_beta
        split: outcome.splits)
  show ?thesis
    using i l
    by (auto simp: resolve_azure_def case_prod_beta split: outcome.splits)
qed

lemma makedirs_returns: "makedirs path w = Returns u \<longleftrightarrow> path \<noteq> [] \<and> fs w path = None"
  by (simp add: makedirs_def)

lemma mirror_entry_frame:
  assumes "p \<noteq> path_join cache_dir (entry_filename e)"
      and "p \<noteq> path_join cache_dir (entry_filename e) @ ''.part''"
      and "p \<noteq> state_path (fst sw)" and "p \<noteq> state_path (fst sw) @ ''.tmp''"
  shows "fs (snd (snd (mirror_entry E m pkg_name cache_dir wheels_only e sw))) p = fs (snd sw) p"
    and "state_path (fst (snd (mirror_entry E m pkg_name cache_dir wheels_only e sw)))
           = state_path (fst sw)"
proof -
  let ?p = "path_join cache_dir (entry_filename e)"
  obtain r w1 where dl: "ensure_cached E (entry_url e) ?p (snd sw) = (r, w1)"
    by (cases "ensure_cached E (entry_url e) ?p (snd sw)")
  have d: "fs w1 p = fs (snd sw) p"
    using fs_ensure_cached [OF assms(1,2), of E "entry_url e" "snd sw"] dl by simp
  have up: "fs (snd (upload_wheel E m ?p 3 w1)) p = fs (snd sw) p"
    using d by (simp add: fs_upload_wheel)
  have mk: "\<And>d meta. fs (snd (mark_uploaded E (fst sw) pkg_name (entry_filename e) d meta
        (snd (upload_wheel E m ?p 3 w1)))) p = fs (snd sw) p"
    using up by (simp add: fs_mark_uploaded [OF assms(3,4)])
  show "fs (snd (snd (mirror_entry E m pkg_name cache_dir wheels_only e sw))) p = fs (snd sw) p"
    using d up mk dl
    by (simp add: mirror_entry_def Let_def case_prod_beta split: outcome.splits option.splits)
  show "state_path (fst (snd (mirror_entry E m pkg_name cache_dir wheels_only e sw)))
           = state_path (fst sw)"
    using dl
    by (simp add: mirror_entry_def Let_def case_prod_beta state_path_mark_uploaded
          split: outcome.splits option.splits)
qed

lemma mirror_entries_frame:
  assumes "\<forall>e\<in>set es. p \<noteq> path_join cache_dir (entry_filename e)
              \<and> p \<noteq> path_join cache_dir (entry_filename e) @ ''.part''"
      and "p \<noteq> state_path (fst sw)" and "p \<noteq> state_path (fst sw) @ ''.tmp''"
  shows "fs (snd (snd (mirror_entries E m pkg_name cache_dir wheels_only es sw))) p = fs (snd sw) p
       \<and> state_path (fst (snd (mirror_entries E m pkg_name cache_dir wheels_only es sw)))
           = state_path (fst sw)"
  using assms
proof (induction es arbitrary: sw)
  case Nil
  then show ?case by simp
next
  case (Cons e es)
  let ?r = "mirror_entry E m pkg_name cache_dir wheels_only e sw"
  have e: "p \<noteq> path_join cache_dir (entry_filename e)"
      "p \<noteq> path_join cache_dir (entry_filename e) @ ''.part''"
    using Cons.prems(1) by simp_all
  note one = mirror_entry_frame [OF e Cons.prems(2,3), of E m pkg_name wheels_only]
  have rest: "fs (snd (snd (mirror_entries E m pkg_name cache_dir wheels_only es (snd ?r)))) p
        = fs (snd (snd ?r)) p
      \<and> state_path (fst (snd (mirror_entries E m pkg_name cache_dir wheels_only es (snd ?r))))
        = state_path (fst (snd ?r))"
    by (rule Cons.IH) (use Cons.prems one in simp_all)
  show ?case
    using one rest mirror_entry_never_raises [of E m pkg_name cache_dir wheels_only e sw]
    by (simp add: case_prod_beta)
qed

lemma valid_entries_named:
  "e \<in> set (valid_entries es) \<Longrightarrow> entry_filename e \<noteq> []"
  by (auto simp: valid_entries_def VALID_DISTS_def endswith_any_def endswith_def lower_def)

lemma mirror_resolved_frame:
  assumes "\<forall>e\<in>set entries. CHR ''/'' \<notin> set (entry_filename e)"
      and "cache_ready cache_dir sw"
  shows "cache_ready cache_dir
           (snd (mirror_resolved E m pkg_name cache_dir wheels_only publish_after entries sw))"
proof -
  let ?es = "valid_entries entries"
  let ?r = "mirror_entries E m pkg_name cache_dir wheels_only ?es sw"
  have paths: "\<forall>e\<in>set ?es. cache_dir \<noteq> path_join cache_dir (entry_filename e)
              \<and> cache_dir \<noteq> path_join cache_dir (entry_filename e) @ ''.part''"
  proof
    fix e assume e: "e \<in> set ?es"
    then have "entry_filename e \<noteq> []" by (rule valid_entries_named)
    moreover from e assms(1) have "CHR ''/'' \<notin> set (entry_filename e)"
      by (simp add: valid_entries_def)
    ultimately have "length cache_dir < length (path_join cache_dir (entry_filename e))"
      by (rule path_join_longer)
    then show "cache_dir \<noteq> path_join cache_dir (entry_filename e)
              \<and> cache_dir \<noteq> path_join cache_dir (entry_filename e) @ ''.part''"
      by (metis length_append less_irrefl trans_less_add1)
  qed
  have st: "cache_dir \<noteq> state_path (fst sw)" "cache_dir \<noteq> state_path (fst sw) @ ''.tmp''"
    using assms(2) by (auto simp: cache_ready_def)
  note fr = mirror_entries_frame [OF paths st, of E m pkg_name wheels_only]
  have a: "cache_ready cache_dir (snd ?r)"
    using fr assms(2) by (auto simp: cache_ready_def makedirs_returns)
  have b: "cache_ready cache_dir (fst (snd ?r), snd (publish_environment E m (snd (snd ?r))))"
    using a by (auto simp: cache_ready_def makedirs_returns fs_publish)
  show ?thesis
    using a b assms(2)
    by (auto simp: mirror_resolved_def case_prod_beta split: outcome.splits)
qed

lemma url_entries_names: "\<forall>e\<in>set (url_entries urls). CHR ''/'' \<notin> set (entry_filename e)"
  by (auto simp: url_entries_def basename_no_slash)

lemma collect_entries_names:
  "collect_entries art_base repo files = Returns es \<Longrightarrow>
   \<forall>e\<in>set es. CHR ''/'' \<notin> set (entry_filename e)"
proof (induction files arbitrary: es)
  case Nil
  then show ?case by simp
next
  case (Cons f files)
  then show ?case
    by (auto simp: determine_files_from_artifactory_entry_def Let_def basename_no_slash
        split: outcome.splits option.splits json.splits if_splits)
qed

lemma resolve_jfrog_names:
  "fst (resolve_jfrog E pkg_name jfrog_base repo w) = Returns es \<Longrightarrow>
   \<forall>e\<in>set es. CHR ''/'' \<notin> set (entry_filename e)"
  using url_entries_names collect_entries_names
  by (auto simp: resolve_jfrog_def case_prod_beta split: outcome.splits)

lemma resolve_azure_names:
  "fst (resolve_azure E pkg_name base org project feed w) = Some es \<Longrightarrow>
   \<forall>e\<in>set es. CHR ''/'' \<notin> set (entry_filename e)"
  using url_entries_names
  by (auto simp: resolve_azure_def case_prod_beta split: outcome.splits if_splits)

lemma cache_ready_same_disk:
  "cache_ready cache_dir (st, w) \<Longrightarrow> fs w' = fs w \<Longrightarrow> cache_ready cache_dir (st, w')"
  by (simp add: cache_ready_def makedirs_returns)

lemma mirror_package_from_jfrog_frame:
  assumes "cache_ready cache_dir sw"
  shows "cache_ready cache_dir
           (snd (mirror_package_from_jfrog E m pkg_name jfrog_base repo cache_dir wheels_only
                   publish_after sw))"
proof -
  let ?r = "resolve_jfrog E pkg_name jfrog_base repo (snd sw)"
  have mk: "makedirs cache_dir (snd sw) = Returns ()"
    using assms by (simp add: cache_ready_def)
  have r: "cache_ready cache_dir (fst sw, snd ?r)"
    by (rule cache_ready_same_disk [of _ _ "snd sw"]) (use assms in \<open>simp_all add: fs_resolve_jfrog\<close>)
  show ?thesis
  proof (cases "fst ?r")
    case (Raises ex)
    then show ?thesis
      using r mk by (simp add: mirror_package_from_jfrog_def case_prod_beta)
  next
    case (Returns es)
    from mirror_resolved_frame [OF resolve_jfrog_names [OF Returns] r]
    show ?thesis
      using mk Returns by (simp add: mirror_package_from_jfrog_def case_prod_beta)
  qed
qed

lemma mirror_package_from_azure_frame:
  assumes "cache_ready cache_dir sw"
  shows "cache_ready cache_dir
           (snd (mirror_package_from_azure E m pkg_name base org project feed cache_dir
                   wheels_only publish_after sw))"
proof -
  let ?r = "resolve_azure E pkg_name base org project feed (snd sw)"
  have mk: "makedirs cache_dir (snd sw) = Returns ()"
    using assms by (simp add: cache_ready_def)
  have r: "cache_ready cache_dir (fst sw, snd ?r)"
    by (rule cache_ready_same_disk [of _ _ "snd sw"]) (use assms in \<open>simp_all add: fs_resolve_azure\<close>)
  show ?thesis
  proof (cases "fst ?r")
    case None
    then show ?thesis
      using r mk by (simp add: mirror_package_from_azure_def case_prod_beta)
  next
    case (Some es)
    from mirror_resolved_frame [OF resolve_azure_names [OF Some] r]
    show ?thesis
      using mk Some by (simp add: mirror_package_from_azure_def case_prod_beta)
  qed
qed

text \<open>
  Resolution failures. In \<^verbatim>\<open>mirror_package_from_azure\<close> the fallback listing runs inside its
  own \<^verbatim>\<open>try\<close>, so a package run raises only when \<^verbatim>\<open>os.makedirs\<close> does, and the batch
  goes on. In \<^verbatim>\<open>mirror_package_from_jfrog\<close> the fallback \<^verbatim>\<open>artifactory_list\<close> runs inside the
  \<^verbatim>\<open>except\<close> block of the first strategy with no handler of its own: what it raises leaves
  the function and the loop of \<^verbatim>\<open>main\<close>.
\<close>

lemma resolve_jfrog_raises:
  assumes "http_get E (reqs w) (jfrog_index_url jfrog_base repo pkg_name) = Raises e1"
      and "http_get E (Suc (reqs w)) (jfrog_storage_url jfrog_base repo) = Raises e2"
  shows "resolve_jfrog E pkg_name jfrog_base repo w
     = (Raises e2,
        request_done E (Http_get (jfrog_storage_url jfrog_base repo))
          (request_done E (Http_get (jfrog_index_url jfrog_base repo pkg_name)) w))"
  using assms
  by (simp add: resolve_jfrog_def pypi_simple_list_def fetch_index_def artifactory_list_def
        fetch_listing_def do_get_def request_done_simps jfrog_index_url_def jfrog_storage_url_def)

lemma resolve_jfrog_returns:
  assumes "http_get E (reqs w) (jfrog_index_url jfrog_base repo pkg_name) = Returns r"
      and "\<not> raise_for_status r"
  shows "resolve_jfrog E pkg_name jfrog_base repo w
     = (Returns (url_entries (absolute_links (jfrog_index_url jfrog_base repo pkg_name)
                                (body_hrefs r))),
        request_done E (Http_get (jfrog_index_url jfrog_base repo pkg_name)) w)"
  using assms
  by (simp add: resolve_jfrog_def pypi_simple_list_def fetch_index_def do_get_def
        jfrog_index_url_def)

lemma mirror_package_from_jfrog_raises_iff:
  "fst (mirror_package_from_jfrog E m pkg_name jfrog_base repo cache_dir wheels_only
          publish_after sw) = Raises ex
   \<longleftrightarrow> makedirs cache_dir (snd sw) = Raises ex
       \<or> makedirs cache_dir (snd sw) = Returns ()
          \<and> fst (resolve_jfrog E pkg_name jfrog_base repo (snd sw)) = Raises ex"
  using mirror_resolved_never_raises [of E m pkg_name cache_dir wheels_only publish_after]
  by (auto simp: mirror_package_from_jfrog_def case_prod_beta split: outcome.splits)

lemma mirror_package_from_azure_raises_iff:
  "fst (mirror_package_from_azure E m pkg_name base org project feed cache_dir wheels_only
          publish_after sw) = Raises ex
   \<longleftrightarrow> makedirs cache_dir (snd sw) = Raises ex"
  using mirror_resolved_never_raises [of E m pkg_name cache_dir wheels_only publish_after]
  by (auto simp: mirror_package_from_azure_def case_prod_beta
      split: outcome.splits option.splits)

lemma mirror_package_from_azure_never_raises:
  assumes "makedirs cache_dir (snd sw) = Returns ()"
  shows "fst (mirror_package_from_azure E m pkg_name base org project feed cache_dir wheels_only
          publish_after sw) = Returns ()"
proof (cases "fst (mirror_package_from_azure E m pkg_name base org project feed cache_dir
          wheels_only publish_after sw)")
  case (Raises ex)
  then show ?thesis using assms by (simp add: mirror_package_from_azure_raises_iff)
next
  case (Returns u)
  then show ?thesis by simp
qed

lemma main_loop_azure_never_raises:
  assumes "cache_ready cache_dir sw"
  shows "fst (main_loop_azure E m base org project feed cache_dir wheels_only publish pkgs sw)
           = Returns ()
       \<and> cache_ready cache_dir
           (snd (main_loop_azure E m base org project feed cache_dir wheels_only publish pkgs sw))"
  using assms
proof (induction pkgs arbitrary: sw)
  case Nil
  then show ?case by simp
next
  case (Cons pkg pkgs)
  let ?r = "mirror_package_from_azure E m pkg base org project feed cache_dir wheels_only
              publish sw"
  have ok: "fst ?r = Returns ()"
    by (rule mirror_package_from_azure_never_raises) (use Cons.prems in \<open>simp add: cache_ready_def\<close>)
  have "cache_ready cache_dir (snd ?r)"
    by (rule mirror_package_from_azure_frame [OF Cons.prems])
  from Cons.IH [OF this] ok show ?case
    by (simp add: case_prod_beta)
qed

lemma main_loop_azure_append:
  "main_loop_azure E m base org project feed cache_dir wheels_only publish (xs @ ys) sw
     = (case main_loop_azure E m base org project feed cache_dir wheels_only publish xs sw of
          (Raises ex, sw1) \<Rightarrow> (Raises ex, sw1)
        | (Returns u, sw1) \<Rightarrow>
            main_loop_azure E m base org project feed cache_dir wheels_only publish ys sw1)"
proof (induction xs arbitrary: sw)
  case Nil
  then show ?case by simp
next
  case (Cons pkg xs)
  show ?case
    using Cons.IH by (simp add: case_prod_beta split: outcome.splits)
qed

lemma main_loop_jfrog_append:
  "main_loop_jfrog E m jfrog_base repo cache_dir wheels_only publish (xs @ ys) sw
     = (case main_loop_jfrog E m jfrog_base repo cache_dir wheels_only publish xs sw of
          (Raises ex, sw1) \<Rightarrow> (Raises ex, sw1)
        | (Returns u, sw1) \<Rightarrow>
            main_loop_jfrog E m jfrog_base repo cache_dir wheels_only publish ys sw1)"
proof (induction xs arbitrary: sw)
  case Nil
  then show ?case by simp
next
  case (Cons pkg xs)
  show ?case
    using Cons.IH by (simp add: case_prod_beta split: outcome.splits)
qed

lemma mirror_package_from_jfrog_stops:
  assumes "\<forall>n. http_get E n (jfrog_index_url jfrog_base repo pkg) = Raises e1"
      and "\<forall>n. http_get E n (jfrog_storage_url jfrog_base repo) = Raises e2"
      and "makedirs cache_dir (snd sw) = Returns ()"
  shows "mirror_package_from_jfrog E m pkg jfrog_base repo cache_dir wheels_only publish sw
     = (Raises e2, fst sw,
        request_done E (Http_get (jfrog_storage_url jfrog_base repo))
          (request_done E (Http_get (jfrog_index_url jfrog_base repo pkg)) (snd sw)))"
proof -
  have "resolve_jfrog E pkg jfrog_base repo (snd sw)
     = (Raises e2,
        request_done E (Http_get (jfrog_storage_url jfrog_base repo))
          (request_done E (Http_get (jfrog_index_url jfrog_base repo pkg)) (snd sw)))"
    by (rule resolve_jfrog_raises) (use assms in simp_all)
  then show ?thesis using assms(3) by (simp add: mirror_package_from_jfrog_def)
qed

lemma mirror_package_from_jfrog_fails:
  assumes "\<forall>n. http_get E n (jfrog_index_url jfrog_base repo pkg) = Raises e1"
      and "\<forall>n. http_get E n (jfrog_storage_url jfrog_base repo) = Raises e2"
  shows "\<exists>ex. fst (mirror_package_from_jfrog E m pkg jfrog_base repo cache_dir wheels_only
                     publish sw) = Raises ex"
proof (cases "makedirs cache_dir (snd sw)")
  case (Raises ex)
  then show ?thesis by (simp add: mirror_package_from_jfrog_def)
next
  case (Returns u)
  then show ?thesis
    using mirror_package_from_jfrog_stops [OF assms, of cache_dir sw m wheels_only publish]
    by simp
qed

lemma jfrog_failed_resolution_ends_run:
  assumes "\<forall>n. http_get E n (jfrog_index_url jfrog_base repo pkg) = Raises e1"
      and "\<forall>n. http_get E n (jfrog_storage_url jfrog_base repo) = Raises e2"
  shows "main_loop_jfrog E m jfrog_base repo cache_dir wheels_only publish
             (before @ pkg # rest) sw
           = main_loop_jfrog E m jfrog_base repo cache_dir wheels_only publish
               (before @ [pkg]) sw
         \<and> (\<exists>ex. fst (main_loop_jfrog E m jfrog_base repo cache_dir wheels_only publish
                         (before @ pkg # rest) sw) = Raises ex)"
proof -
  have stop: "\<And>sw. \<exists>ex sw1. mirror_package_from_jfrog E m pkg jfrog_base repo cache_dir
                  wheels_only publish sw = (Raises ex, sw1)"
  proof -
    fix sw
    from mirror_package_from_jfrog_fails [OF assms, of m cache_dir wheels_only publish sw]
    show "\<exists>ex sw1. mirror_package_from_jfrog E m pkg jfrog_base repo cache_dir
                  wheels_only publish sw = (Raises ex, sw1)"
      by (cases "mirror_package_from_jfrog E m pkg jfrog_base repo cache_dir
                  wheels_only publish sw") auto
  qed
  obtain r sw1 where b:
    "main_loop_jfrog E m jfrog_base repo cache_dir wheels_only publish before sw = (r, sw1)"
    by (cases "main_loop_jfrog E m jfrog_base repo cache_dir wheels_only publish before sw")
  from stop [of sw1] obtain ex sw2 where
    "mirror_package_from_jfrog E m pkg jfrog_base repo cache_dir wheels_only publish sw1
       = (Raises ex, sw2)" by blast
  then show ?thesis
    using b by (cases r) (simp_all add: main_loop_jfrog_append)
qed

lemma ex_urls:
  "jfrog_index_url ''https://jf/art'' ''pypi'' ''alpha'' = ''https://jf/art/pypi/simple/alpha/''"
  "jfrog_index_url ''https://jf/art'' ''pypi'' ''beta'' = ''https://jf/art/pypi/simple/beta/''"
  "jfrog_storage_url ''https://jf/art'' ''pypi''
     = ''https://jf/art/api/storage/pypi?list=1&deep=1&listFolders=0''"
  by code_simp+

lemma env_batch_beta:
  "\<forall>n. http_get env_batch n (jfrog_index_url ''https://jf/art'' ''pypi'' ''beta'')
        = Raises ''index unavailable''"
  "\<forall>n. http_get env_batch n (jfrog_storage_url ''https://jf/art'' ''pypi'')
        = Raises ''storage unavailable''"
  unfolding ex_urls by (simp_all add: env_batch_def env_refusing_def)

lemma ex_cache_ready: "cache_ready ''cache'' (empty_ledger, world0)"
  by (simp add: cache_ready_def makedirs_def empty_ledger_def world0_def)

lemma env_batch_alpha:
  "fst (mirror_package_from_jfrog env_batch ex_mgr ''alpha'' ''https://jf/art'' ''pypi'' ''cache''
          True False (empty_ledger, world0)) = Returns ()"
proof -
  let ?a = "mirror_package_from_jfrog env_batch ex_mgr ''alpha'' ''https://jf/art''
       ''pypi'' ''cache'' True False (empty_ledger, world0)"
  have "http_get env_batch (reqs world0) (jfrog_index_url ''https://jf/art'' ''pypi'' ''alpha'')
      = Returns (ex_response\<lparr>body_hrefs :=
                  [''alpha-1.0-py3.whl'', ''alpha-1.0.tar.gz'', ''alpha-1.0.exe'']\<rparr>)"
    unfolding ex_urls by (simp add: env_batch_def env_refusing_def)
  moreover have "\<not> raise_for_status (ex_response\<lparr>body_hrefs :=
                  [''alpha-1.0-py3.whl'', ''alpha-1.0.tar.gz'', ''alpha-1.0.exe'']\<rparr>)"
    by (simp add: raise_for_status_def ex_response_def)
  ultimately have r: "\<exists>es. fst (resolve_jfrog env_batch ''alpha'' ''https://jf/art'' ''pypi'' world0)
      = Returns es"
    by (simp add: resolve_jfrog_returns)
  have mk: "makedirs ''cache'' world0 = Returns ()"
    using ex_cache_ready by (simp add: cache_ready_def)
  have "\<not> (\<exists>ex. fst ?a = Raises ex)"
    unfolding mirror_package_from_jfrog_raises_iff using r mk by auto
  then show ?thesis
    by (cases "fst ?a") auto
qed

lemma azure_batch_survives_failed_resolution:
  assumes "cache_ready cache_dir sw"
  shows "fst (main_loop_azure E m base org project feed cache_dir wheels_only publish
          (before @ pkg # rest) sw) = Returns ()
   \<and> main_loop_azure E m base org project feed cache_dir wheels_only publish
          (before @ pkg # rest) sw
     = main_loop_azure E m base org project feed cache_dir wheels_only publish rest
         (snd (mirror_package_from_azure E m pkg base org project feed cache_dir wheels_only
                 publish
                 (snd (main_loop_azure E m base org project feed cache_dir wheels_only publish
                         before sw))))"
proof -
  let ?b = "main_loop_azure E m base org project feed cache_dir wheels_only publish before sw"
  note b = main_loop_azure_never_raises [OF assms, of E m base org project feed wheels_only
      publish before]
  then have "makedirs cache_dir (snd (snd ?b)) = Returns ()"
    by (simp add: cache_ready_def)
  then have p: "fst (mirror_package_from_azure E m pkg base org project feed cache_dir
      wheels_only publish (snd ?b)) = Returns ()"
    by (rule mirror_package_from_azure_never_raises)
  show ?thesis
    using b p
      main_loop_azure_never_raises [OF assms, of E m base org project feed wheels_only
        publish "before @ pkg # rest"]
    by (simp add: main_loop_azure_append case_prod_beta)
qed

text \<open>
  Claim C2. A package whose resolution fails is to be skipped, the rest of the batch being
  processed. The Artifactory driver does otherwise: on the batch \<^verbatim>\<open>alpha\<close>, \<^verbatim>\<open>beta\<close>,
  \<^verbatim>\<open>gamma\<close>, where the simple index of \<^verbatim>\<open>beta\<close> and the storage listing both fail, the run
  ends by raising the error of the storage listing, right after the two requests made for
  \<^verbatim>\<open>beta\<close>, in the state that \<^verbatim>\<open>alpha\<close> left; it is the run of the batch \<^verbatim>\<open>alpha\<close>,
  \<^verbatim>\<open>beta\<close>, so \<^verbatim>\<open>gamma\<close> is never processed.
\<close>

theorem jfrog_batch_aborts_on_failed_resolution:
  "main_loop_jfrog env_batch ex_mgr ''https://jf/art'' ''pypi'' ''cache'' True False
       [''alpha'', ''beta'', ''gamma''] (empty_ledger, world0)
     = (Raises ''storage unavailable'',
        fst (snd (mirror_package_from_jfrog env_batch ex_mgr ''alpha'' ''https://jf/art'' ''pypi''
                    ''cache'' True False (empty_ledger, world0))),
        request_done env_batch
          (Http_get ''https://jf/art/api/storage/pypi?list=1&deep=1&listFolders=0'')
          (request_done env_batch (Http_get ''https://jf/art/pypi/simple/beta/'')
             (snd (snd (mirror_package_from_jfrog env_batch ex_mgr ''alpha'' ''https://jf/art''
                          ''pypi'' ''cache'' True False (empty_ledger, world0))))))
   \<and> main_loop_jfrog env_batch ex_mgr ''https://jf/art'' ''pypi'' ''cache'' True False
       [''alpha'', ''beta'', ''gamma''] (empty_ledger, world0)
     = main_loop_jfrog env_batch ex_mgr ''https://jf/art'' ''pypi'' ''cache'' True False
       [''alpha'', ''beta''] (empty_ledger, world0)"
proof -
  let ?a = "mirror_package_from_jfrog env_batch ex_mgr ''alpha'' ''https://jf/art'' ''pypi''
              ''cache'' True False (empty_ledger, world0)"
  obtain sw1 where a: "?a = (Returns (), sw1)"
    using env_batch_alpha by (cases ?a) auto
  have "cache_ready ''cache'' (snd ?a)"
    by (rule mirror_package_from_jfrog_frame [OF ex_cache_ready])
  then have mk: "makedirs ''cache'' (snd sw1) = Returns ()"
    by (simp add: a cache_ready_def)
  note stop = mirror_package_from_jfrog_stops [OF env_batch_beta mk, of ex_mgr True False,
      unfolded ex_urls]
  show ?thesis
    by (simp add: a stop)
qed

text \<open>
  A package run, once the cache directory is there and the resolution has returned, is the
  loop of \<^verbatim>\<open>mirror_entry\<close> over the entries that \<^verbatim>\<open>valid_entries\<close> keeps, followed by the
  publish when it is asked for and an entry was kept.
\<close>

lemma mirror_entries_step:
  "mirror_entries E m pkg_name cache_dir wheels_only (e # es) sw
     = mirror_entries E m pkg_name cache_dir wheels_only es
         (snd (mirror_entry E m pkg_name cache_dir wheels_only e sw))"
  using mirror_entry_never_raises [of E m pkg_name cache_dir wheels_only e sw]
  by (simp add: case_prod_beta)

lemma mirror_resolved_runs_entries:
  "mirror_resolved E m pkg_name cache_dir wheels_only publish_after entries sw
     = (Returns (),
        fst (snd (mirror_entries E m pkg_name cache_dir wheels_only (valid_entries entries) sw)),
        (if publish_after \<and> valid_entries entries \<noteq> []
         then snd (publish_environment E m
                (snd (snd (mirror_entries E m pkg_name cache_dir wheels_only
                             (valid_entries entries) sw))))
         else snd (snd (mirror_entries E m pkg_name cache_dir wheels_only
                          (valid_entries entries) sw))))"
  using mirror_entries_never_raises [of E m pkg_name cache_dir wheels_only "valid_entries entries" sw]
  by (auto simp: mirror_resolved_def case_prod_beta prod_eq_iff)

lemma mirror_package_from_jfrog_runs_entries:
  assumes "makedirs cache_dir w = Returns ()"
      and "resolve_jfrog E pkg_name jfrog_base repo w = (Returns entries, w1)"
  shows "mirror_package_from_jfrog E m pkg_name jfrog_base repo cache_dir wheels_only
           publish_after (st, w)
     = mirror_resolved E m pkg_name cache_dir wheels_only publish_after entries (st, w1)"
  using assms by (simp add: mirror_package_from_jfrog_def)

lemma mirror_package_from_azure_runs_entries:
  assumes "makedirs cache_dir w = Returns ()"
      and "resolve_azure E pkg_name base org project feed w = (Some entries, w1)"
  shows "mirror_package_from_azure E m pkg_name base org project feed cache_dir wheels_only
           publish_after (st, w)
     = mirror_resolved E m pkg_name cache_dir wheels_only publish_after entries (st, w1)"
  using assms by (simp add: mirror_package_from_azure_def)

lemma download_first_try:
  assumes "http_get E (reqs w) url = Returns r" and "\<not> raise_for_status r"
      and "stream_complete r"
  shows "fst (download_url_to_path E url dest_path 3 w) = Returns ()"
    and "fs (snd (download_url_to_path E url dest_path 3 w)) dest_path
           = Some (concat (body_chunks r))"
proof -
  let ?at = "download_attempt E url dest_path w"
  note eff = download_attempt_effect [of E url dest_path w]
  have ok: "attempt_ok E url (reqs w)"
    using assms by (simp add: attempt_ok_def)
  with eff obtain u where u: "fst ?at = Returns u" by blast
  have loop: "download_url_to_path E url dest_path 3 w = (Returns (), snd ?at)"
    unfolding download_url_to_path_def
    by (subst download_loop.simps) (simp add: case_prod_beta u)
  from ok_attempt_events [OF ok, of dest_path "fs w"] assms(1)
  have "replay (attempt_events E url dest_path (reqs w)) (fs w) dest_path
      = Some (concat (body_chunks r))"
    by auto
  with eff loop show "fst (download_url_to_path E url dest_path 3 w) = Returns ()"
    and "fs (snd (download_url_to_path E url dest_path 3 w)) dest_path
           = Some (concat (body_chunks r))"
    by simp_all
qed

lemma valid_entries_example:
  "map entry_filename (valid_entries ex_entries) = [''pkg-1.0-py3.whl'', ''pkg-1.0.tar.gz'']"
  by code_simp

lemma valid_entries_iff:
  "e \<in> set (valid_entries es) \<longleftrightarrow>
     e \<in> set es
     \<and> (\<exists>ext\<in>set [''.whl'', ''.tar.gz'', ''.zip'']. \<exists>stem. lower (entry_filename e) = stem @ ext)"
  unfolding valid_entries_def VALID_DISTS_def endswith_any_iff by auto

lemma mirror_entry_uploads_cached_wheel:
  "is_uploaded (fst (snd (mirror_entry env_batch ex_mgr ''pkg'' ''cache'' True ex_wheel
                            (empty_ledger, world_wheel))))
     ''pkg'' ''pkg-1.0-py3.whl'' ''sha256:wheel bytes''"
  "uploads (trace (snd (snd (mirror_entry env_batch ex_mgr ''pkg'' ''cache'' True ex_wheel
                               (empty_ledger, world_wheel))))) = [''pkg-1.0-py3.whl'']"
  by code_simp+

lemma ex_sdist_valid: "ex_sdist \<in> set (valid_entries ex_entries)"
  by code_simp

lemma ex_sdist_not_wheel: "\<not> endswith (lower (entry_filename ex_sdist)) ''.whl''"
  by code_simp

lemma ex_sdist_path: "path_join ''cache'' (entry_filename ex_sdist) = ''cache/pkg-1.0.tar.gz''"
  by code_simp

lemma ex_valid_entries: "valid_entries ex_entries = [ex_wheel, ex_sdist]"
  by code_simp

lemma env_index_resolves:
  "resolve_jfrog env_index ''pkg'' ''https://jf/art'' ''pypi'' world0
     = (Returns ex_entries,
        request_done env_index (Http_get ''https://jf/art/pypi/simple/pkg/'') world0)"
proof -
  have u: "jfrog_index_url ''https://jf/art'' ''pypi'' ''pkg'' = ''https://jf/art/pypi/simple/pkg/''"
    by code_simp
  let ?r = "ex_response\<lparr>body_hrefs :=
                  [''https://r/simple/pkg/pkg-1.0-py3.whl'',
                   ''https://r/simple/pkg/pkg-1.0.tar.gz?x=1'',
                   ''https://r/simple/pkg/pkg-1.0.exe'']\<rparr>"
  have g: "http_get env_index (reqs world0) (jfrog_index_url ''https://jf/art'' ''pypi'' ''pkg'') = Returns ?r"
    unfolding u by (simp add: env_index_def env_refusing_def)
  have s: "\<not> raise_for_status ?r"
    by (simp add: raise_for_status_def ex_response_def)
  have l: "url_entries (absolute_links ''https://jf/art/pypi/simple/pkg/'' (body_hrefs ?r)) = ex_entries"
    by (simp add: absolute_links_def startswith_def ex_entries_def)
  show ?thesis
    using resolve_jfrog_returns [OF g s] l unfolding u by simp
qed

lemma env_index_resolves_azure:
  "resolve_azure env_index ''pkg'' [] ''org'' None ''feed'' world0
     = (Some ex_entries,
        request_done env_index
          (Http_get ''https://pkgs.dev.azure.com/org/_packaging/feed/pypi/simple/pkg/'') world0)"
  by (simp add: resolve_azure_def azure_pypi_simple_index_def fetch_index_def do_get_def
        env_index_def env_refusing_def raise_for_status_def ex_response_def world0_def
        absolute_links_def startswith_def ex_entries_def)

lemma env_index_serves:
  "http_get env_index n ''https://r/simple/pkg/pkg-1.0.tar.gz?x=1''
     = Returns (ex_response\<lparr>body_chunks := [''wheel''], stream_complete := True\<rparr>)"
  by (simp add: env_index_def env_refusing_def)

lemma env_index_wheel_jfrog:
  "uploads (trace (snd (snd (mirror_entry env_index ex_mgr ''pkg'' ''cache'' True ex_wheel
      (empty_ledger,
       request_done env_index (Http_get ''https://jf/art/pypi/simple/pkg/'') world0)))))
     = [''pkg-1.0-py3.whl'']"
  "fs (snd (snd (mirror_entry env_index ex_mgr ''pkg'' ''cache'' True ex_wheel
      (empty_ledger,
       request_done env_index (Http_get ''https://jf/art/pypi/simple/pkg/'') world0))))
     ''cache/pkg-1.0.tar.gz'' = None"
  "fs (snd (snd (mirror_entry env_index ex_mgr ''pkg'' ''cache'' True ex_wheel
      (empty_ledger,
       request_done env_index (Http_get ''https://jf/art/pypi/simple/pkg/'') world0))))
     ''cache/pkg-1.0-py3.whl'' = Some ''wheel''"
  "is_uploaded (fst (snd (mirror_entry env_index ex_mgr ''pkg'' ''cache'' True ex_wheel
      (empty_ledger,
       request_done env_index (Http_get ''https://jf/art/pypi/simple/pkg/'') world0))))
     ''pkg'' ''pkg-1.0-py3.whl'' ''sha256:wheel''"
  "\<not> is_uploaded (fst (snd (mirror_entry env_index ex_mgr ''pkg'' ''cache'' True ex_wheel
      (empty_ledger,
       request_done env_index (Http_get ''https://jf/art/pypi/simple/pkg/'') world0))))
     ''pkg'' ''pkg-1.0.tar.gz'' ''sha256:wheel''"
  by code_simp+

lemma env_index_wheel_azure:
  "uploads (trace (snd (snd (mirror_entry env_index ex_mgr ''pkg'' ''cache'' True ex_wheel
      (empty_ledger,
       request_done env_index
         (Http_get ''https://pkgs.dev.azure.com/org/_packaging/feed/pypi/simple/pkg/'')
         world0)))))
     = [''pkg-1.0-py3.whl'']"
  "fs (snd (snd (mirror_entry env_index ex_mgr ''pkg'' ''cache'' True ex_wheel
      (empty_ledger,
       request_done env_index
         (Http_get ''https://pkgs.dev.azure.com/org/_packaging/feed/pypi/simple/pkg/'')
         world0))))
     ''cache/pkg-1.0.tar.gz'' = None"
  by code_simp+

lemma env_index_sdist_uploaded_otherwise:
  "uploads (trace (snd (snd (mirror_entry env_index ex_mgr ''pkg'' ''cache'' False ex_sdist
                               (empty_ledger, world0))))) = [''pkg-1.0.tar.gz'']"
  by code_simp

text \<open>
  Claim C7. The candidates kept from a list of resolved entries are exactly those whose
  lower-cased file name ends in \<^verbatim>\<open>.whl\<close>, \<^verbatim>\<open>.tar.gz\<close> or \<^verbatim>\<open>.zip\<close>; of
  \<^verbatim>\<open>pkg-1.0-py3.whl\<close>, \<^verbatim>\<open>pkg-1.0.tar.gz\<close> and \<^verbatim>\<open>pkg-1.0.exe\<close> the first two are kept,
  and the wheel, here already in the cache, is uploaded.
  Under the wheels-only policy a kept entry that is not a wheel is fetched into the cache
  when it is not there yet (by \<^verbatim>\<open>download_url_to_path\<close> with three tries, after which the
  file is in the cache when the download returns), and is then skipped: the ledger is
  unchanged and nothing is uploaded. A package run, from Artifactory or from Azure DevOps,
  whose cache directory can be made and whose resolution returns a list of entries, is the
  loop of \<^verbatim>\<open>mirror_entry\<close>, entry after entry, over what \<^verbatim>\<open>valid_entries\<close> keeps of that
  list, then the publish when it is asked for and an entry was kept. Hence every file that a
  package run passes to the uploader has a name ending in \<^verbatim>\<open>.whl\<close>.
\<close>

theorem extension_filter_and_wheels_only:
  "(e \<in> set (valid_entries es) \<longleftrightarrow>
      e \<in> set es
      \<and> (\<exists>ext\<in>set [''.whl'', ''.tar.gz'', ''.zip'']. \<exists>stem. lower (entry_filename e) = stem @ ext))
   \<and> map entry_filename (valid_entries ex_entries) = [''pkg-1.0-py3.whl'', ''pkg-1.0.tar.gz'']
   \<and> uploads (trace (snd (snd (mirror_entry env_batch ex_mgr ''pkg'' ''cache'' True ex_wheel
                                  (empty_ledger, world_wheel))))) = [''pkg-1.0-py3.whl'']
   \<and> (e \<in> set (valid_entries es) \<and> \<not> endswith (lower (entry_filename e)) ''.whl'' \<longrightarrow>
        mirror_entry E m pkg_name cache_dir True e (st, w)
          = (Returns (), st,
             snd (ensure_cached E (entry_url e) (path_join cache_dir (entry_filename e)) w))
        \<and> uploads (trace (snd (ensure_cached E (entry_url e)
                                  (path_join cache_dir (entry_filename e)) w)))
          = uploads (trace w)
        \<and> (fs w (path_join cache_dir (entry_filename e)) = None \<longrightarrow>
             ensure_cached E (entry_url e) (path_join cache_dir (entry_filename e)) w
               = download_url_to_path E (entry_url e)
                   (path_join cache_dir (entry_filename e)) 3 w)
        \<and> (fst (ensure_cached E (entry_url e) (path_join cache_dir (entry_filename e)) w)
              = Returns () \<longrightarrow>
             fs (snd (ensure_cached E (entry_url e) (path_join cache_dir (entry_filename e)) w))
                (path_join cache_dir (entry_filename e)) \<noteq> None))
   \<and> mirror_entries E m pkg_name cache_dir True [] (st, w) = (Returns (), st, w)
   \<and> mirror_entries E m pkg_name cache_dir True (e # es) (st, w)
       = mirror_entries E m pkg_name cache_dir True es
           (snd (mirror_entry E m pkg_name cache_dir True e (st, w)))
   \<and> (makedirs cache_dir w = Returns ()
        \<and> resolve_jfrog E pkg_name jfrog_base repo w = (Returns entries, wj) \<longrightarrow>
        mirror_package_from_jfrog E m pkg_name jfrog_base repo cache_dir True publish_after
            (st, w)
          = (Returns (),
             fst (snd (mirror_entries E m pkg_name cache_dir True (valid_entries entries)
                         (st, wj))),
             (if publish_after \<and> valid_entries entries \<noteq> []
              then snd (publish_environment E m
                     (snd (snd (mirror_entries E m pkg_name cache_dir True
                                  (valid_entries entries) (st, wj)))))
              else snd (snd (mirror_entries E m pkg_name cache_dir True
                               (valid_entries entries) (st, wj))))))
   \<and> (makedirs cache_dir w = Returns ()
        \<and> resolve_azure E pkg_name base org project feed w = (Some entries, wa) \<longrightarrow>
        mirror_package_from_azure E m pkg_name base org project feed cache_dir True
            publish_after (st, w)
          = (Returns (),
             fst (snd (mirror_entries E m pkg_name cache_dir True (valid_entries entries)
                         (st, wa))),
             (if publish_after \<and> valid_entries entries \<noteq> []
              then snd (publish_environment E m
                     (snd (snd (mirror_entries E m pkg_name cache_dir True
                                  (valid_entries entries) (st, wa)))))
              else snd (snd (mirror_entries E m pkg_name cache_dir True
                               (valid_entries entries) (st, wa))))))
   \<and> (\<exists>new. uploads (trace (snd (snd (mirror_package_from_jfrog E m pkg_name jfrog_base repo
                                          cache_dir True publish_after (st, w)))))
               = uploads (trace w) @ new
          \<and> (\<forall>n\<in>set new. endswith (lower n) ''.whl''))
   \<and> (\<exists>new. uploads (trace (snd (snd (mirror_package_from_azure E m pkg_name base org project
                                          feed cache_dir True publish_after (st, w)))))
               = uploads (trace w) @ new
          \<and> (\<forall>n\<in>set new. endswith (lower n) ''.whl''))"
proof (intro conjI impI)
  show "e \<in> set (valid_entries es) \<longleftrightarrow>
      e \<in> set es
      \<and> (\<exists>ext\<in>set [''.whl'', ''.tar.gz'', ''.zip'']. \<exists>stem. lower (entry_filename e) = stem @ ext)"
    by (rule valid_entries_iff)
  show "map entry_filename (valid_entries ex_entries) = [''pkg-1.0-py3.whl'', ''pkg-1.0.tar.gz'']"
    by (rule valid_entries_example)
  show "uploads (trace (snd (snd (mirror_entry env_batch ex_mgr ''pkg'' ''cache'' True ex_wheel
                                  (empty_ledger, world_wheel))))) = [''pkg-1.0-py3.whl'']"
    by (rule mirror_entry_uploads_cached_wheel(2))
  show "mirror_entries E m pkg_name cache_dir True [] (st, w) = (Returns (), st, w)"
    by simp
  show "mirror_entries E m pkg_name cache_dir True (e # es) (st, w)
       = mirror_entries E m pkg_name cache_dir True es
           (snd (mirror_entry E m pkg_name cache_dir True e (st, w)))"
    by (rule mirror_entries_step)
  show "\<exists>new. uploads (trace (snd (snd (mirror_package_from_jfrog E m pkg_name jfrog_base repo
                                          cache_dir True publish_after (st, w)))))
               = uploads (trace w) @ new
          \<and> (\<forall>n\<in>set new. endswith (lower n) ''.whl'')"
    using mirror_package_from_jfrog_only_wheels
      [of "(st, w)" E m pkg_name jfrog_base repo cache_dir publish_after]
    by (simp add: only_wheels_def)
  show "\<exists>new. uploads (trace (snd (snd (mirror_package_from_azure E m pkg_name base org project
                                          feed cache_dir True publish_after (st, w)))))
               = uploads (trace w) @ new
          \<and> (\<forall>n\<in>set new. endswith (lower n) ''.whl'')"
    using mirror_package_from_azure_only_wheels
      [of "(st, w)" E m pkg_name base org project feed cache_dir publish_after]
    by (simp add: only_wheels_def)
next
  assume a: "e \<in> set (valid_entries es) \<and> \<not> endswith (lower (entry_filename e)) ''.whl''"
  then show "mirror_entry E m pkg_name cache_dir True e (st, w)
          = (Returns (), st,
             snd (ensure_cached E (entry_url e) (path_join cache_dir (entry_filename e)) w))"
    by (simp add: mirror_entry_skips_other_kinds)
  show "uploads (trace (snd (ensure_cached E (entry_url e)
                                  (path_join cache_dir (entry_filename e)) w)))
          = uploads (trace w)"
    by (rule uploads_ensure_cached)
  {
    assume "fs w (path_join cache_dir (entry_filename e)) = None"
    then show "ensure_cached E (entry_url e) (path_join cache_dir (entry_filename e)) w
               = download_url_to_path E (entry_url e)
                   (path_join cache_dir (entry_filename e)) 3 w"
      by (simp add: ensure_cached_def)
  }
  {
    assume "fst (ensure_cached E (entry_url e) (path_join cache_dir (entry_filename e)) w)
              = Returns ()"
    from ensure_cached_file [OF this]
    show "fs (snd (ensure_cached E (entry_url e) (path_join cache_dir (entry_filename e)) w))
                (path_join cache_dir (entry_filename e)) \<noteq> None"
      by auto
  }
next
  assume "makedirs cache_dir w = Returns ()
        \<and> resolve_jfrog E pkg_name jfrog_base repo w = (Returns entries, wj)"
  then show "mirror_package_from_jfrog E m pkg_name jfrog_base repo cache_dir True publish_after
            (st, w)
          = (Returns (),
             fst (snd (mirror_entries E m pkg_name cache_dir True (valid_entries entries)
                         (st, wj))),
             (if publish_after \<and> valid_entries entries \<noteq> []
              then snd (publish_environment E m
                     (snd (snd (mirror_entries E m pkg_name cache_dir True
                                  (valid_entries entries) (st, wj)))))
              else snd (snd (mirror_entries E m pkg_name cache_dir True
                               (valid_entries entries) (st, wj)))))"
    by (simp only: mirror_package_from_jfrog_runs_entries
          mirror_resolved_runs_entries [symmetric])
next
  assume "makedirs cache_dir w = Returns ()
        \<and> resolve_azure E pkg_name base org project feed w = (Some entries, wa)"
  then show "mirror_package_from_azure E m pkg_name base org project feed cache_dir True
            publish_after (st, w)
          = (Returns (),
             fst (snd (mirror_entries E m pkg_name cache_dir True (valid_entries entries)
                         (st, wa))),
             (if publish_after \<and> valid_entries entries \<noteq> []
              then snd (publish_environment E m
                     (snd (snd (mirror_entries E m pkg_name cache_dir True
                                  (valid_entries entries) (st, wa)))))
              else snd (snd (mirror_entries E m pkg_name cache_dir True
                               (valid_entries entries) (st, wa)))))"
    by (simp only: mirror_package_from_azure_runs_entries
          mirror_resolved_runs_entries [symmetric])
qed

theorem extension_filter_and_wheels_only_witness:
  "ex_sdist \<in> set (valid_entries ex_entries)
   \<and> \<not> endswith (lower (entry_filename ex_sdist)) ''.whl''
   \<and> fs world0 ''cache/pkg-1.0.tar.gz'' = None
   \<and> mirror_entry env_index ex_mgr ''pkg'' ''cache'' True ex_sdist (empty_ledger, world0)
       = (Returns (), empty_ledger,
          snd (download_url_to_path env_index ''https://r/simple/pkg/pkg-1.0.tar.gz?x=1''
                 ''cache/pkg-1.0.tar.gz'' 3 world0))
   \<and> fst (download_url_to_path env_index ''https://r/simple/pkg/pkg-1.0.tar.gz?x=1''
                 ''cache/pkg-1.0.tar.gz'' 3 world0) = Returns ()
   \<and> fs (snd (snd (mirror_entry env_index ex_mgr ''pkg'' ''cache'' True ex_sdist
                      (empty_ledger, world0)))) ''cache/pkg-1.0.tar.gz'' = Some ''wheel''
   \<and> uploads (trace (snd (snd (mirror_entry env_index ex_mgr ''pkg'' ''cache'' True ex_sdist
                                  (empty_ledger, world0))))) = []
   \<and> uploads (trace (snd (snd (mirror_entry env_index ex_mgr ''pkg'' ''cache'' False ex_sdist
                                  (empty_ledger, world0))))) = [''pkg-1.0.tar.gz'']
   \<and> makedirs ''cache'' world0 = Returns ()
   \<and> resolve_jfrog env_index ''pkg'' ''https://jf/art'' ''pypi'' world0
       = (Returns ex_entries,
          request_done env_index (Http_get ''https://jf/art/pypi/simple/pkg/'') world0)
   \<and> resolve_azure env_index ''pkg'' [] ''org'' None ''feed'' world0
       = (Some ex_entries,
          request_done env_index
            (Http_get ''https://pkgs.dev.azure.com/org/_packaging/feed/pypi/simple/pkg/'') world0)
   \<and> valid_entries ex_entries = [ex_wheel, ex_sdist]
   \<and> mirror_package_from_jfrog env_index ex_mgr ''pkg'' ''https://jf/art'' ''pypi'' ''cache''
         True False (empty_ledger, world0)
       = (Returns (),
          snd (mirror_entry env_index ex_mgr ''pkg'' ''cache'' True ex_sdist
                 (snd (mirror_entry env_index ex_mgr ''pkg'' ''cache'' True ex_wheel
                         (empty_ledger,
                          request_done env_index (Http_get ''https://jf/art/pypi/simple/pkg/'')
                            world0)))))
   \<and> uploads (trace (snd (snd (mirror_package_from_jfrog env_index ex_mgr ''pkg''
         ''https://jf/art'' ''pypi'' ''cache'' True False (empty_ledger, world0)))))
       = [''pkg-1.0-py3.whl'']
   \<and> fs (snd (snd (mirror_package_from_jfrog env_index ex_mgr ''pkg''
         ''https://jf/art'' ''pypi'' ''cache'' True False (empty_ledger, world0))))
         ''cache/pkg-1.0-py3.whl'' = Some ''wheel''
   \<and> fs (snd (snd (mirror_package_from_jfrog env_index ex_mgr ''pkg''
         ''https://jf/art'' ''pypi'' ''cache'' True False (empty_ledger, world0))))
         ''cache/pkg-1.0.tar.gz'' = Some ''wheel''
   \<and> is_uploaded (fst (snd (mirror_package_from_jfrog env_index ex_mgr ''pkg''
         ''https://jf/art'' ''pypi'' ''cache'' True False (empty_ledger, world0))))
         ''pkg'' ''pkg-1.0-py3.whl'' ''sha256:wheel''
   \<and> \<not> is_uploaded (fst (snd (mirror_package_from_jfrog env_index ex_mgr ''pkg''
         ''https://jf/art'' ''pypi'' ''cache'' True False (empty_ledger, world0))))
         ''pkg'' ''pkg-1.0.tar.gz'' ''sha256:wheel''
   \<and> uploads (trace (snd (snd (mirror_package_from_azure env_index ex_mgr ''pkg'' [] ''org''
         None ''feed'' ''cache'' True False (empty_ledger, world0)))))
       = [''pkg-1.0-py3.whl'']"
proof -
  let ?url = "''https://r/simple/pkg/pkg-1.0.tar.gz?x=1''"
  let ?path = "''cache/pkg-1.0.tar.gz''"
  let ?wj = "request_done env_index (Http_get ''https://jf/art/pypi/simple/pkg/'') world0"
  let ?wa = "request_done env_index
               (Http_get ''https://pkgs.dev.azure.com/org/_packaging/feed/pypi/simple/pkg/'')
               world0"
  let ?r = "ex_response\<lparr>body_chunks := [''wheel''], stream_complete := True\<rparr>"
  have h: "ex_sdist \<in> set (valid_entries ex_entries)
      \<and> \<not> endswith (lower (entry_filename ex_sdist)) ''.whl''"
    using ex_sdist_valid ex_sdist_not_wheel by simp
  have u: "entry_url ex_sdist = ?url"
    by (simp add: ex_sdist_def)
  have n0: "fs world0 ?path = None" by (simp add: world0_def)
  have t0: "uploads (trace world0) = []" by (simp add: world0_def)
  have mk: "makedirs ''cache'' world0 = Returns ()"
    by (simp add: makedirs_def world0_def)
  have r: "\<not> raise_for_status ?r" "stream_complete ?r" "concat (body_chunks ?r) = ''wheel''"
    by (simp_all add: raise_for_status_def ex_response_def)
  have skip: "mirror_entry env_index ex_mgr ''pkg'' ''cache'' True ex_sdist (st, w)
          = (Returns (), st, snd (download_url_to_path env_index ?url ?path 3 w))
      \<and> uploads (trace (snd (download_url_to_path env_index ?url ?path 3 w)))
          = uploads (trace w)"
    if n: "fs w ?path = None" for st w
  proof -
    note inst = extension_filter_and_wheels_only
      [where e = ex_sdist and es = ex_entries and E = env_index and m = ex_mgr
         and pkg_name = "''pkg''" and cache_dir = "''cache''" and st = st and w = w,
       THEN conjunct2, THEN conjunct2, THEN conjunct2, THEN conjunct1,
       unfolded ex_sdist_path u]
    from inst h n have
      a: "mirror_entry env_index ex_mgr ''pkg'' ''cache'' True ex_sdist (st, w)
          = (Returns (), st, snd (ensure_cached env_index ?url ?path w))"
      and b: "uploads (trace (snd (ensure_cached env_index ?url ?path w))) = uploads (trace w)"
      and c: "ensure_cached env_index ?url ?path w
          = download_url_to_path env_index ?url ?path 3 w"
      by blast+
    show ?thesis
      using a b unfolding c by simp
  qed
  have dl: "fst (download_url_to_path env_index ?url ?path 3 w) = Returns ()
      \<and> fs (snd (download_url_to_path env_index ?url ?path 3 w)) ?path = Some ''wheel''" for w
    using download_first_try [where w = w and dest_path = ?path, OF env_index_serves r(1,2)]
      r(3)
    by simp
  have e0: "mirror_entry env_index ex_mgr ''pkg'' ''cache'' True ex_sdist (empty_ledger, world0)
       = (Returns (), empty_ledger, snd (download_url_to_path env_index ?url ?path 3 world0))"
    and e0u: "uploads (trace (snd (download_url_to_path env_index ?url ?path 3 world0))) = []"
    using skip [OF n0, of empty_ledger] t0 by simp_all
  let ?R1 = "mirror_entry env_index ex_mgr ''pkg'' ''cache'' True ex_wheel (empty_ledger, ?wj)"
  let ?R2 = "mirror_entry env_index ex_mgr ''pkg'' ''cache'' True ex_sdist (snd ?R1)"
  let ?P = "mirror_package_from_jfrog env_index ex_mgr ''pkg'' ''https://jf/art'' ''pypi''
              ''cache'' True False (empty_ledger, world0)"
  note pj = extension_filter_and_wheels_only
      [where E = env_index and m = ex_mgr and pkg_name = "''pkg''" and cache_dir = "''cache''"
         and st = empty_ledger and w = world0 and entries = ex_entries and wj = ?wj
         and jfrog_base = "''https://jf/art''" and repo = "''pypi''" and publish_after = False,
       THEN conjunct2, THEN conjunct2, THEN conjunct2, THEN conjunct2, THEN conjunct2,
       THEN conjunct2, THEN conjunct1]
  have MJ: "mirror_entries env_index ex_mgr ''pkg'' ''cache'' True [ex_wheel, ex_sdist]
              (empty_ledger, ?wj) = (Returns (), snd ?R2)"
    by (simp only: mirror_entries_step mirror_entries.simps(1))
  have P: "?P = (Returns (), snd ?R2)"
    using pj [unfolded ex_valid_entries MJ] mk env_index_resolves by simp
  have R2: "?R2 = (Returns (), fst (snd ?R1),
                   snd (download_url_to_path env_index ?url ?path 3 (snd (snd ?R1))))"
    and R2u: "uploads (trace (snd (download_url_to_path env_index ?url ?path 3 (snd (snd ?R1)))))
                = [''pkg-1.0-py3.whl'']"
    using skip [OF env_index_wheel_jfrog(2), of "fst (snd ?R1)"] env_index_wheel_jfrog(1)
    by simp_all
  have R2w: "fs (snd (download_url_to_path env_index ?url ?path 3 (snd (snd ?R1))))
               ''cache/pkg-1.0-py3.whl'' = Some ''wheel''"
    using env_index_wheel_jfrog(3) by (simp add: fs_download)
  let ?A1 = "mirror_entry env_index ex_mgr ''pkg'' ''cache'' True ex_wheel (empty_ledger, ?wa)"
  let ?A2 = "mirror_entry env_index ex_mgr ''pkg'' ''cache'' True ex_sdist (snd ?A1)"
  let ?Q = "mirror_package_from_azure env_index ex_mgr ''pkg'' [] ''org'' None ''feed''
              ''cache'' True False (empty_ledger, world0)"
  note pa = extension_filter_and_wheels_only
      [where E = env_index and m = ex_mgr and pkg_name = "''pkg''" and cache_dir = "''cache''"
         and st = empty_ledger and w = world0 and entries = ex_entries and wa = ?wa
         and base = "[]" and org = "''org''" and project = None and feed = "''feed''"
         and publish_after = False,
       THEN conjunct2, THEN conjunct2, THEN conjunct2, THEN conjunct2, THEN conjunct2,
       THEN conjunct2, THEN conjunct2, THEN conjunct1]
  have MA: "mirror_entries env_index ex_mgr ''pkg'' ''cache'' True [ex_wheel, ex_sdist]
              (empty_ledger, ?wa) = (Returns (), snd ?A2)"
    by (simp only: mirror_entries_step mirror_entries.simps(1))
  have Q: "?Q = (Returns (), snd ?A2)"
    using pa [unfolded ex_valid_entries MA] mk env_index_resolves_azure by simp
  have A2u: "uploads (trace (snd (snd ?A2))) = [''pkg-1.0-py3.whl'']"
    using skip [OF env_index_wheel_azure(2), of "fst (snd ?A1)"] env_index_wheel_azure(1)
    by simp
  show ?thesis
    using h n0 e0 e0u dl [of world0] env_index_sdist_uploaded_otherwise mk env_index_resolves
      env_index_resolves_azure ex_valid_entries
    unfolding P Q R2
    by (simp add: R2u R2w dl env_index_wheel_jfrog(4,5) A2u)
qed

end
